(* ===== verification/Prelude.thy ===== *)
theory Prelude
  imports Main "HOL-Library.Word" "HOL-Library.AList"
begin

text \<open>
  Shared vocabulary of the development: the machine integers and byte order of the C++ code,
  exceptions as values, \<open>std::unordered_map\<close> as an association list with distinct keys, and
  two generic interfaces, a state machine with an invariant and a wire codec. The named
  collections \<open>byte_simps\<close> (packing of integers) and \<open>map_simps\<close> (maps) carry the component
  proofs.
\<close>

unbundle bit_operations_syntax

named_theorems byte_simps \<open>packing and unpacking of integers into bytes\<close>
named_theorems map_simps \<open>lookup, size and keys of an association list after an operation\<close>

section \<open>Machine integers and buffers\<close>

type_synonym u8 = "8 word"
type_synonym u16 = "16 word"
type_synonym u32 = "32 word"
type_synonym u64 = "64 word"
type_synonym bytes = "u8 list"

text \<open>The byte order of the host, on which \<open>htons\<close> and \<open>htonl\<close> depend.\<close>

datatype endian = LittleEndian | BigEndian

text \<open>
  \<open>put_be16\<close> and \<open>put_be32\<close> are the code's sequences of shifts and masks that push an integer
  with its most significant byte first; \<open>get_be16\<close> and \<open>get_be32\<close> the shifts and ors that read
  one back.
\<close>

definition put_be16 :: "u16 \<Rightarrow> bytes" where
  "put_be16 x = [ucast (drop_bit 8 x AND 0xFF), ucast (x AND 0xFF)]"

definition put_be32 :: "u32 \<Rightarrow> bytes" where
  "put_be32 x = [ucast (drop_bit 24 x AND 0xFF), ucast (drop_bit 16 x AND 0xFF),
                 ucast (drop_bit 8 x AND 0xFF), ucast (x AND 0xFF)]"

definition get_be16 :: "u8 \<Rightarrow> u8 \<Rightarrow> u16" where
  "get_be16 b0 b1 = push_bit 8 (ucast b0) OR ucast b1"

definition get_be32 :: "u8 \<Rightarrow> u8 \<Rightarrow> u8 \<Rightarrow> u8 \<Rightarrow> u32" where
  "get_be32 b0 b1 b2 b3 =
     push_bit 24 (ucast b0) OR push_bit 16 (ucast b1) OR push_bit 8 (ucast b2) OR ucast b3"

definition bswap16 :: "u16 \<Rightarrow> u16" where
  "bswap16 x = get_be16 (put_be16 x ! 1) (put_be16 x ! 0)"

definition bswap32 :: "u32 \<Rightarrow> u32" where
  "bswap32 x = get_be32 (put_be32 x ! 3) (put_be32 x ! 2) (put_be32 x ! 1) (put_be32 x ! 0)"

text \<open>POSIX \<open>htons\<close> and \<open>htonl\<close> (and \<open>ntohs\<close>, \<open>ntohl\<close>, the same functions).\<close>

definition htons :: "endian \<Rightarrow> u16 \<Rightarrow> u16" where
  "htons e x = (case e of BigEndian \<Rightarrow> x | LittleEndian \<Rightarrow> bswap16 x)"

definition htonl :: "endian \<Rightarrow> u32 \<Rightarrow> u32" where
  "htonl e x = (case e of BigEndian \<Rightarrow> x | LittleEndian \<Rightarrow> bswap32 x)"

text \<open>The bytes of an integer as they lie in the host's memory (\<open>reinterpret_cast\<close>).\<close>

definition mem16 :: "endian \<Rightarrow> u16 \<Rightarrow> bytes" where
  "mem16 e x = (case e of BigEndian \<Rightarrow> put_be16 x | LittleEndian \<Rightarrow> rev (put_be16 x))"

definition mem32 :: "endian \<Rightarrow> u32 \<Rightarrow> bytes" where
  "mem32 e x = (case e of BigEndian \<Rightarrow> put_be32 x | LittleEndian \<Rightarrow> rev (put_be32 x))"

lemma length_put_be [simp]: "length (put_be16 x) = 2" "length (put_be32 y) = 4"
  by (simp_all add: put_be16_def put_be32_def)

lemma put_be_nth:
  "put_be16 x = [put_be16 x ! 0, put_be16 x ! 1]"
  "put_be32 y = [put_be32 y ! 0, put_be32 y ! 1, put_be32 y ! 2, put_be32 y ! 3]"
  by (simp_all add: put_be16_def put_be32_def)

lemma and_0xFF: "(x :: 'a::len word) AND 0xFF = take_bit 8 x"
  by (simp add: take_bit_eq_mask mask_eq_exp_minus_1)

lemma bit_beyond_length [simp]: "LENGTH('a) \<le> n \<Longrightarrow> \<not> bit (w :: 'a::len word) n"
  by (auto dest: bit_imp_le_length)

lemma get_put_be16 [byte_simps]: "get_be16 (put_be16 x ! 0) (put_be16 x ! Suc 0) = x"
  by (rule bit_word_eqI) (auto simp: put_be16_def get_be16_def and_0xFF bit_simps)

lemma put_get_be16 [byte_simps]: "put_be16 (get_be16 a b) = [a, b]"
  by (auto intro!: bit_word_eqI simp: put_be16_def get_be16_def and_0xFF bit_simps)

lemma get_put_be32 [byte_simps]:
  "get_be32 (put_be32 x ! 0) (put_be32 x ! Suc 0) (put_be32 x ! 2) (put_be32 x ! 3) = x"
proof (rule bit_word_eqI)
  fix n assume "n < LENGTH(32)"
  then consider "n < 8" | "8 \<le> n" "n < 16" | "16 \<le> n" "n < 24" | "24 \<le> n" "n < 32" by fastforce
  then show "bit (get_be32 (put_be32 x ! 0) (put_be32 x ! Suc 0) (put_be32 x ! 2) (put_be32 x ! 3)) n
      = bit x n"
    by cases (auto simp: put_be32_def get_be32_def and_0xFF bit_simps)
qed

lemma put_get_be32 [byte_simps]: "put_be32 (get_be32 a b c d) = [a, b, c, d]"
  by (auto intro!: bit_word_eqI simp: put_be32_def get_be32_def and_0xFF bit_simps)

lemma get_be16_cases: "\<exists>a b. x = get_be16 a b"
  by (metis get_put_be16)

lemma get_be32_cases: "\<exists>a b c d. x = get_be32 a b c d"
  by (metis get_put_be32)

lemma put_be_inject [simp]:
  "put_be16 x = put_be16 x' \<longleftrightarrow> x = x'" "put_be32 y = put_be32 y' \<longleftrightarrow> y = y'"
  by (metis get_put_be16) (metis get_put_be32)

lemma bswap_get [byte_simps]:
  "bswap16 (get_be16 a b) = get_be16 b a"
  "bswap32 (get_be32 a b c d) = get_be32 d c b a"
  by (simp_all add: bswap16_def bswap32_def put_get_be16 put_get_be32)

lemma put_be_bswap [byte_simps]:
  "put_be16 (bswap16 x) = rev (put_be16 x)" "put_be32 (bswap32 y) = rev (put_be32 y)"
proof -
  obtain a b where "x = get_be16 a b" using get_be16_cases by blast
  then show "put_be16 (bswap16 x) = rev (put_be16 x)" by (simp add: byte_simps)
  obtain a b c d where "y = get_be32 a b c d" using get_be32_cases by blast
  then show "put_be32 (bswap32 y) = rev (put_be32 y)" by (simp add: byte_simps)
qed

lemma bswap_involution [simp]: "bswap16 (bswap16 x) = x" "bswap32 (bswap32 y) = y"
  by (metis bswap_get(1) get_be16_cases) (metis bswap_get(2) get_be32_cases)

lemma hton_involution [simp]: "htons e (htons e x) = x" "htonl e (htonl e y) = y"
  by (simp_all add: htons_def htonl_def split: endian.splits)

lemma mem_hton [byte_simps]: "mem16 e (htons e x) = put_be16 x" "mem32 e (htonl e y) = put_be32 y"
  by (simp_all add: mem16_def mem32_def htons_def htonl_def byte_simps split: endian.splits)

subsection \<open>The value a big-endian field stands for\<close>

lemma unat_or_disjoint:
  "x AND y = 0 \<Longrightarrow> unat (x OR y) = unat x + unat (y :: 'a::len word)"
proof -
  assume disj: "x AND y = 0"
  then have "unat x AND unat y = 0"
    by (metis unsigned_and_eq unsigned_0)
  then show ?thesis
    by (simp add: unsigned_or_eq disjunctive_add_eq_or)
qed

lemma unat_shifted_byte:
  "n + 8 \<le> LENGTH('a) \<Longrightarrow> unat (push_bit n (ucast (b :: u8)) :: 'a::len word) = 2 ^ n * unat b"
proof -
  assume len: "n + 8 \<le> LENGTH('a)"
  have "unat b < 2 ^ 8" by (rule order_less_le_trans [OF unsigned_less]) simp
  then have "2 ^ n * unat b < 2 ^ n * 2 ^ 8" by simp
  also have "\<dots> = 2 ^ (n + 8)" by (simp add: power_add)
  also have "\<dots> \<le> 2 ^ LENGTH('a)" using len by (intro power_increasing) simp_all
  finally have small: "2 ^ n * unat b < 2 ^ LENGTH('a)" .
  have "unat b < 2 ^ LENGTH('a)"
    using \<open>unat b < 2 ^ 8\<close> len by (meson add_leD2 less_le_trans one_le_numeral power_increasing)
  then have "unat (ucast b :: 'a word) = unat b"
    by (simp add: unsigned_ucast_eq take_bit_nat_eq_self)
  then have "unat (push_bit n (ucast b) :: 'a word) = take_bit LENGTH('a) (push_bit n (unat b))"
    using len by (simp add: unsigned_push_bit_eq del: push_bit_of_nat)
  then show ?thesis
    using small by (simp add: take_bit_nat_eq_self push_bit_eq_mult mult.commute)
qed

lemma unat_get_be16 [byte_simps]: "unat (get_be16 a b) = 2 ^ 8 * unat a + unat b"
proof -
  have "push_bit 8 (ucast a) AND (ucast b :: u16) = 0"
    by (rule bit_word_eqI) (auto simp: bit_simps)
  then show ?thesis
    using unat_shifted_byte [of 8 a, where 'a = 16] unat_shifted_byte [of 0 b, where 'a = 16]
    by (simp add: get_be16_def unat_or_disjoint)
qed

lemma unat_get_be32 [byte_simps]:
  "unat (get_be32 a b c d) = 2 ^ 24 * unat a + 2 ^ 16 * unat b + 2 ^ 8 * unat c + unat d"
proof -
  have "push_bit 24 (ucast a) AND (push_bit 16 (ucast b) OR push_bit 8 (ucast c) OR ucast d :: u32) = 0"
    "push_bit 16 (ucast b) AND (push_bit 8 (ucast c) OR ucast d :: u32) = 0"
    "push_bit 8 (ucast c) AND (ucast d :: u32) = 0"
    by (rule bit_word_eqI; auto simp: bit_simps)+
  then show ?thesis
    using unat_shifted_byte [of 24 a, where 'a = 32] unat_shifted_byte [of 16 b, where 'a = 32]
      unat_shifted_byte [of 8 c, where 'a = 32] unat_shifted_byte [of 0 d, where 'a = 32]
    by (simp add: get_be32_def unat_or_disjoint)
qed

section \<open>Exceptions as values\<close>

text \<open>
  A function that may throw returns \<open>Inl\<close> of the exception. \<open>Out_of_bounds\<close>, \<open>Use_after_free\<close> and
  \<open>Deadlock\<close> are not exceptions of C++ but undefined behaviour: an access outside a buffer, a call on
  an object that has been freed, and locking a mutex that the thread already holds.
\<close>

datatype cpp_error =
  Runtime_error string
| Invalid_argument string
| Out_of_range string
| Out_of_bounds
| Use_after_free
| Deadlock

type_synonym 'a result = "cpp_error + 'a"

fun bind_result :: "'a result \<Rightarrow> ('a \<Rightarrow> 'b result) \<Rightarrow> 'b result" where
  "bind_result (Inl e) f = Inl e"
| "bind_result (Inr x) f = f x"

lemma bind_result_Inr_iff [simp]:
  "bind_result r f = Inr y \<longleftrightarrow> (\<exists>x. r = Inr x \<and> f x = Inr y)"
  by (cases r) auto

text \<open>A copy of \<open>n\<close> bytes from \<open>data + from\<close>: undefined when the buffer ends before.\<close>

definition read_range :: "'a list \<Rightarrow> nat \<Rightarrow> nat \<Rightarrow> 'a list result" where
  "read_range data from n =
     (if from + n \<le> length data then Inr (take n (drop from data)) else Inl Out_of_bounds)"

lemma read_range_length: "read_range data from n = Inr xs \<Longrightarrow> length xs = n"
  by (auto simp: read_range_def split: if_splits)

lemma read_range_append [simp]:
  "length xs = from \<Longrightarrow> read_range (xs @ ys) from n = read_range ys 0 n"
  by (auto simp: read_range_def)

section \<open>Maps\<close>

text \<open>
  \<open>std::unordered_map\<close> and \<open>std::map\<close> are association lists with distinct keys
  (\<open>map_of\<close>, \<open>AList.update\<close>, \<open>AList.delete\<close>, \<open>length\<close>). The order in which an unordered map is
  walked is not specified: wherever it matters, the walk takes the order as an argument.
\<close>

type_synonym ('k, 'v) umap = "('k \<times> 'v) list"

abbreviation keys_of :: "('k, 'v) umap \<Rightarrow> 'k set" where
  "keys_of m \<equiv> fst ` set m"

definition umap_wf :: "('k, 'v) umap \<Rightarrow> bool" where
  "umap_wf m \<longleftrightarrow> distinct (map fst m)"

lemma umap_wf_Nil [simp, intro]: "umap_wf []"
  by (simp add: umap_wf_def)

lemma umap_wf_update [simp, intro]: "umap_wf m \<Longrightarrow> umap_wf (AList.update k v m)"
  by (simp add: umap_wf_def distinct_update)

lemma umap_wf_delete [simp, intro]: "umap_wf m \<Longrightarrow> umap_wf (AList.delete k m)"
  by (simp add: umap_wf_def distinct_delete)

lemma umap_wf_filter [simp, intro]: "umap_wf m \<Longrightarrow> umap_wf (filter P m)"
  by (simp add: umap_wf_def distinct_map_filter)

lemma lookup_update [map_simps]:
  "map_of (AList.update k v m) k' = (if k' = k then Some v else map_of m k')"
  by (simp add: update_conv')

lemma lookup_delete [map_simps]:
  "map_of (AList.delete k m) k' = (if k' = k then None else map_of m k')"
  by (simp add: delete_conv')

lemma keys_update [map_simps]: "keys_of (AList.update k v m) = insert k (keys_of m)"
  by (simp add: dom_update)

lemma keys_delete [map_simps]: "keys_of (AList.delete k m) = keys_of m - {k}"
  by (metis dom_map_of_conv_image_fst delete_conv' dom_fun_upd)

lemma keys_lookup: "k \<in> keys_of m \<longleftrightarrow> map_of m k \<noteq> None"
  by (simp add: map_of_eq_None_iff)

lemma length_update [map_simps]:
  "length (AList.update k v m) = (if map_of m k = None then Suc (length m) else length m)"
  by (induction m) (auto split: if_splits)

lemma length_delete [map_simps]:
  "umap_wf m \<Longrightarrow> length (AList.delete k m) = (if map_of m k = None then length m else length m - 1)"
proof (induction m)
  case (Cons p m)
  show ?case
  proof (cases "fst p = k")
    case True
    then have "map_of m k = None" using Cons.prems
      by (auto simp: umap_wf_def map_of_eq_None_iff image_iff)
    then show ?thesis using True by (cases p) (simp add: delete_conv' keys_lookup AList.delete_id)
  next
    case False
    then show ?thesis using Cons
      by (cases p) (cases m, auto simp: umap_wf_def split: option.splits)
  qed
qed simp

lemma length_keys: "umap_wf m \<Longrightarrow> length m = card (keys_of m)"
  by (metis distinct_card length_map list.set_map umap_wf_def)

lemma map_of_filter_wf [map_simps]:
  "umap_wf m \<Longrightarrow> map_of (filter (\<lambda>(k, v). P k v) m) k =
     (case map_of m k of None \<Rightarrow> None | Some v \<Rightarrow> if P k v then Some v else None)"
proof (induction m)
  case (Cons p m)
  obtain a b where p: "p = (a, b)" by (cases p)
  from Cons.prems have "umap_wf m" and "map_of m a = None"
    by (auto simp: umap_wf_def p map_of_eq_None_iff image_iff)
  then show ?case using Cons.IH by (auto simp: p split: option.splits)
qed simp

section \<open>Two generic interfaces\<close>

text \<open>A component whose operations all keep an invariant keeps it over any sequence of them.\<close>

locale step_machine =
  fixes step :: "'s \<Rightarrow> 'e \<Rightarrow> 's"
    and inv :: "'s \<Rightarrow> bool"
  assumes step_inv: "inv s \<Longrightarrow> inv (step s e)"
begin

lemma run_inv: "inv s \<Longrightarrow> inv (foldl step s es)"
  by (induction es arbitrary: s) (auto intro: step_inv)

lemma run_append: "foldl step s (es @ es') = foldl step (foldl step s es) es'"
  by simp

end

text \<open>
  A frame format: what \<open>decode\<close> recovers from the bytes of a valid frame whatever follows them
  in the buffer. Two valid frames with a common extension are then equal, so a stream of frames
  is read back in one way only.
\<close>

locale frame_codec =
  fixes encode :: "'f \<Rightarrow> bytes"
    and decode :: "bytes \<Rightarrow> 'f result"
    and valid :: "'f \<Rightarrow> bool"
  assumes decode_encode: "valid f \<Longrightarrow> decode (encode f @ rest) = Inr f"
begin

lemma round_trip: "valid f \<Longrightarrow> decode (encode f) = Inr f"
  using decode_encode [of f "[]"] by simp

lemma prefix_free:
  assumes "valid f" and "valid g" and "encode f @ r = encode g @ r'"
  shows "f = g" and "r = r'"
proof -
  have "Inr f = (Inr g :: 'f result)"
    using assms decode_encode [of f r] decode_encode [of g r'] by simp
  then show "f = g" by simp
  then show "r = r'" using assms(3) by simp
qed

lemma encode_inject: "valid f \<Longrightarrow> valid g \<Longrightarrow> encode f = encode g \<longleftrightarrow> f = g"
  using prefix_free(1) [of f g "[]" "[]"] by auto

end

end
