(* ===== verification/Cpp_String.thy ===== *)
theory Cpp_String
  imports Prelude
begin

text \<open>
  What the code uses of \<open>std::string\<close>, \<open>std::istringstream\<close> and \<open>std::stoi\<close>. A \<open>std::string\<close> is
  a list of characters of 8 bits; \<open>npos\<close> is \<open>None\<close>; the state of an input string stream is the
  text that has not been read.
\<close>

named_theorems string_simps \<open>the string functions on the shapes the components build\<close>

section \<open>Searching and trimming\<close>

fun find_char :: "char \<Rightarrow> string \<Rightarrow> nat option" where
  "find_char c [] = None"
| "find_char c (x # xs) = (if x = c then Some 0 else map_option Suc (find_char c xs))"

fun find_string :: "string \<Rightarrow> string \<Rightarrow> nat option" where
  "find_string p s =
     (if take (length p) s = p then Some 0
      else case s of [] \<Rightarrow> None | _ # s' \<Rightarrow> map_option Suc (find_string p s'))"

declare find_string.simps [simp del]

text \<open>\<open>s.compare(0, p.size(), p) == 0\<close>\<close>

definition starts_with :: "string \<Rightarrow> string \<Rightarrow> bool" where
  "starts_with p s \<longleftrightarrow> take (length p) s = p"

text \<open>
  \<open>s.erase(0, s.find_first_not_of(cs)); s.erase(s.find_last_not_of(cs) + 1)\<close>. Where no character
  is outside \<open>cs\<close> both positions are \<open>npos\<close> and the string becomes empty.
\<close>

definition trim :: "string \<Rightarrow> string \<Rightarrow> string" where
  "trim cs s = rev (dropWhile (\<lambda>c. c \<in> set cs) (rev (dropWhile (\<lambda>c. c \<in> set cs) s)))"

text \<open>\<open>::tolower\<close> in the C locale\<close>

definition to_lower_char :: "char \<Rightarrow> char" where
  "to_lower_char c = (if 65 \<le> (of_char c :: nat) \<and> (of_char c :: nat) \<le> 90
     then char_of ((of_char c :: nat) + 32) else c)"

definition to_lower :: "string \<Rightarrow> string" where
  "to_lower s = map to_lower_char s"

definition pop_cr :: "string \<Rightarrow> string" where
  "pop_cr s = (if s \<noteq> [] \<and> last s = CHR 0x0D then butlast s else s)"

lemma find_char_None [simp]: "find_char c s = None \<longleftrightarrow> c \<notin> set s"
  by (induction s) auto

lemma find_char_Some_iff:
  "find_char c s = Some n \<longleftrightarrow> n < length s \<and> s ! n = c \<and> c \<notin> set (take n s)"
proof (induction s arbitrary: n)
  case (Cons x s)
  show ?case by (cases n) (auto simp: Cons.IH)
qed simp

lemma find_char_append [string_simps]:
  "c \<notin> set s \<Longrightarrow> find_char c (s @ c # t) = Some (length s)"
  by (induction s) auto

lemma find_char_first: "c \<notin> set s \<Longrightarrow> find_char c (s @ t) = map_option (\<lambda>n. length s + n) (find_char c t)"
proof (induction s)
  case Nil
  have "map_option (\<lambda>n. length [] + n) x = x" for x by (cases x) simp_all
  then show ?case by simp
next
  case (Cons a s)
  have "map_option Suc (map_option (\<lambda>n. length s + n) x) = map_option (\<lambda>n. length (a # s) + n) x" for x
    by (cases x) simp_all
  then show ?case using Cons by auto
qed

lemma find_char_le: "find_char c s = Some n \<Longrightarrow> n < length s"
  by (simp add: find_char_Some_iff)

lemma find_string_Some_le: "find_string p s = Some n \<Longrightarrow> n + length p \<le> length s"
proof (induction s arbitrary: n)
  case Nil
  then show ?case by (simp add: find_string.simps [of p "[]"] split: if_splits)
next
  case (Cons x s)
  show ?case
  proof (cases "take (length p) (x # s) = p")
    case True
    then have "length p \<le> length (x # s)" by (metis length_take min.cobounded1)
    then show ?thesis using Cons.prems True by (simp add: find_string.simps [of p "x # s"])
  next
    case False
    then obtain m where "find_string p s = Some m" "n = Suc m"
      using Cons.prems by (auto simp: find_string.simps [of p "x # s"])
    then show ?thesis using Cons.IH by fastforce
  qed
qed

lemma find_string_append:
  "\<lbrakk>\<And>i. i < length s \<Longrightarrow> take (length p) (drop i (s @ p @ t)) \<noteq> p\<rbrakk>
   \<Longrightarrow> find_string p (s @ p @ t) = Some (length s)"
proof (induction s)
  case Nil
  then show ?case by (simp add: find_string.simps [of p "p @ t"])
next
  case (Cons x s)
  have "take (length p) (x # s @ p @ t) \<noteq> p"
    using Cons.prems [of 0] by simp
  moreover have "find_string p (s @ p @ t) = Some (length s)"
    using Cons.prems [of "Suc _"] by (intro Cons.IH) force
  ultimately show ?case
    by (simp add: find_string.simps [of p "x # s @ p @ t"])
qed

lemma starts_with_append [simp]: "starts_with p (p @ s)"
  by (simp add: starts_with_def)

lemma starts_with_iff: "starts_with p s \<longleftrightarrow> (\<exists>t. s = p @ t)"
  unfolding starts_with_def by (metis append_eq_conv_conj append_take_drop_id)

lemma dropWhile_hd: "s \<noteq> [] \<Longrightarrow> \<not> P (hd s) \<Longrightarrow> dropWhile P s = s"
  by (cases s) auto

lemma trim_id [string_simps]:
  "s = [] \<or> (hd s \<notin> set cs \<and> last s \<notin> set cs) \<Longrightarrow> trim cs s = s"
  by (cases "s = []") (auto simp: trim_def dropWhile_hd hd_rev)

lemma trim_Cons [string_simps]: "c \<in> set cs \<Longrightarrow> trim cs (c # s) = trim cs s"
  by (simp add: trim_def)

lemma trim_Nil [simp]: "trim cs [] = []"
  by (simp add: trim_def)

lemma trim_ends: "trim cs s \<noteq> [] \<Longrightarrow> hd (trim cs s) \<notin> set cs \<and> last (trim cs s) \<notin> set cs"
proof -
  let ?P = "\<lambda>c. c \<in> set cs" and ?d = "dropWhile (\<lambda>c. c \<in> set cs) s"
  assume ne: "trim cs s \<noteq> []"
  then have r: "dropWhile ?P (rev ?d) \<noteq> []" by (simp only: trim_def rev_is_Nil_conv not_False_eq_True)
  then have "\<not> ?P (hd (dropWhile ?P (rev ?d)))" by (rule hd_dropWhile)
  then have "last (trim cs s) \<notin> set cs" using r by (simp only: trim_def last_rev not_False_eq_True)
  moreover have "hd (trim cs s) \<notin> set cs"
  proof -
    have "?d \<noteq> []" using r by (cases "?d = []") simp_all
    then have "hd ?d \<notin> set cs" by (metis hd_dropWhile)
    moreover have "?d = trim cs s @ rev (takeWhile ?P (rev ?d))"
      unfolding trim_def by (metis rev_append rev_rev_ident takeWhile_dropWhile_id)
    ultimately show ?thesis using ne by (metis hd_append2)
  qed
  ultimately show ?thesis by simp
qed

lemma trim_idem [simp]: "trim cs (trim cs s) = trim cs s"
  by (cases "trim cs s = []") (simp, blast intro: trim_id dest: trim_ends)

lemma pop_cr_snoc [simp]: "pop_cr (s @ [CHR 0x0D]) = s"
  by (simp add: pop_cr_def)

lemma to_lower_append [simp]: "to_lower (s @ t) = to_lower s @ to_lower t"
  by (simp add: to_lower_def)

lemma to_lower_char_plain:
  assumes "\<not> (65 \<le> (of_char d :: nat) \<and> (of_char d :: nat) \<le> 90)" "\<not> (97 \<le> (of_char d :: nat) \<and> (of_char d :: nat) \<le> 122)"
  shows "to_lower_char c = d \<longleftrightarrow> c = d"
proof (cases "65 \<le> (of_char c :: nat) \<and> (of_char c :: nat) \<le> 90")
  case True
  then have "(of_char (to_lower_char c) :: nat) = of_char c + 32" by (simp add: to_lower_char_def)
  then show ?thesis using True assms by auto
next
  case False
  then have "to_lower_char c = c" by (simp only: to_lower_char_def if_False)
  then show ?thesis by simp
qed

lemma set_to_lower:
  assumes "\<not> (65 \<le> (of_char d :: nat) \<and> (of_char d :: nat) \<le> 90)" "\<not> (97 \<le> (of_char d :: nat) \<and> (of_char d :: nat) \<le> 122)"
  shows "d \<in> set (to_lower s) \<longleftrightarrow> d \<in> set s"
proof -
  have "d = to_lower_char c \<longleftrightarrow> d = c" for c using to_lower_char_plain [OF assms, of c] by metis
  then show ?thesis by (induction s) (simp_all add: to_lower_def)
qed

lemma to_lower_char_idem [simp]: "to_lower_char (to_lower_char c) = to_lower_char c"
proof (cases "65 \<le> (of_char c :: nat) \<and> (of_char c :: nat) \<le> 90")
  case True
  then have "(of_char (to_lower_char c) :: nat) = of_char c + 32" by (simp add: to_lower_char_def)
  then have "\<not> (65 \<le> (of_char (to_lower_char c) :: nat) \<and> (of_char (to_lower_char c) :: nat) \<le> 90)"
    using True by simp
  then show ?thesis by (subst to_lower_char_def) (simp only: if_False)
next
  case False
  then have "to_lower_char c = c" by (simp only: to_lower_char_def if_False)
  then show ?thesis by simp
qed

lemma to_lower_idem [simp]: "to_lower (to_lower s) = to_lower s"
  by (simp add: to_lower_def)

section \<open>Reading from a string stream\<close>

text \<open>
  \<open>std::getline(stream, line, d)\<close>: fails (\<open>None\<close>) at the end of the stream, otherwise the text up
  to the delimiter, which is removed.
\<close>

definition getline :: "char \<Rightarrow> string \<Rightarrow> (string \<times> string) option" where
  "getline d s = (if s = [] then None
     else Some (takeWhile (\<lambda>c. c \<noteq> d) s, drop 1 (dropWhile (\<lambda>c. c \<noteq> d) s)))"

definition is_space :: "char \<Rightarrow> bool" where
  "is_space c \<longleftrightarrow> c = CHR '' '' \<or> (9 \<le> (of_char c :: nat) \<and> (of_char c :: nat) \<le> 13)"

text \<open>\<open>stream >> word\<close>: skips white space; leaves the (empty) variable as it is at the end.\<close>

definition read_word :: "string \<Rightarrow> string \<times> string" where
  "read_word s = (let t = dropWhile is_space s
     in (takeWhile (\<lambda>c. \<not> is_space c) t, dropWhile (\<lambda>c. \<not> is_space c) t))"

lemma getline_shorter: "getline d s = Some (l, s') \<Longrightarrow> length s' < length s"
proof -
  assume "getline d s = Some (l, s')"
  then have "s \<noteq> []" and s': "s' = drop 1 (dropWhile (\<lambda>c. c \<noteq> d) s)"
    by (auto simp: getline_def split: if_splits)
  moreover have "length (dropWhile (\<lambda>c. c \<noteq> d) s) \<le> length s" by (rule length_dropWhile_le)
  moreover have "0 < length s" using \<open>s \<noteq> []\<close> by simp
  ultimately show ?thesis by (simp add: s' del: length_greater_0_conv)
qed

lemma getline_append [string_simps]: "d \<notin> set l \<Longrightarrow> getline d (l @ d # s) = Some (l, s)"
  by (induction l) (auto simp: getline_def)

lemma getline_last [string_simps]: "d \<notin> set l \<Longrightarrow> l \<noteq> [] \<Longrightarrow> getline d l = Some (l, [])"
proof -
  assume d: "d \<notin> set l" and l: "l \<noteq> []"
  from d have "\<forall>c \<in> set l. c \<noteq> d" by auto
  then have "takeWhile (\<lambda>c. c \<noteq> d) l = l" "dropWhile (\<lambda>c. c \<noteq> d) l = []"
    by (simp_all add: takeWhile_eq_all_conv dropWhile_eq_Nil_conv)
  then show ?thesis unfolding getline_def using l by (simp only: if_False drop_Nil)
qed

lemma read_word_append [string_simps]:
  assumes "w \<noteq> []" "\<forall>c \<in> set w. \<not> is_space c" "s = [] \<or> is_space (hd s)"
  shows "read_word (w @ s) = (w, s)"
proof -
  have d: "dropWhile is_space (w @ s) = w @ s"
    using assms by (cases w) auto
  have "takeWhile (\<lambda>c. \<not> is_space c) (w @ s) = w \<and> dropWhile (\<lambda>c. \<not> is_space c) (w @ s) = s"
    using assms(2,3) by (induction w) (cases s; auto)+
  then show ?thesis by (simp add: read_word_def Let_def d)
qed

lemma read_word_space [string_simps]: "is_space c \<Longrightarrow> read_word (c # s) = read_word s"
  by (simp add: read_word_def)

lemma read_word_result:
  "read_word s = (w, t) \<Longrightarrow> (\<forall>c \<in> set w. \<not> is_space c) \<and> (w = [] \<longrightarrow> t = [])"
proof -
  assume r: "read_word s = (w, t)"
  let ?d = "dropWhile is_space s"
  from r have w: "w = takeWhile (\<lambda>c. \<not> is_space c) ?d" and t: "t = dropWhile (\<lambda>c. \<not> is_space c) ?d"
    by (metis read_word_def prod.inject)+
  have "?d = []" if "w = []"
  proof (rule ccontr)
    assume ne: "?d \<noteq> []"
    then have "\<not> is_space (hd ?d)" by (rule hd_dropWhile)
    then have "takeWhile (\<lambda>c. \<not> is_space c) ?d \<noteq> []" using ne by (cases ?d) simp_all
    then show False using w that by metis
  qed
  moreover have "\<forall>c \<in> set w. \<not> is_space c" unfolding w by (metis set_takeWhileD)
  ultimately show ?thesis using t by (metis dropWhile.simps(1))
qed

section \<open>Numbers\<close>

definition digit_char :: "nat \<Rightarrow> char" where
  "digit_char n = (if n < 10 then char_of (48 + n) else char_of (87 + n))"

text \<open>The value of a digit in \<open>strtol\<close>, letters standing for 10 to 35.\<close>

definition digit_val :: "char \<Rightarrow> nat option" where
  "digit_val c = (let n = of_char c :: nat in
     if 48 \<le> n \<and> n \<le> 57 then Some (n - 48)
     else if 97 \<le> n \<and> n \<le> 122 then Some (n - 87)
     else if 65 \<le> n \<and> n \<le> 90 then Some (n - 55)
     else None)"

definition is_digit :: "nat \<Rightarrow> char \<Rightarrow> bool" where
  "is_digit base c = (case digit_val c of None \<Rightarrow> False | Some d \<Rightarrow> d < base)"

definition digits_value :: "nat \<Rightarrow> string \<Rightarrow> nat" where
  "digits_value base ds = foldl (\<lambda>n c. n * base + the (digit_val c)) 0 ds"

definition skip_0x :: "nat \<Rightarrow> string \<Rightarrow> string" where
  "skip_0x base s = (if base = 16 \<and> 3 \<le> length s \<and> s ! 0 = CHR ''0'' \<and> s ! 1 \<in> set ''xX''
     \<and> is_digit 16 (s ! 2) then drop 2 s else s)"

text \<open>
  \<open>std::stoi(s, nullptr, base)\<close>: white space, a sign, a \<open>0x\<close> prefix in base 16 and the longest run
  of digits; text after the digits is ignored.
\<close>

definition stoi :: "nat \<Rightarrow> string \<Rightarrow> int result" where
  "stoi base s =
    (let s1 = dropWhile is_space s;
         neg = (s1 \<noteq> [] \<and> hd s1 = CHR ''-'');
         s2 = (if s1 \<noteq> [] \<and> hd s1 \<in> set ''+-'' then tl s1 else s1);
         ds = takeWhile (is_digit base) (skip_0x base s2);
         v = (if neg then - int (digits_value base ds) else int (digits_value base ds))
     in if ds = [] then Inl (Invalid_argument ''stoi'')
        else if v < - (2 ^ 31) \<or> 2 ^ 31 \<le> v then Inl (Out_of_range ''stoi'')
        else Inr v)"

text \<open>\<open>std::to_string\<close> of an unsigned integer\<close>

fun nat_string :: "nat \<Rightarrow> string" where
  "nat_string n = (if n < 10 then [digit_char n] else nat_string (n div 10) @ [digit_char (n mod 10)])"

declare nat_string.simps [simp del]

definition int_string :: "int \<Rightarrow> string" where
  "int_string i = (if i < 0 then CHR ''-'' # nat_string (nat (- i)) else nat_string (nat i))"

text \<open>Two lower-case hexadecimal digits: \<open>std::hex\<close>, \<open>std::setw(2)\<close>, fill \<open>0\<close>.\<close>

definition hex2 :: "u8 \<Rightarrow> string" where
  "hex2 b = [digit_char (unat b div 16), digit_char (unat b mod 16)]"

text \<open>\<open>std::hex << std::setfill('0') << std::setw(16)\<close>\<close>

definition hex16 :: "u64 \<Rightarrow> string" where
  "hex16 x = map (\<lambda>i. digit_char (unat (drop_bit (60 - 4 * i) x AND 15))) [0..<16]"

text \<open>
  \<open>std::stoul\<close>: a minus sign is taken and the value negated modulo \<open>2^64\<close>; only more than 64 bits
  are out of range.
\<close>

definition stoul :: "string \<Rightarrow> u64 result" where
  "stoul s =
    (let s1 = dropWhile is_space s;
         neg = (s1 \<noteq> [] \<and> hd s1 = CHR ''-'');
         s2 = (if s1 \<noteq> [] \<and> hd s1 \<in> set ''+-'' then tl s1 else s1);
         ds = takeWhile (is_digit 10) s2;
         v = digits_value 10 ds
     in if ds = [] then Inl (Invalid_argument ''stoul'')
        else if 2 ^ 64 \<le> v then Inl (Out_of_range ''stoul'')
        else Inr (if neg then - word_of_nat v else word_of_nat v))"

lemma of_char_digit_char: "n < 16 \<Longrightarrow> (of_char (digit_char n) :: nat) = (if n < 10 then 48 + n else 87 + n)"
  by (simp add: digit_char_def)

lemma digit_val_digit_char [simp]: "n < 16 \<Longrightarrow> digit_val (digit_char n) = Some n"
  by (simp add: digit_val_def of_char_digit_char Let_def)

lemma is_digit_digit_char [simp]: "n < base \<Longrightarrow> n < 16 \<Longrightarrow> is_digit base (digit_char n)"
  by (simp add: is_digit_def)

lemma digit_char_not_space [simp]: "n < 16 \<Longrightarrow> \<not> is_space (digit_char n)"
proof -
  assume n: "n < 16"
  have "(of_char (CHR '' '') :: nat) = 32" by simp
  moreover have "(of_char (digit_char n) :: nat) \<noteq> 32" using n by (simp add: of_char_digit_char)
  ultimately have "digit_char n \<noteq> CHR '' ''" by metis
  then show ?thesis using of_char_digit_char [OF n] by (simp add: is_space_def)
qed

lemma digit_char_inject [simp]: "m < 16 \<Longrightarrow> n < 16 \<Longrightarrow> digit_char m = digit_char n \<longleftrightarrow> m = n"
  by (metis digit_val_digit_char option.inject)

lemma digit_char_neq:
  "n < 16 \<Longrightarrow> digit_val c = None \<Longrightarrow> digit_char n \<noteq> c"
  by auto

lemma digits_value_snoc: "digits_value base (ds @ [c]) = digits_value base ds * base + the (digit_val c)"
  by (simp add: digits_value_def)

lemma nat_string_digits: "set (nat_string n) \<subseteq> digit_char ` {..<10}"
proof (induction n rule: nat_string.induct)
  case (1 n)
  then show ?case by (subst nat_string.simps) auto
qed

lemma nat_string_nonempty [simp]: "nat_string n \<noteq> []"
  by (subst nat_string.simps) simp

lemma digits_value_nat_string: "digits_value 10 (nat_string n) = n"
proof (induction n rule: nat_string.induct)
  case (1 n)
  show ?case
  proof (cases "n < 10")
    case True
    then show ?thesis by (subst nat_string.simps) (simp add: digits_value_def)
  next
    case False
    with 1 show ?thesis
      by (subst nat_string.simps) (simp add: digits_value_snoc)
  qed
qed

lemma nat_string_inject [simp]: "nat_string m = nat_string n \<longleftrightarrow> m = n"
  by (metis digits_value_nat_string)

lemma nat_string_chars:
  "c \<in> set (nat_string n) \<Longrightarrow> is_digit 10 c \<and> \<not> is_space c"
  using nat_string_digits [of n] by auto

lemma stoi_nat_string: "n < 2 ^ 31 \<Longrightarrow> stoi 10 (nat_string n) = Inr (int n)"
proof -
  assume n: "n < 2 ^ 31"
  obtain c cs where c: "nat_string n = c # cs" by (cases "nat_string n") simp_all
  have d: "is_digit 10 c" "\<not> is_space c" using nat_string_chars [of c n] c by simp_all
  have sg: "c \<noteq> CHR ''-''" "c \<noteq> CHR ''+''" using d(1) by (auto simp: is_digit_def digit_val_def)
  have tw: "takeWhile (is_digit 10) cs = cs"
    using nat_string_chars [of _ n] c by (simp add: takeWhile_eq_all_conv)
  have sk: "skip_0x 10 (c # cs) = c # cs" by (simp add: skip_0x_def)
  show ?thesis
    using n d sg by (simp add: stoi_def Let_def c sk tw digits_value_nat_string [of n, unfolded c])
qed

end
