(* ===== verification/Tcp_Protocol.thy ===== *)
theory Tcp_Protocol
  imports Cpp_String
begin

text \<open>
  \<open>src/proxy/tcp_protocol.{h,cpp}\<close>: the five frames of the TCP tunnel protocol, their
  (de)serialisation and the textual form of a connection id. The enums have a fixed underlying
  type, so that every value of it may occur after a \<open>static_cast\<close>; they are the words
  themselves. The byte order \<open>e\<close> of the host is an argument wherever \<open>htons\<close> or \<open>htonl\<close> is called.
\<close>

section \<open>Frames\<close>

type_synonym TCPFrameType = u8

definition TCP_OPEN :: TCPFrameType where "TCP_OPEN = 0x10"
definition TCP_DATA :: TCPFrameType where "TCP_DATA = 0x11"
definition TCP_CLOSE :: TCPFrameType where "TCP_CLOSE = 0x12"
definition TCP_ERROR :: TCPFrameType where "TCP_ERROR = 0x13"
definition TCP_ACK :: TCPFrameType where "TCP_ACK = 0x14"

lemmas TCPFrameType_defs = TCP_OPEN_def TCP_DATA_def TCP_CLOSE_def TCP_ERROR_def TCP_ACK_def

datatype TCPCloseReason = NORMAL | CR_TIMEOUT | CR_ERROR | CR_CONNECTION_REFUSED
  | CR_HOST_UNREACHABLE | CR_PROTOCOL_ERROR

fun TCPCloseReason_code :: "TCPCloseReason \<Rightarrow> u16" where
  "TCPCloseReason_code NORMAL = 0x0000"
| "TCPCloseReason_code CR_TIMEOUT = 0x0001"
| "TCPCloseReason_code CR_ERROR = 0x0002"
| "TCPCloseReason_code CR_CONNECTION_REFUSED = 0x0003"
| "TCPCloseReason_code CR_HOST_UNREACHABLE = 0x0004"
| "TCPCloseReason_code CR_PROTOCOL_ERROR = 0x0005"

record TCPOpenFrame =
  open_type :: TCPFrameType
  open_connection_id :: bytes
  open_target_port :: u16

record TCPDataFrame =
  data_type :: TCPFrameType
  data_connection_id :: bytes
  data_sequence_number :: u32
  data_data :: bytes

record TCPCloseFrame =
  close_type :: TCPFrameType
  close_connection_id :: bytes
  close_reason :: u16

record TCPErrorFrame =
  error_type :: TCPFrameType
  error_connection_id :: bytes
  error_code :: u16
  error_message :: bytes

record TCPAckFrame =
  ack_type :: TCPFrameType
  ack_connection_id :: bytes
  ack_ack_sequence_number :: u32
  ack_window_size :: u32

section \<open>Serialisation\<close>

definition TCPOpenFrame_serialize :: "endian \<Rightarrow> TCPOpenFrame \<Rightarrow> bytes" where
  "TCPOpenFrame_serialize e f =
     [open_type f] @ open_connection_id f @ put_be16 (htons e (open_target_port f))"

definition TCPOpenFrame_deserialize :: "endian \<Rightarrow> bytes \<Rightarrow> TCPOpenFrame result" where
  "TCPOpenFrame_deserialize e data =
    (if length data < 19 then Inl (Runtime_error ''TCPOpenFrame: buffer too small'')
     else if data ! 0 \<noteq> TCP_OPEN then Inl (Runtime_error ''TCPOpenFrame: invalid frame type'')
     else Inr \<lparr>open_type = data ! 0, open_connection_id = take 16 (drop 1 data),
               open_target_port = htons e (get_be16 (data ! 17) (data ! 18))\<rparr>)"

definition TCPDataFrame_serialize :: "TCPDataFrame \<Rightarrow> bytes" where
  "TCPDataFrame_serialize f =
     [data_type f] @ data_connection_id f @ put_be32 (data_sequence_number f)
       @ put_be32 (of_nat (length (data_data f))) @ data_data f"

text \<open>
  The sum \<open>25 + data_length\<close> is computed on \<open>uint32_t\<close> and wraps; the copy of the payload then
  reads \<open>data_length\<close> bytes.
\<close>

definition TCPDataFrame_deserialize :: "endian \<Rightarrow> bytes \<Rightarrow> TCPDataFrame result" where
  "TCPDataFrame_deserialize e data =
    (if length data < 25 then Inl (Runtime_error ''TCPDataFrame: buffer too small'')
     else if data ! 0 \<noteq> TCP_DATA then Inl (Runtime_error ''TCPDataFrame: invalid frame type'')
     else let seq = htonl e (get_be32 (data ! 17) (data ! 18) (data ! 19) (data ! 20));
              data_length = htonl e (get_be32 (data ! 21) (data ! 22) (data ! 23) (data ! 24))
          in if length data < unat (25 + data_length)
             then Inl (Runtime_error ''TCPDataFrame: incomplete data'')
             else bind_result (read_range data 25 (unat data_length)) (\<lambda>payload.
               Inr \<lparr>data_type = data ! 0, data_connection_id = take 16 (drop 1 data),
                    data_sequence_number = seq, data_data = payload\<rparr>))"

definition TCPCloseFrame_serialize :: "endian \<Rightarrow> TCPCloseFrame \<Rightarrow> bytes" where
  "TCPCloseFrame_serialize e f =
     [close_type f] @ close_connection_id f @ put_be16 (htons e (close_reason f))"

definition TCPCloseFrame_deserialize :: "endian \<Rightarrow> bytes \<Rightarrow> TCPCloseFrame result" where
  "TCPCloseFrame_deserialize e data =
    (if length data < 19 then Inl (Runtime_error ''TCPCloseFrame: buffer too small'')
     else if data ! 0 \<noteq> TCP_CLOSE then Inl (Runtime_error ''TCPCloseFrame: invalid frame type'')
     else Inr \<lparr>close_type = data ! 0, close_connection_id = take 16 (drop 1 data),
               close_reason = htons e (get_be16 (data ! 17) (data ! 18))\<rparr>)"

text \<open>The length of the message is cut to 16 bits; the message is written whole.\<close>

definition TCPErrorFrame_serialize :: "endian \<Rightarrow> TCPErrorFrame \<Rightarrow> bytes" where
  "TCPErrorFrame_serialize e f =
     [error_type f] @ error_connection_id f @ put_be16 (htons e (error_code f))
       @ put_be16 (htons e (of_nat (length (error_message f)))) @ error_message f"

definition TCPErrorFrame_deserialize :: "endian \<Rightarrow> bytes \<Rightarrow> TCPErrorFrame result" where
  "TCPErrorFrame_deserialize e data =
    (if length data < 21 then Inl (Runtime_error ''TCPErrorFrame: buffer too small'')
     else if data ! 0 \<noteq> TCP_ERROR then Inl (Runtime_error ''TCPErrorFrame: invalid frame type'')
     else let msg_length = htons e (get_be16 (data ! 19) (data ! 20))
          in if length data < 21 + unat msg_length
             then Inl (Runtime_error ''TCPErrorFrame: incomplete message'')
             else bind_result (read_range data 21 (unat msg_length)) (\<lambda>message.
               Inr \<lparr>error_type = data ! 0, error_connection_id = take 16 (drop 1 data),
                    error_code = htons e (get_be16 (data ! 17) (data ! 18)),
                    error_message = message\<rparr>))"

definition TCPAckFrame_serialize :: "endian \<Rightarrow> TCPAckFrame \<Rightarrow> bytes" where
  "TCPAckFrame_serialize e f =
     [ack_type f] @ ack_connection_id f @ put_be32 (htonl e (ack_ack_sequence_number f))
       @ put_be32 (htonl e (ack_window_size f))"

definition TCPAckFrame_deserialize :: "endian \<Rightarrow> bytes \<Rightarrow> TCPAckFrame result" where
  "TCPAckFrame_deserialize e data =
    (if length data < 25 then Inl (Runtime_error ''TCPAckFrame: buffer too small'')
     else if data ! 0 \<noteq> TCP_ACK then Inl (Runtime_error ''TCPAckFrame: invalid frame type'')
     else Inr \<lparr>ack_type = data ! 0, ack_connection_id = take 16 (drop 1 data),
               ack_ack_sequence_number =
                 htonl e (get_be32 (data ! 17) (data ! 18) (data ! 19) (data ! 20)),
               ack_window_size =
                 htonl e (get_be32 (data ! 21) (data ! 22) (data ! 23) (data ! 24))\<rparr>)"

section \<open>Helper functions\<close>

definition get_frame_type :: "bytes \<Rightarrow> TCPFrameType result" where
  "get_frame_type data = (if length data < 1
     then Inl (Runtime_error ''Buffer too small to read frame type'') else Inr (data ! 0))"

text \<open>The two draws of the random generator are the arguments \<open>high\<close> and \<open>low\<close>.\<close>

definition mem64 :: "endian \<Rightarrow> u64 \<Rightarrow> bytes" where
  "mem64 e x =
    (let be = put_be32 (ucast (drop_bit 32 x)) @ put_be32 (ucast x)
     in case e of BigEndian \<Rightarrow> be | LittleEndian \<Rightarrow> rev be)"

definition generate_connection_id :: "endian \<Rightarrow> u64 \<Rightarrow> u64 \<Rightarrow> bytes" where
  "generate_connection_id e high low = mem64 e high @ mem64 e low"

definition connection_id_to_string :: "bytes \<Rightarrow> string" where
  "connection_id_to_string cid = concat (map (\<lambda>i. hex2 (cid ! i) @
     (if i = 3 \<or> i = 5 \<or> i = 7 \<or> i = 9 then ''-'' else [])) [0..<16])"

text \<open>Two characters at a time; \<open>std::stoi\<close> may throw.\<close>

fun hex_pairs :: "string \<Rightarrow> bytes result" where
  "hex_pairs (a # b # s) = bind_result (stoi 16 [a, b]) (\<lambda>v.
     bind_result (hex_pairs s) (\<lambda>bs. Inr (word_of_int v # bs)))"
| "hex_pairs _ = Inr []"

definition string_to_connection_id :: "string \<Rightarrow> bytes result" where
  "string_to_connection_id str =
    (let cleaned = [c \<leftarrow> str. c \<noteq> CHR ''-'']
     in if length cleaned \<noteq> 32 then Inl (Runtime_error ''Invalid connection ID string format'')
        else hex_pairs cleaned)"

section \<open>Well-formed frames and the shape of their bytes\<close>

definition TCPOpenFrame_valid :: "TCPOpenFrame \<Rightarrow> bool" where
  "TCPOpenFrame_valid f \<longleftrightarrow> open_type f = TCP_OPEN \<and> length (open_connection_id f) = 16"

definition TCPDataFrame_valid :: "TCPDataFrame \<Rightarrow> bool" where
  "TCPDataFrame_valid f \<longleftrightarrow> data_type f = TCP_DATA \<and> length (data_connection_id f) = 16
     \<and> length (data_data f) + 25 < 2 ^ 32"

definition TCPCloseFrame_valid :: "TCPCloseFrame \<Rightarrow> bool" where
  "TCPCloseFrame_valid f \<longleftrightarrow> close_type f = TCP_CLOSE \<and> length (close_connection_id f) = 16"

definition TCPErrorFrame_valid :: "TCPErrorFrame \<Rightarrow> bool" where
  "TCPErrorFrame_valid f \<longleftrightarrow> error_type f = TCP_ERROR \<and> length (error_connection_id f) = 16
     \<and> length (error_message f) < 2 ^ 16"

definition TCPAckFrame_valid :: "TCPAckFrame \<Rightarrow> bool" where
  "TCPAckFrame_valid f \<longleftrightarrow> ack_type f = TCP_ACK \<and> length (ack_connection_id f) = 16"

lemmas frame_valid_defs = TCPOpenFrame_valid_def TCPDataFrame_valid_def TCPCloseFrame_valid_def
  TCPErrorFrame_valid_def TCPAckFrame_valid_def

lemmas frame_serialize_defs = TCPOpenFrame_serialize_def TCPDataFrame_serialize_def
  TCPCloseFrame_serialize_def TCPErrorFrame_serialize_def TCPAckFrame_serialize_def

text \<open>Every frame is a type byte, 16 bytes of id and a tail: the fields of the tail by offset.\<close>

lemma nth_after_id [byte_simps]:
  assumes "length cid = 16"
  shows "(cid @ xs) ! 16 = xs ! 0" "(cid @ xs) ! 17 = xs ! 1"
    "(cid @ xs) ! 18 = xs ! 2" "(cid @ xs) ! 19 = xs ! 3"
    "(cid @ xs) ! 20 = xs ! 4" "(cid @ xs) ! 21 = xs ! 5"
    "(cid @ xs) ! 22 = xs ! 6" "(cid @ xs) ! 23 = xs ! 7"
  using assms by (simp_all add: nth_append)

lemma nth_put_be32_append [byte_simps]:
  "(put_be32 x @ xs) ! 0 = put_be32 x ! 0" "(put_be32 x @ xs) ! Suc 0 = put_be32 x ! 1"
  "(put_be32 x @ xs) ! 2 = put_be32 x ! 2" "(put_be32 x @ xs) ! 3 = put_be32 x ! 3"
  "(put_be32 x @ xs) ! 4 = xs ! 0" "(put_be32 x @ xs) ! 5 = xs ! 1"
  "(put_be32 x @ xs) ! 6 = xs ! 2" "(put_be32 x @ xs) ! 7 = xs ! 3"
  by (simp_all add: nth_append)

lemma nth_put_be16_append [byte_simps]:
  "(put_be16 x @ xs) ! 0 = put_be16 x ! 0" "(put_be16 x @ xs) ! Suc 0 = put_be16 x ! 1"
  "(put_be16 x @ xs) ! 2 = xs ! 0" "(put_be16 x @ xs) ! 3 = xs ! 1"
  by (simp_all add: nth_append)

lemma read_range_after_id [byte_simps]:
  assumes "length cid = 16"
  shows "length h = 2 \<Longrightarrow> length h' = 2 \<Longrightarrow> read_range (t # cid @ h @ h' @ m @ xs) 21 (length m) = Inr m"
    and "length h = 4 \<Longrightarrow> length h' = 4 \<Longrightarrow> read_range (t # cid @ h @ h' @ m @ xs) 25 (length m) = Inr m"
  using assms by (simp_all add: read_range_def)

lemma length_serialize [simp]:
  "TCPOpenFrame_valid o' \<Longrightarrow> length (TCPOpenFrame_serialize e o') = 19"
  "TCPDataFrame_valid d \<Longrightarrow> length (TCPDataFrame_serialize d) = 25 + length (data_data d)"
  "TCPCloseFrame_valid c \<Longrightarrow> length (TCPCloseFrame_serialize e c) = 19"
  "TCPErrorFrame_valid r \<Longrightarrow> length (TCPErrorFrame_serialize e r) = 21 + length (error_message r)"
  "TCPAckFrame_valid a \<Longrightarrow> length (TCPAckFrame_serialize e a) = 25"
  by (simp_all add: frame_serialize_defs frame_valid_defs)

lemma tcp_types_distinct [simp]:
  "TCP_OPEN \<noteq> TCP_DATA" "TCP_OPEN \<noteq> TCP_CLOSE" "TCP_OPEN \<noteq> TCP_ERROR" "TCP_OPEN \<noteq> TCP_ACK"
  "TCP_DATA \<noteq> TCP_OPEN" "TCP_DATA \<noteq> TCP_CLOSE" "TCP_DATA \<noteq> TCP_ERROR" "TCP_DATA \<noteq> TCP_ACK"
  "TCP_CLOSE \<noteq> TCP_OPEN" "TCP_CLOSE \<noteq> TCP_DATA" "TCP_CLOSE \<noteq> TCP_ERROR" "TCP_CLOSE \<noteq> TCP_ACK"
  "TCP_ERROR \<noteq> TCP_OPEN" "TCP_ERROR \<noteq> TCP_DATA" "TCP_ERROR \<noteq> TCP_CLOSE" "TCP_ERROR \<noteq> TCP_ACK"
  "TCP_ACK \<noteq> TCP_OPEN" "TCP_ACK \<noteq> TCP_DATA" "TCP_ACK \<noteq> TCP_CLOSE" "TCP_ACK \<noteq> TCP_ERROR"
  by (simp_all add: TCPFrameType_defs)

lemma unat_25_plus: "n \<le> 65536 \<Longrightarrow> unat (25 + of_nat n :: u32) = 25 + n"
  using unat_of_nat [of "25 + n", where 'a = 32] by (simp add: take_bit_nat_eq_self)

lemma of_nat_le_65536: "n \<le> 65536 \<Longrightarrow> \<not> (of_nat n :: u32) > 65536"
  by (simp add: word_less_nat_alt unat_of_nat take_bit_nat_eq_self)

lemma unat_of_length: "length xs < 2 ^ LENGTH('a) \<Longrightarrow> unat (of_nat (length xs) :: 'a::len word) = length xs"
  by (simp add: unat_of_nat take_bit_nat_eq_self)

section \<open>Round trips\<close>

interpretation open_codec: frame_codec "TCPOpenFrame_serialize e" "TCPOpenFrame_deserialize e"
  TCPOpenFrame_valid for e
  by (unfold_locales, rename_tac f rest, case_tac f)
    (simp add: TCPOpenFrame_serialize_def TCPOpenFrame_deserialize_def TCPOpenFrame_valid_def byte_simps)

interpretation close_codec: frame_codec "TCPCloseFrame_serialize e" "TCPCloseFrame_deserialize e"
  TCPCloseFrame_valid for e
  by (unfold_locales, rename_tac f rest, case_tac f)
    (simp add: TCPCloseFrame_serialize_def TCPCloseFrame_deserialize_def TCPCloseFrame_valid_def byte_simps)

interpretation ack_codec: frame_codec "TCPAckFrame_serialize e" "TCPAckFrame_deserialize e"
  TCPAckFrame_valid for e
  by (unfold_locales, rename_tac f rest, case_tac f)
    (simp add: TCPAckFrame_serialize_def TCPAckFrame_deserialize_def TCPAckFrame_valid_def byte_simps)

interpretation error_codec: frame_codec "TCPErrorFrame_serialize e" "TCPErrorFrame_deserialize e"
  TCPErrorFrame_valid for e
  by (unfold_locales, rename_tac f rest, case_tac f)
    (simp add: TCPErrorFrame_serialize_def TCPErrorFrame_deserialize_def TCPErrorFrame_valid_def
      byte_simps Let_def unat_of_length)

section \<open>The data frame\<close>

text \<open>
  The writer puts the sequence number and the length in network order; the reader combines the
  bytes in network order and then applies \<open>ntohl\<close>. The two agree on a big-endian host only.
\<close>

interpretation data_codec: frame_codec TCPDataFrame_serialize "TCPDataFrame_deserialize BigEndian"
  TCPDataFrame_valid
proof (unfold_locales, rename_tac f rest)
  fix f rest assume valid: "TCPDataFrame_valid f"
  then have len: "unat (of_nat (length (data_data f)) :: u32) = length (data_data f)"
    "unat (25 + of_nat (length (data_data f)) :: u32) = 25 + length (data_data f)"
    using unat_of_nat [of "25 + length (data_data f)", where 'a = 32]
    by (simp_all add: unat_of_length TCPDataFrame_valid_def take_bit_nat_eq_self)
  show "TCPDataFrame_deserialize BigEndian (TCPDataFrame_serialize f @ rest) = Inr f"
    using valid len by (cases f) (simp add: TCPDataFrame_serialize_def TCPDataFrame_deserialize_def
        TCPDataFrame_valid_def htonl_def byte_simps Let_def)
qed

lemma unat_u8_less: "unat (b :: u8) < 256"
  using unsigned_less [of b] by simp

lemma put_be32_small:
  assumes "n < 2 ^ 16"
  obtains c d where "put_be32 (of_nat n) = [0, 0, c, d]" and "n = 2 ^ 8 * unat c + unat d"
proof -
  obtain a b c d where x: "(of_nat n :: u32) = get_be32 a b c d" using get_be32_cases by blast
  then have p: "put_be32 (of_nat n) = [a, b, c, d]" by (simp only: put_get_be32)
  have "2 ^ 24 * unat a + 2 ^ 16 * unat b + 2 ^ 8 * unat c + unat d = n"
    using assms arg_cong [OF x, of unat] by (simp add: unat_get_be32 unat_of_nat take_bit_nat_eq_self)
  with assms have "unat a = 0 \<and> unat b = 0 \<and> n = 2 ^ 8 * unat c + unat d" by auto
  then have "unat a = 0" "unat b = 0" and n: "n = 2 ^ 8 * unat c + unat d" by blast+
  from this(1,2) have "put_be32 (of_nat n) = [0, 0, c, d]" unfolding p by (simp add: unsigned_eq_0_iff)
  with n that show ?thesis by blast
qed

lemma bswap32_of_small:
  assumes "0 < n" "n < 2 ^ 16"
  shows "2 ^ 16 \<le> unat (bswap32 (of_nat n))" "unat (bswap32 (of_nat n)) \<le> 2 ^ 32 - 2 ^ 16"
proof -
  obtain c d where p: "put_be32 (of_nat n) = [0, 0, c, d]" and n: "n = 2 ^ 8 * unat c + unat d"
    using put_be32_small assms(2) by blast
  have b: "unat (bswap32 (of_nat n)) = 2 ^ 24 * unat d + 2 ^ 16 * unat c"
    by (simp add: bswap32_def p unat_get_be32)
  have "unat c < 256" "unat d < 256" by (rule unat_u8_less)+
  with assms(1) n b show "2 ^ 16 \<le> unat (bswap32 (of_nat n))"
    "unat (bswap32 (of_nat n)) \<le> 2 ^ 32 - 2 ^ 16" by auto
qed

section \<open>Connection ids as text\<close>

lemma digit_char_sign:
  assumes "n < 16"
  shows "digit_char n \<noteq> CHR ''-''" "digit_char n \<noteq> CHR ''+''"
  using digit_char_neq [OF assms, of "CHR ''-''"] digit_char_neq [OF assms, of "CHR ''+''"]
  by (simp_all add: digit_val_def)

lemma hex2_digits: "unat (b :: u8) div 16 < 16" "unat b mod 16 < 16"
  using unat_u8_less [of b] by simp_all

lemma stoi_hex2: "stoi 16 (hex2 b) = Inr (int (unat b))"
proof -
  note d = hex2_digits [of b]
  have "digits_value 16 (hex2 b) = unat b"
    using d by (simp add: digits_value_def hex2_def)
  moreover have "0 \<le> uint b" "uint b < 256" using unsigned_less [of b, where 'a = int] by simp_all
  then have "\<not> uint b < - 2147483648" "\<not> 2147483648 \<le> uint b" by linarith+
  ultimately show ?thesis
    using d digit_char_sign [OF d(1)] unat_u8_less [of b]
    by (simp add: stoi_def hex2_def skip_0x_def Let_def)
qed

lemma hex2_no_dash: "[c \<leftarrow> hex2 b. c \<noteq> CHR ''-''] = hex2 b"
  using digit_char_sign(1) [OF hex2_digits(1) [of b]] digit_char_sign(1) [OF hex2_digits(2) [of b]]
  by (simp add: hex2_def)

lemma hex_pairs_hex2: "hex_pairs (concat (map hex2 bs)) = Inr bs"
proof (induction bs)
  case (Cons b bs)
  have "stoi 16 [digit_char (unat b div 16), digit_char (unat b mod 16)] = Inr (int (unat b))"
    using stoi_hex2 [of b] by (simp add: hex2_def)
  with Cons show ?case by (simp add: hex2_def)
qed simp

lemma filter_concat_map: "filter P (concat (map f xs)) = concat (map (\<lambda>x. filter P (f x)) xs)"
  by (induction xs) simp_all

lemma connection_id_cleaned:
  assumes "length cid = 16"
  shows "[c \<leftarrow> connection_id_to_string cid. c \<noteq> CHR ''-''] = concat (map hex2 cid)"
proof -
  have "[c \<leftarrow> connection_id_to_string cid. c \<noteq> CHR ''-''] = concat (map (\<lambda>i. hex2 (cid ! i)) [0..<16])"
    unfolding connection_id_to_string_def filter_concat_map
    by (rule arg_cong [where f = concat], rule map_cong) (simp_all add: hex2_no_dash)
  also have "map (\<lambda>i. hex2 (cid ! i)) [0..<16] = map hex2 cid"
    by (rule nth_equalityI) (simp_all add: assms)
  finally show ?thesis .
qed

lemma length_concat_hex2: "length (concat (map hex2 bs)) = 2 * length bs"
  by (induction bs) (simp_all add: hex2_def)

lemma string_to_connection_id_of:
  "length c = 16 \<Longrightarrow> string_to_connection_id (connection_id_to_string c) = Inr c"
  by (simp add: string_to_connection_id_def connection_id_cleaned hex_pairs_hex2 length_concat_hex2 Let_def)

lemma length_connection_id_to_string: "length (connection_id_to_string cid) = 36"
  by (simp add: connection_id_to_string_def hex2_def upt_rec)

section \<open>Properties\<close>

text \<open>
  C10. A frame of any of the five types is recovered by its reader from its bytes, whatever
  follows them in the buffer: open, close, error and acknowledgement on both byte orders, data on
  a big-endian host.
\<close>

theorem tcp_frames_round_trip:
  assumes "TCPOpenFrame_valid fo" "TCPDataFrame_valid fd" "TCPCloseFrame_valid fc"
    "TCPErrorFrame_valid fe" "TCPAckFrame_valid fa"
  shows "TCPOpenFrame_deserialize e (TCPOpenFrame_serialize e fo @ rest) = Inr fo
    \<and> TCPDataFrame_deserialize BigEndian (TCPDataFrame_serialize fd @ rest) = Inr fd
    \<and> TCPCloseFrame_deserialize e (TCPCloseFrame_serialize e fc @ rest) = Inr fc
    \<and> TCPErrorFrame_deserialize e (TCPErrorFrame_serialize e fe @ rest) = Inr fe
    \<and> TCPAckFrame_deserialize e (TCPAckFrame_serialize e fa @ rest) = Inr fa"
  using assms by (simp_all add: open_codec.decode_encode data_codec.decode_encode
      close_codec.decode_encode error_codec.decode_encode ack_codec.decode_encode)

text \<open>
  On a little-endian host a non-empty data frame of less than 64 KiB is rejected by the reader
  of the same program as incomplete: \<open>serialize\<close> writes the length in network order, \<open>deserialize\<close>
  swaps it once more.
\<close>

theorem TCPDataFrame_little_endian_rejected:
  assumes "TCPDataFrame_valid f" "data_data f \<noteq> []" "length (data_data f) < 2 ^ 16"
  shows "TCPDataFrame_deserialize LittleEndian (TCPDataFrame_serialize f)
    = Inl (Runtime_error ''TCPDataFrame: incomplete data'')"
proof -
  let ?n = "length (data_data f)"
  let ?l = "bswap32 (of_nat ?n) :: u32"
  have "2 ^ 16 \<le> unat ?l" "unat ?l \<le> 2 ^ 32 - 2 ^ 16"
    using bswap32_of_small [of ?n] assms(2,3) by simp_all
  then have "unat (25 + ?l) = 25 + unat ?l"
    by (subst unat_add_lem [THEN iffD1]) simp_all
  with \<open>2 ^ 16 \<le> unat ?l\<close> assms(3) have "length (TCPDataFrame_serialize f) < unat (25 + ?l)"
    using assms(1) by simp
  then show ?thesis
    using assms(1) by (simp add: TCPDataFrame_deserialize_def TCPDataFrame_valid_def
        TCPDataFrame_serialize_def htonl_def byte_simps Let_def)
qed

text \<open>
  Where the data reader stops being memory safe: for a buffer that starts with a data frame
  header it reads past the end exactly when the announced length is within 25 of the top of
  \<open>uint32_t\<close>, so that the bound \<open>25 + data_length\<close> wraps to at most the buffer's size. Below
  that it either rejects the frame or returns the announced number of bytes from the buffer.
\<close>

theorem TCPDataFrame_deserialize_bounds:
  assumes "25 \<le> length data" "data ! 0 = TCP_DATA" "length data < 2 ^ 32"
    and "dl = unat (htonl e (get_be32 (data ! 21) (data ! 22) (data ! 23) (data ! 24)))"
  shows "(TCPDataFrame_deserialize e data = Inl Out_of_bounds \<longleftrightarrow>
            2 ^ 32 \<le> 25 + dl \<and> 25 + dl - 2 ^ 32 \<le> length data)
    \<and> (\<forall>f. TCPDataFrame_deserialize e data = Inr f \<longrightarrow>
            25 + dl \<le> length data \<and> data_data f = take dl (drop 25 data))"
proof -
  let ?l = "htonl e (get_be32 (data ! 21) (data ! 22) (data ! 23) (data ! 24))"
  have dl: "unat ?l = dl" "dl < 2 ^ 32" using assms(4) unsigned_less [of ?l, where 'a = nat] by simp_all
  have wrap: "unat (25 + ?l) = (if 2 ^ 32 \<le> 25 + dl then 25 + dl - 2 ^ 32 else 25 + dl)"
    using dl by (simp add: unat_word_ariths mod_if)
  show ?thesis
    using assms(1-3) dl wrap
    by (auto simp: TCPDataFrame_deserialize_def Let_def read_range_def split: if_splits)
qed

text \<open>
  Parsing the printed form of a connection id gives the id back; the printed form has the 36
  characters of a UUID, so two ids are printed alike only if they are equal.
\<close>

theorem connection_id_string_round_trip:
  assumes "length cid = 16"
  shows "string_to_connection_id (connection_id_to_string cid) = Inr cid
    \<and> length (connection_id_to_string cid) = 36
    \<and> (length cid' = 16 \<longrightarrow> connection_id_to_string cid' = connection_id_to_string cid \<longrightarrow> cid' = cid)"
proof -
  show ?thesis
    using assms length_connection_id_to_string string_to_connection_id_of by (metis sum.inject(2))
qed

section \<open>Witnesses\<close>

definition sample_id :: bytes where
  "sample_id = [1, 2, 3, 4, 5, 6, 7, 8, 9, 10, 11, 12, 13, 14, 15, 16]"

definition sample_data_frame :: TCPDataFrame where
  "sample_data_frame = \<lparr>data_type = TCP_DATA, data_connection_id = sample_id,
     data_sequence_number = 5, data_data = [72, 105]\<rparr>"

lemma tcp_frames_round_trip_witness:
  "TCPOpenFrame_deserialize LittleEndian (TCPOpenFrame_serialize LittleEndian
      \<lparr>open_type = TCP_OPEN, open_connection_id = sample_id, open_target_port = 9100\<rparr> @ [0x11])
    = Inr \<lparr>open_type = TCP_OPEN, open_connection_id = sample_id, open_target_port = 9100\<rparr>"
  using tcp_frames_round_trip
    [of "\<lparr>open_type = TCP_OPEN, open_connection_id = sample_id, open_target_port = 9100\<rparr>"
      sample_data_frame
      "\<lparr>close_type = TCP_CLOSE, close_connection_id = sample_id, close_reason = 1\<rparr>"
      "\<lparr>error_type = TCP_ERROR, error_connection_id = sample_id, error_code = 3, error_message = [33]\<rparr>"
      "\<lparr>ack_type = TCP_ACK, ack_connection_id = sample_id, ack_ack_sequence_number = 2,
        ack_window_size = 512\<rparr>" LittleEndian "[0x11]"]
  by (simp add: frame_valid_defs sample_data_frame_def sample_id_def)

lemma TCPDataFrame_little_endian_rejected_witness:
  "TCPDataFrame_deserialize LittleEndian (TCPDataFrame_serialize sample_data_frame)
    = Inl (Runtime_error ''TCPDataFrame: incomplete data'')"
  using TCPDataFrame_little_endian_rejected [of sample_data_frame]
  by (simp add: frame_valid_defs sample_data_frame_def sample_id_def)

lemma TCPDataFrame_deserialize_bounds_witness:
  "TCPDataFrame_deserialize BigEndian
     (TCP_DATA # sample_id @ [0, 0, 0, 0] @ [0xFF, 0xFF, 0xFF, 0xFF]) = Inl Out_of_bounds"
  using TCPDataFrame_deserialize_bounds
    [of "TCP_DATA # sample_id @ [0, 0, 0, 0] @ [0xFF, 0xFF, 0xFF, 0xFF]" _ BigEndian]
  by (simp add: sample_id_def htonl_def unat_get_be32)

lemma connection_id_string_round_trip_witness:
  "string_to_connection_id (connection_id_to_string sample_id) = Inr sample_id"
  using connection_id_string_round_trip [of sample_id sample_id] by (simp add: sample_id_def)

end
