(* ===== verification/Tcp_Forwarder.thy ===== *)
theory Tcp_Forwarder
  imports Tcp_Protocol
begin

text \<open>
  \<open>tunnel-agent/src/forwarder/tcp_forwarder.{h,cpp}\<close>: the agent's end of the raw TCP tunnel. It
  opens a local connection for every \<open>TCP_OPEN\<close> and carries bytes both ways. Asynchronous
  operations are split at their completion: the call appends an action, the completion handler is
  an operation of its own that takes the outcome. \<open>shared_ptr\<close> is a handle into a store of all
  connection objects; an object is alive while the map or a handler in flight owns it.
\<close>

section \<open>State\<close>

record TCPConnection =
  tc_connection_id :: bytes
  tc_socket_open :: bool
  tc_sequence_number :: u32
  tc_closing :: bool
  tc_connected :: bool
  tc_pending_data :: "bytes list"

datatype fw_action =
  Resolve nat string u16
| Connect nat
| Local_read nat
| Local_write nat bytes
| Local_close nat
| Send_frame bytes

record TCPForwarder =
  fw_target_host :: string
  fw_target_port :: u16
  fw_connections :: "(bytes, nat) umap"
  fw_send_callback :: bool
  fw_objects :: "TCPConnection list"
  fw_in_flight :: "nat list"
  fw_actions :: "fw_action list"

definition TCPForwarder_new :: "string \<Rightarrow> u16 \<Rightarrow> TCPForwarder" where
  "TCPForwarder_new host port = \<lparr>fw_target_host = host, fw_target_port = port,
     fw_connections = [], fw_send_callback = False, fw_objects = [], fw_in_flight = [],
     fw_actions = []\<rparr>"

definition fw_set_send_callback :: "TCPForwarder \<Rightarrow> TCPForwarder" where
  "fw_set_send_callback s = s\<lparr>fw_send_callback := True\<rparr>"

definition fw_act :: "fw_action \<Rightarrow> TCPForwarder \<Rightarrow> TCPForwarder" where
  "fw_act a s = s\<lparr>fw_actions := fw_actions s @ [a]\<rparr>"

definition fw_alive :: "TCPForwarder \<Rightarrow> nat \<Rightarrow> bool" where
  "fw_alive s h \<longleftrightarrow> h \<in> set (map snd (fw_connections s)) \<or> h \<in> set (fw_in_flight s)"

definition fw_set_object :: "nat \<Rightarrow> (TCPConnection \<Rightarrow> TCPConnection) \<Rightarrow> TCPForwarder \<Rightarrow> TCPForwarder" where
  "fw_set_object h f s = s\<lparr>fw_objects := (fw_objects s)[h := f (fw_objects s ! h)]\<rparr>"

section \<open>Frames to the server\<close>

definition tcp_data_frame_bytes :: "endian \<Rightarrow> bytes \<Rightarrow> bytes \<Rightarrow> u32 \<Rightarrow> bytes" where
  "tcp_data_frame_bytes e connection_id data sequence_number =
     [TCP_DATA] @ connection_id @ mem32 e (htonl e sequence_number)
       @ mem32 e (htonl e (of_nat (length data))) @ data"

definition tcp_close_frame_bytes :: "endian \<Rightarrow> bytes \<Rightarrow> u16 \<Rightarrow> bytes" where
  "tcp_close_frame_bytes e connection_id reason_code =
     [TCP_CLOSE] @ connection_id @ mem16 e (htons e reason_code)"

definition send_tcp_data_frame :: "endian \<Rightarrow> bytes \<Rightarrow> bytes \<Rightarrow> u32 \<Rightarrow> TCPForwarder \<Rightarrow> TCPForwarder" where
  "send_tcp_data_frame e cid data sn s =
     (if \<not> fw_send_callback s then s
      else fw_act (Send_frame (tcp_data_frame_bytes e cid data sn)) s)"

definition send_tcp_close_frame :: "endian \<Rightarrow> bytes \<Rightarrow> u16 \<Rightarrow> TCPForwarder \<Rightarrow> TCPForwarder" where
  "send_tcp_close_frame e cid reason s =
     (if \<not> fw_send_callback s then s
      else fw_act (Send_frame (tcp_close_frame_bytes e cid reason)) s)"

section \<open>Operations\<close>

definition handle_tcp_open :: "bytes \<Rightarrow> u16 \<Rightarrow> TCPForwarder \<Rightarrow> TCPForwarder" where
  "handle_tcp_open cid target_port s =
    (let h = length (fw_objects s);
         conn = \<lparr>tc_connection_id = cid, tc_socket_open = True, tc_sequence_number = 0,
                 tc_closing = False, tc_connected = False, tc_pending_data = []\<rparr>;
         port = (if 0 < target_port then target_port else fw_target_port s)
     in fw_act (Resolve h (fw_target_host s) port)
          (s\<lparr>fw_connections := AList.update cid h (fw_connections s),
             fw_objects := fw_objects s @ [conn],
             fw_in_flight := fw_in_flight s @ [h]\<rparr>))"

text \<open>The completion handler of \<open>async_resolve\<close>: on an error the object is only released.\<close>

definition on_resolved :: "endian \<Rightarrow> nat \<Rightarrow> bytes \<Rightarrow> bool \<Rightarrow> TCPForwarder \<Rightarrow> TCPForwarder" where
  "on_resolved e h cid ok s =
    (if \<not> ok then send_tcp_close_frame e cid 1 (s\<lparr>fw_in_flight := removeAll h (fw_in_flight s)\<rparr>)
     else fw_act (Connect h) s)"

definition start_local_read :: "nat \<Rightarrow> TCPForwarder \<Rightarrow> TCPForwarder" where
  "start_local_read h s =
     (if \<not> tc_socket_open (fw_objects s ! h) then s else fw_act (Local_read h) s)"

text \<open>The completion handler of \<open>async_connect\<close>.\<close>

definition on_connected :: "endian \<Rightarrow> nat \<Rightarrow> bytes \<Rightarrow> bool \<Rightarrow> TCPForwarder \<Rightarrow> TCPForwarder" where
  "on_connected e h cid ok s0 =
    (let s = s0\<lparr>fw_in_flight := removeAll h (fw_in_flight s0)\<rparr>
     in if \<not> ok then send_tcp_close_frame e cid 1 s
        else let s1 = fw_set_object h (\<lambda>c. c\<lparr>tc_connected := True\<rparr>) s;
                 s2 = s1\<lparr>fw_actions := fw_actions s1
                         @ map (Local_write h) (tc_pending_data (fw_objects s1 ! h))\<rparr>;
                 s3 = fw_set_object h (\<lambda>c. c\<lparr>tc_pending_data := []\<rparr>) s2
             in start_local_read h s3)"

definition handle_tcp_data :: "bytes \<Rightarrow> bytes \<Rightarrow> TCPForwarder \<Rightarrow> TCPForwarder" where
  "handle_tcp_data cid data s =
    (case map_of (fw_connections s) cid of
       None \<Rightarrow> s
     | Some h \<Rightarrow>
         if \<not> tc_connected (fw_objects s ! h)
         then fw_set_object h (\<lambda>c. c\<lparr>tc_pending_data := tc_pending_data c @ [data]\<rparr>) s
         else fw_act (Local_write h data) s)"

definition close_connection :: "bytes \<Rightarrow> TCPForwarder \<Rightarrow> TCPForwarder" where
  "close_connection cid s =
    (case map_of (fw_connections s) cid of
       None \<Rightarrow> s
     | Some h \<Rightarrow>
         let s1 = (if tc_socket_open (fw_objects s ! h)
                   then fw_act (Local_close h) (fw_set_object h (\<lambda>c. c\<lparr>tc_socket_open := False\<rparr>) s)
                   else s)
         in s1\<lparr>fw_connections := AList.delete cid (fw_connections s1)\<rparr>)"

text \<open>The completion handler of \<open>async_write\<close> in \<open>handle_tcp_data\<close>.\<close>

definition on_local_written :: "nat \<Rightarrow> bytes \<Rightarrow> bool \<Rightarrow> TCPForwarder \<Rightarrow> TCPForwarder" where
  "on_local_written h cid ok s =
     (if \<not> fw_alive s h then s else if \<not> ok then close_connection cid s else s)"

definition handle_tcp_close :: "bytes \<Rightarrow> TCPForwarder \<Rightarrow> TCPForwarder" where
  "handle_tcp_close cid s = close_connection cid s"

definition handle_tcp_error :: "bytes \<Rightarrow> u16 \<Rightarrow> string \<Rightarrow> TCPForwarder \<Rightarrow> TCPForwarder" where
  "handle_tcp_error cid code message s = close_connection cid s"

text \<open>
  The completion handler of \<open>async_read_some\<close>: \<open>None\<close> is an error or the end of the stream, which
  the code treats alike.
\<close>

definition on_local_read :: "endian \<Rightarrow> nat \<Rightarrow> bytes option \<Rightarrow> TCPForwarder \<Rightarrow> TCPForwarder" where
  "on_local_read e h r s =
    (if \<not> fw_alive s h then s
     else let conn = fw_objects s ! h in
       case r of
         None \<Rightarrow> close_connection (tc_connection_id conn)
                   (send_tcp_close_frame e (tc_connection_id conn) 0 s)
       | Some data \<Rightarrow>
           start_local_read h
             (send_tcp_data_frame e (tc_connection_id conn) data (tc_sequence_number conn)
               (fw_set_object h (\<lambda>c. c\<lparr>tc_sequence_number := tc_sequence_number c + 1\<rparr>) s)))"

text \<open>The destructor closes the socket of every connection of the map.\<close>

definition TCPForwarder_destroy :: "TCPForwarder \<Rightarrow> TCPForwarder" where
  "TCPForwarder_destroy s =
    (foldl (\<lambda>s h. if tc_socket_open (fw_objects s ! h)
                   then fw_act (Local_close h) (fw_set_object h (\<lambda>c. c\<lparr>tc_socket_open := False\<rparr>) s)
                   else s) s (map snd (fw_connections s)))\<lparr>fw_connections := []\<rparr>"

text \<open>The printed id puts the hyphen before the byte of index 4, 6, 8 and 10.\<close>

definition fw_connection_id_to_string :: "bytes \<Rightarrow> string" where
  "fw_connection_id_to_string cid = concat (map (\<lambda>i.
     (if i = 4 \<or> i = 6 \<or> i = 8 \<or> i = 10 then ''-'' else []) @ hex2 (cid ! i)) [0..<16])"

section \<open>The forwarder as a state machine\<close>

datatype fw_event =
  Ev_open bytes u16
| Ev_resolved nat bytes bool
| Ev_connected nat bytes bool
| Ev_data bytes bytes
| Ev_written nat bytes bool
| Ev_close bytes
| Ev_error bytes u16 string
| Ev_local_read nat "bytes option"

fun fw_step :: "endian \<Rightarrow> TCPForwarder \<Rightarrow> fw_event \<Rightarrow> TCPForwarder" where
  "fw_step e s (Ev_open cid port) = handle_tcp_open cid port s"
| "fw_step e s (Ev_resolved h cid ok) = on_resolved e h cid ok s"
| "fw_step e s (Ev_connected h cid ok) = on_connected e h cid ok s"
| "fw_step e s (Ev_data cid data) = handle_tcp_data cid data s"
| "fw_step e s (Ev_written h cid ok) = on_local_written h cid ok s"
| "fw_step e s (Ev_close cid) = handle_tcp_close cid s"
| "fw_step e s (Ev_error cid code message) = handle_tcp_error cid code message s"
| "fw_step e s (Ev_local_read h r) = on_local_read e h r s"

text \<open>Every entry of the map is a live object of that id.\<close>

definition fw_inv :: "TCPForwarder \<Rightarrow> bool" where
  "fw_inv s \<longleftrightarrow> umap_wf (fw_connections s)
     \<and> (\<forall>cid h. map_of (fw_connections s) cid = Some h
          \<longrightarrow> h < length (fw_objects s) \<and> tc_connection_id (fw_objects s ! h) = cid
            \<and> (tc_connected (fw_objects s ! h) \<longrightarrow> tc_pending_data (fw_objects s ! h) = []))"

section \<open>What the operations do to the map and the objects\<close>

named_theorems fw_simps \<open>the fields of the forwarder after an elementary operation\<close>

lemma fw_act_simps [simp]:
  "fw_connections (fw_act a s) = fw_connections s" "fw_objects (fw_act a s) = fw_objects s"
  "fw_in_flight (fw_act a s) = fw_in_flight s" "fw_actions (fw_act a s) = fw_actions s @ [a]"
  by (simp_all add: fw_act_def)

lemma fw_set_object_simps [simp]:
  "fw_connections (fw_set_object h f s) = fw_connections s"
  "fw_in_flight (fw_set_object h f s) = fw_in_flight s"
  "fw_actions (fw_set_object h f s) = fw_actions s"
  "length (fw_objects (fw_set_object h f s)) = length (fw_objects s)"
  by (simp_all add: fw_set_object_def)

lemma fw_objects_set_object [fw_simps]:
  "h' < length (fw_objects s) \<Longrightarrow>
     fw_objects (fw_set_object h f s) ! h' = (if h = h' then f (fw_objects s ! h') else fw_objects s ! h')"
  by (simp add: fw_set_object_def nth_list_update)

lemma send_frame_simps [simp]:
  "fw_connections (send_tcp_close_frame e cid r s) = fw_connections s"
  "fw_objects (send_tcp_close_frame e cid r s) = fw_objects s"
  "fw_connections (send_tcp_data_frame e cid d n s) = fw_connections s"
  "fw_objects (send_tcp_data_frame e cid d n s) = fw_objects s"
  by (simp_all add: send_tcp_close_frame_def send_tcp_data_frame_def)

lemma start_local_read_simps [simp]:
  "fw_connections (start_local_read h s) = fw_connections s"
  "fw_objects (start_local_read h s) = fw_objects s"
  by (simp_all add: start_local_read_def)

lemma fw_inv_lookup:
  "\<lbrakk>fw_inv s; map_of (fw_connections s) cid = Some h\<rbrakk>
     \<Longrightarrow> h < length (fw_objects s) \<and> tc_connection_id (fw_objects s ! h) = cid
       \<and> (tc_connected (fw_objects s ! h) \<longrightarrow> tc_pending_data (fw_objects s ! h) = [])"
  by (simp add: fw_inv_def)

text \<open>An invariant of the map and the objects does not depend on the other fields.\<close>

lemma fw_inv_cong:
  "\<lbrakk>fw_connections s' = fw_connections s; fw_objects s' = fw_objects s\<rbrakk> \<Longrightarrow> fw_inv s' = fw_inv s"
  by (simp add: fw_inv_def)

lemma fw_inv_irrelevant [simp]:
  "fw_inv (fw_act a s) = fw_inv s" "fw_inv (start_local_read h s) = fw_inv s"
  "fw_inv (send_tcp_close_frame e cid r s) = fw_inv s"
  "fw_inv (send_tcp_data_frame e cid d n s) = fw_inv s"
  "fw_inv (s\<lparr>fw_in_flight := hs\<rparr>) = fw_inv s"
  by (simp_all add: fw_inv_def)

lemma fw_inv_set_object:
  assumes "fw_inv s"
    and "\<And>cid. map_of (fw_connections s) cid = Some h \<Longrightarrow>
      tc_connection_id (f (fw_objects s ! h)) = tc_connection_id (fw_objects s ! h)
      \<and> (tc_connected (f (fw_objects s ! h)) \<longrightarrow> tc_pending_data (f (fw_objects s ! h)) = [])"
  shows "fw_inv (fw_set_object h f s)"
  using assms by (auto simp: fw_inv_def fw_objects_set_object)

lemma fw_inv_delete:
  "\<lbrakk>fw_inv s; m = fw_connections s\<rbrakk> \<Longrightarrow> fw_inv (s\<lparr>fw_connections := AList.delete cid m\<rparr>)"
  by (auto simp: fw_inv_def map_simps)

lemma fw_inv_open: "fw_inv s \<Longrightarrow> fw_inv (handle_tcp_open cid p s)"
  by (auto simp: handle_tcp_open_def fw_inv_def Let_def map_simps nth_append less_Suc_eq)

lemma fw_inv_data: "fw_inv s \<Longrightarrow> fw_inv (handle_tcp_data cid d s)"
  by (auto simp: handle_tcp_data_def split: option.splits
      intro!: fw_inv_set_object dest: fw_inv_lookup intro: fw_inv_cong [THEN iffD2, of _ s])

lemma fw_inv_close: "fw_inv s \<Longrightarrow> fw_inv (close_connection cid s)"
  by (auto simp: close_connection_def Let_def split: option.splits
      intro!: fw_inv_delete fw_inv_set_object) (auto simp: fw_inv_def)

lemma fw_connected_objects:
  assumes "h' < length (fw_objects s)"
  shows "fw_objects (on_connected e h cid True s) ! h'
    = (if h = h' then (fw_objects s ! h')\<lparr>tc_connected := True, tc_pending_data := []\<rparr>
       else fw_objects s ! h')"
  using assms by (simp add: on_connected_def fw_set_object_def Let_def nth_list_update)

lemma fw_connected_simps [simp]:
  "fw_connections (on_connected e h cid ok s) = fw_connections s"
  "length (fw_objects (on_connected e h cid ok s)) = length (fw_objects s)"
  by (simp_all add: on_connected_def Let_def)

lemma fw_inv_connected: "fw_inv s \<Longrightarrow> fw_inv (on_connected e h cid ok s)"
proof (cases ok)
  case True
  then show "fw_inv s \<Longrightarrow> ?thesis" by (auto simp: fw_inv_def fw_connected_objects)
qed (auto simp: fw_inv_def on_connected_def Let_def)

lemma fw_inv_local_read: "fw_inv s \<Longrightarrow> fw_inv (on_local_read e h r s)"
  by (auto simp: on_local_read_def Let_def split: option.splits
      intro!: fw_inv_close intro: fw_inv_cong [THEN iffD2] dest: fw_inv_lookup)
    (auto simp: fw_inv_def fw_objects_set_object)

lemma fw_inv_step: "fw_inv s \<Longrightarrow> fw_inv (fw_step e s ev)"
  by (cases ev) (auto intro: fw_inv_open fw_inv_data fw_inv_close fw_inv_connected fw_inv_local_read
      fw_inv_cong [THEN iffD2]
      simp: handle_tcp_close_def handle_tcp_error_def on_local_written_def on_resolved_def)

interpretation forwarder: step_machine "fw_step e" fw_inv for e
  by unfold_locales (rule fw_inv_step)

section \<open>Delivery to the local service\<close>

definition local_writes :: "nat \<Rightarrow> TCPForwarder \<Rightarrow> bytes list" where
  "local_writes h s = concat (map (\<lambda>a. case a of
     Local_write h' d \<Rightarrow> (if h' = h then [d] else []) | _ \<Rightarrow> []) (fw_actions s))"

text \<open>What has been accepted for an object: written to its socket, or waiting for it to connect.\<close>

definition accepted :: "nat \<Rightarrow> TCPForwarder \<Rightarrow> bytes list" where
  "accepted h s = local_writes h s @ tc_pending_data (fw_objects s ! h)"

fun event_data :: "bytes \<Rightarrow> fw_event \<Rightarrow> bytes list" where
  "event_data cid (Ev_data c d) = (if c = cid then [d] else [])"
| "event_data cid _ = []"

lemma local_writes_act [fw_simps]:
  "local_writes h (fw_act a s) =
     local_writes h s @ (case a of Local_write h' d \<Rightarrow> (if h' = h then [d] else []) | _ \<Rightarrow> [])"
  by (simp add: local_writes_def)

lemma local_writes_cong: "fw_actions s' = fw_actions s \<Longrightarrow> local_writes h s' = local_writes h s"
  by (simp add: local_writes_def)

lemma local_writes_frames [fw_simps]:
  "local_writes h (start_local_read h' s) = local_writes h s"
  "local_writes h (send_tcp_close_frame e cid r s) = local_writes h s"
  "local_writes h (send_tcp_data_frame e cid d n s) = local_writes h s"
  "local_writes h (fw_set_object h' f s) = local_writes h s"
  by (auto simp: start_local_read_def send_tcp_close_frame_def send_tcp_data_frame_def fw_simps
      intro: local_writes_cong)

lemma local_writes_update [fw_simps]:
  "local_writes h (s\<lparr>fw_in_flight := hs\<rparr>) = local_writes h s"
  "local_writes h (s\<lparr>fw_connections := m\<rparr>) = local_writes h s"
  by (simp_all add: local_writes_def)

lemma local_writes_flush:
  "as = fw_actions s \<Longrightarrow> local_writes h (s\<lparr>fw_actions := as @ map (Local_write h') ds\<rparr>)
     = local_writes h s @ (if h' = h then ds else [])"
  by (simp add: local_writes_def comp_def concat_map_singleton)

lemma accepted_connected:
  assumes "h < length (fw_objects s)"
  shows "accepted h (on_connected e h' cid ok s) = accepted h s"
proof (cases ok)
  case True
  then have "local_writes h (on_connected e h' cid ok s)
      = local_writes h s @ (if h' = h then tc_pending_data (fw_objects s ! h) else [])"
    using assms by (auto simp: on_connected_def Let_def fw_simps local_writes_flush)
  with True show ?thesis using assms by (simp add: accepted_def fw_connected_objects)
next
  case False
  then show ?thesis by (simp add: accepted_def on_connected_def Let_def fw_simps)
qed

lemma accepted_close:
  "h < length (fw_objects s) \<Longrightarrow> accepted h (close_connection cid s) = accepted h s"
  by (auto simp: accepted_def close_connection_def Let_def fw_simps split: option.splits)

lemma accepted_data:
  assumes "fw_inv s" "map_of (fw_connections s) cid = Some h"
  shows "accepted h (handle_tcp_data c d s) = accepted h s @ (if c = cid then [d] else [])"
proof -
  have look: "h < length (fw_objects s)" "tc_connection_id (fw_objects s ! h) = cid"
    "tc_connected (fw_objects s ! h) \<Longrightarrow> tc_pending_data (fw_objects s ! h) = []"
    using fw_inv_lookup [OF assms] by blast+
  show ?thesis
  proof (cases "c = cid")
    case True
    then show ?thesis using look assms(2) by (simp add: accepted_def handle_tcp_data_def fw_simps)
  next
    case False
    then have "h' \<noteq> h" if "map_of (fw_connections s) c = Some h'" for h'
      using fw_inv_lookup [OF assms(1) that] look(2) by blast
    with False show ?thesis using look(1)
      by (cases "map_of (fw_connections s) c") (simp_all add: accepted_def handle_tcp_data_def fw_simps)
  qed
qed

lemma accepted_local_read:
  "h < length (fw_objects s) \<Longrightarrow> accepted h (on_local_read e h' r s) = accepted h s"
  by (cases r) (auto simp: on_local_read_def Let_def accepted_close,
      auto simp: accepted_def fw_simps)

lemma accepted_step:
  assumes "fw_inv s" "map_of (fw_connections s) cid = Some h"
  shows "accepted h (fw_step e s ev) = accepted h s @ event_data cid ev"
proof -
  have h: "h < length (fw_objects s)" using fw_inv_lookup [OF assms] by simp
  then show ?thesis
  proof (cases ev)
    case (Ev_open c p)
    then show ?thesis using h
      by (simp add: handle_tcp_open_def accepted_def Let_def fw_simps nth_append)
        (simp add: local_writes_def)
  next
    case (Ev_resolved h' c ok)
    then show ?thesis by (auto simp: on_resolved_def accepted_def fw_simps)
  qed (use h assms in \<open>auto simp: accepted_connected accepted_close accepted_data accepted_local_read
      handle_tcp_close_def handle_tcp_error_def on_local_written_def\<close>)
qed

section \<open>Properties\<close>

lemma accepted_run:
  assumes "fw_inv s"
    and "\<forall>n \<le> length es. map_of (fw_connections (foldl (fw_step e) s (take n es))) cid = Some h"
  shows "accepted h (foldl (fw_step e) s es) = accepted h s @ concat (map (event_data cid) es)"
  using assms
proof (induction es rule: rev_induct)
  case (snoc ev es)
  let ?t = "foldl (fw_step e) s es"
  have "map_of (fw_connections ?t) cid = Some h"
    using snoc.prems(2) [THEN spec, of "length es"] by simp
  moreover have "accepted h ?t = accepted h s @ concat (map (event_data cid) es)"
  proof (rule snoc.IH [OF snoc.prems(1)], intro allI impI)
    fix n assume "n \<le> length es"
    then show "map_of (fw_connections (foldl (fw_step e) s (take n es))) cid = Some h"
      using snoc.prems(2) [THEN spec, of n] by simp
  qed
  ultimately show ?case
    using accepted_step [of ?t cid h e ev] forwarder.run_inv [OF snoc.prems(1)] by simp
qed simp


lemma data_not_connected:
  assumes "fw_inv s" "map_of (fw_connections s) cid = Some h" "\<not> tc_connected (fw_objects s ! h)"
  shows "fw_actions (foldl (\<lambda>s d. handle_tcp_data cid d s) s ds) = fw_actions s
    \<and> fw_in_flight (foldl (\<lambda>s d. handle_tcp_data cid d s) s ds) = fw_in_flight s
    \<and> map_of (fw_connections (foldl (\<lambda>s d. handle_tcp_data cid d s) s ds)) cid = Some h
    \<and> tc_pending_data (fw_objects (foldl (\<lambda>s d. handle_tcp_data cid d s) s ds) ! h)
        = tc_pending_data (fw_objects s ! h) @ ds"
  using assms
proof (induction ds arbitrary: s)
  case (Cons d ds)
  let ?t = "handle_tcp_data cid d s"
  have h: "h < length (fw_objects s)" using fw_inv_lookup Cons.prems(1,2) by blast
  have t: "?t = fw_set_object h (\<lambda>c. c\<lparr>tc_pending_data := tc_pending_data c @ [d]\<rparr>) s"
    using Cons.prems by (simp add: handle_tcp_data_def)
  show ?case
    using Cons.IH [of ?t] Cons.prems fw_inv_data [OF Cons.prems(1), of cid d] h
    by (simp add: t fw_objects_set_object)
qed simp

text \<open>
  After a failed connect the server is told that the connection is closed, but its entry stays
  in the agent's map: later data for it are queued in memory without bound, never written, and no
  handler that could connect the object is left.
\<close>

theorem failed_connect_strands_data:
  assumes "fw_inv s" "map_of (fw_connections s) cid = Some h" "\<not> tc_connected (fw_objects s ! h)"
    and "s' = foldl (\<lambda>s d. handle_tcp_data cid d s) (on_connected e h cid False s) ds"
  shows "map_of (fw_connections s') cid = Some h \<and> h \<notin> set (fw_in_flight s')
    \<and> local_writes h s' = local_writes h s
    \<and> tc_pending_data (fw_objects s' ! h) = tc_pending_data (fw_objects s ! h) @ ds"
proof -
  let ?t = "on_connected e h cid False s"
  have obj: "fw_objects ?t = fw_objects s" by (simp add: on_connected_def Let_def)
  have fl: "h \<notin> set (fw_in_flight ?t)"
    by (simp add: on_connected_def Let_def send_tcp_close_frame_def)
  have "local_writes h ?t = local_writes h s" by (simp add: on_connected_def Let_def fw_simps)
  then show ?thesis
    using data_not_connected [of ?t cid h ds] fw_inv_connected [OF assms(1), of e h cid False] assms(2-4)
      obj fl local_writes_cong [of s' ?t h] by simp
qed

definition agent_data_frame :: "bytes \<Rightarrow> u32 \<Rightarrow> bytes \<Rightarrow> TCPDataFrame" where
  "agent_data_frame cid sn d = \<lparr>data_type = TCP_DATA, data_connection_id = cid,
     data_sequence_number = sn, data_data = d\<rparr>"

lemma tcp_data_frame_bytes_serialize:
  "tcp_data_frame_bytes e cid d sn = TCPDataFrame_serialize (agent_data_frame cid sn d)"
  by (simp add: tcp_data_frame_bytes_def TCPDataFrame_serialize_def agent_data_frame_def byte_simps)

lemma local_read_step:
  assumes "fw_alive s h" "h < length (fw_objects s)" "fw_send_callback s" "tc_socket_open (fw_objects s ! h)"
  shows "on_local_read e h (Some d) s =
    (fw_set_object h (\<lambda>c. c\<lparr>tc_sequence_number := tc_sequence_number c + 1\<rparr>) s)
      \<lparr>fw_actions := fw_actions s @ [Send_frame (TCPDataFrame_serialize (agent_data_frame
          (tc_connection_id (fw_objects s ! h)) (tc_sequence_number (fw_objects s ! h)) d)), Local_read h]\<rparr>"
  using assms by (simp add: on_local_read_def Let_def send_tcp_data_frame_def start_local_read_def
      fw_act_def fw_set_object_def tcp_data_frame_bytes_serialize)

text \<open>
  The bytes read from the local service are sent to the server as one data frame per read, in
  order, in the format of the server's \<open>TCPDataFrame\<close> on either byte order, numbered consecutively
  modulo \<open>2 ^ 32\<close>, and a further read is started after each.
\<close>

theorem agent_frames_numbered:
  assumes "fw_alive s h" "h < length (fw_objects s)" "fw_send_callback s"
    "tc_socket_open (fw_objects s ! h)"
  shows "fw_actions (foldl (\<lambda>s d. on_local_read e h (Some d) s) s ds) = fw_actions s
    @ concat (map (\<lambda>(i, d). [Send_frame (TCPDataFrame_serialize (agent_data_frame
        (tc_connection_id (fw_objects s ! h)) (tc_sequence_number (fw_objects s ! h) + of_nat i) d)),
        Local_read h]) (enumerate 0 ds))"
  using assms
proof (induction ds arbitrary: s)
  case (Cons d ds)
  let ?t = "on_local_read e h (Some d) s"
  have t: "fw_alive ?t h" "h < length (fw_objects ?t)" "fw_send_callback ?t"
    "tc_socket_open (fw_objects ?t ! h)"
    using Cons.prems by (simp_all add: local_read_step fw_alive_def fw_set_object_def)
  have shift: "enumerate (Suc 0) ds = map (\<lambda>(i, d). (Suc i, d)) (enumerate 0 ds)"
    by (simp add: enumerate_eq_zip zip_map1 [symmetric] map_Suc_upt del: upt_Suc)
  show ?case
    using Cons.IH [OF t] Cons.prems
    by (simp add: local_read_step fw_set_object_def shift comp_def case_prod_unfold add.assoc)
qed simp

section \<open>Witnesses\<close>

definition sample_forwarder :: TCPForwarder where
  "sample_forwarder =
     handle_tcp_open sample_id 9100 (fw_set_send_callback (TCPForwarder_new ''localhost'' 80))"

lemma fw_inv_sample [simp]: "fw_inv sample_forwarder"
  unfolding sample_forwarder_def
  by (rule fw_inv_open) (simp add: fw_inv_def fw_set_send_callback_def TCPForwarder_new_def)

lemma sample_forwarder_simps [simp]:
  "fw_connections sample_forwarder = [(sample_id, 0)]" "length (fw_objects sample_forwarder) = 1"
  "fw_objects sample_forwarder ! 0 = \<lparr>tc_connection_id = sample_id, tc_socket_open = True,
     tc_sequence_number = 0, tc_closing = False, tc_connected = False, tc_pending_data = []\<rparr>"
  "fw_send_callback sample_forwarder" "fw_alive sample_forwarder 0"
  by (simp_all add: sample_forwarder_def handle_tcp_open_def fw_set_send_callback_def
      TCPForwarder_new_def fw_act_def Let_def fw_alive_def)


lemma failed_connect_strands_data_witness:
  "tc_pending_data (fw_objects (foldl (\<lambda>s d. handle_tcp_data sample_id d s)
     (on_connected LittleEndian 0 sample_id False sample_forwarder) [[1], [2, 3]]) ! 0) = [[1], [2, 3]]"
  using failed_connect_strands_data [of sample_forwarder sample_id 0 _ LittleEndian "[[1], [2, 3]]"]
  by simp

lemma agent_frames_numbered_witness:
  "length (fw_actions (foldl (\<lambda>s d. on_local_read BigEndian 0 (Some d) s) sample_forwarder [[1], [2]]))
     = length (fw_actions sample_forwarder) + 4"
  using agent_frames_numbered [of sample_forwarder 0 BigEndian "[[1], [2]]"] by simp

end
