(* ===== verification/Nghttp2.thy ===== *)
theory Nghttp2
  imports Tcp_Protocol
begin

text \<open>
  What both ends use of the library nghttp2, which is not part of the repository. A session is
  reduced to its visible effects: \<open>nghttp2_session_mem_recv\<close> calls back a list of events and
  returns a count or a negative error, \<open>nghttp2_session_send\<close> returns an error code. Both are
  arguments of the operations that call them. A data provider is a function that is called with
  the size of the library's buffer until it sets the end-of-file flag.
\<close>

datatype h2_frame_type = H2_DATA | H2_HEADERS | H2_PING | H2_GOAWAY | H2_OTHER

definition FLAG_ACK :: u8 where "FLAG_ACK = 0x1"
definition FLAG_END_STREAM :: u8 where "FLAG_END_STREAM = 0x1"
definition FLAG_END_HEADERS :: u8 where "FLAG_END_HEADERS = 0x4"

lemmas h2_flag_defs = FLAG_ACK_def FLAG_END_STREAM_def FLAG_END_HEADERS_def

definition has_flag :: "u8 \<Rightarrow> u8 \<Rightarrow> bool" where
  "has_flag flags f \<longleftrightarrow> flags AND f \<noteq> 0"

datatype h2_event =
  H2_header int string string
| H2_data_chunk u8 int bytes
| H2_frame h2_frame_type u8 int bool

text \<open>
  The fields of \<open>H2_frame\<close> are the type, the flags, the stream and whether the headers are the
  first ones of a response.
\<close>

text \<open>A data provider returns the bytes it has copied and whether it has set the end of file.\<close>

type_synonym data_provider = "nat \<Rightarrow> bytes \<times> bool"

fun drain :: "data_provider \<Rightarrow> nat list \<Rightarrow> bytes" where
  "drain p [] = []"
| "drain p (n # ns) = (case p n of (bs, eof) \<Rightarrow> if eof then bs else bs @ drain p ns)"

text \<open>The outcome of \<open>write_some\<close> on the socket, as the send callbacks of both ends see it.\<close>

datatype write_outcome = Wrote nat | Write_would_block | Write_error

end
