(* ===== verification/Http2_Session.thy ===== *)
theory Http2_Session
  imports Tcp_Forwarder Nghttp2
begin

text \<open>
  \<open>tunnel-agent/src/client/http2_session.{h,cpp}\<close>: the agent's session with the server. One TLS
  socket carries HTTP/2 and, beside it, raw TCP frames; the session tells them apart by their first
  byte, cuts the frames out of what it reads and hands them to the forwarder.
\<close>

section \<open>State\<close>

record HTTP2Request =
  rq_stream_id :: int
  rq_method :: string
  rq_path :: string
  rq_authority :: string
  rq_headers :: "(string, string) umap"
  rq_body :: bytes
  rq_request_id :: string
  rq_client_ip :: string

definition HTTP2Request_new :: HTTP2Request where
  "HTTP2Request_new = \<lparr>rq_stream_id = 0, rq_method = '''', rq_path = '''', rq_authority = '''',
     rq_headers = [], rq_body = [], rq_request_id = '''', rq_client_ip = ''''\<rparr>"

datatype hs_action =
  Hs_write string
| Hs_write_frame bytes
| Hs_submit_settings
| Hs_submit_ping
| Hs_submit_response int "(string \<times> string) list"
| Hs_submit_connect "(string \<times> string) list"
| Hs_session_send
| Hs_start_read
| Hs_on_request HTTP2Request
| Hs_ping_ack

record HTTP2Session =
  hs_tunnel_id :: string
  hs_token :: string
  hs_session :: bool
  hs_active :: bool
  hs_on_request :: bool
  hs_on_ping_ack :: bool
  hs_forwarder :: "TCPForwarder option"
  hs_pending_requests :: "(int, HTTP2Request) umap"
  hs_response_bodies :: "(int, bytes) umap"
  hs_actions :: "hs_action list"

definition HTTP2Session_new :: "string \<Rightarrow> string \<Rightarrow> HTTP2Session" where
  "HTTP2Session_new tunnel_id token = \<lparr>hs_tunnel_id = tunnel_id, hs_token = token,
     hs_session = False, hs_active = False, hs_on_request = False, hs_on_ping_ack = False,
     hs_forwarder = None, hs_pending_requests = [], hs_response_bodies = [], hs_actions = []\<rparr>"

definition hs_act :: "hs_action \<Rightarrow> HTTP2Session \<Rightarrow> HTTP2Session" where
  "hs_act a s = s\<lparr>hs_actions := hs_actions s @ [a]\<rparr>"

section \<open>TCP frames\<close>

definition is_tcp_frame :: "bytes \<Rightarrow> bool" where
  "is_tcp_frame data \<longleftrightarrow> \<not> length data < 1 \<and> 0x10 \<le> data ! 0 \<and> data ! 0 \<le> 0x14"

text \<open>
  The size of the frame at the start of a non-empty buffer; 0 where it cannot be told yet or the
  length of a data frame is above 64 KiB.
\<close>

definition tcp_frame_size :: "bytes \<Rightarrow> nat" where
  "tcp_frame_size current =
    (let frame_type = current ! 0; remaining = length current in
     if frame_type = TCP_OPEN then 19
     else if frame_type = TCP_DATA then
       (if 25 \<le> remaining
        then let data_len = get_be32 (current ! 21) (current ! 22) (current ! 23) (current ! 24)
             in if data_len > 65536 then 0 else unat (25 + data_len)
        else 0)
     else if frame_type = TCP_CLOSE then 19
     else if frame_type = TCP_ERROR then
       (if 21 \<le> remaining then 21 + unat (get_be16 (current ! 19) (current ! 20)) else 0)
     else if frame_type = TCP_ACK then 25
     else 0)"

definition handle_tcp_frame :: "bytes \<Rightarrow> HTTP2Session \<Rightarrow> HTTP2Session result" where
  "handle_tcp_frame fd s =
    (if length fd < 1 then Inr s
     else case hs_forwarder s of
       None \<Rightarrow> Inr s
     | Some fw \<Rightarrow>
       if length fd < 17 then Inr s
       else let t = fd ! 0; cid = take 16 (drop 1 fd) in
         if t = TCP_OPEN then
           (if 19 \<le> length fd
            then Inr (s\<lparr>hs_forwarder := Some (handle_tcp_open cid (get_be16 (fd ! 17) (fd ! 18)) fw)\<rparr>)
            else Inr s)
         else if t = TCP_DATA then
           (if 25 \<le> length fd
            then let data_len = get_be32 (fd ! 21) (fd ! 22) (fd ! 23) (fd ! 24)
                 in if unat (25 + data_len) \<le> length fd
                    then bind_result (read_range fd 25 (unat data_len))
                           (\<lambda>data. Inr (s\<lparr>hs_forwarder := Some (handle_tcp_data cid data fw)\<rparr>))
                    else Inr s
            else Inr s)
         else if t = TCP_CLOSE then Inr (s\<lparr>hs_forwarder := Some (handle_tcp_close cid fw)\<rparr>)
         else if t = TCP_ERROR then
           (if 21 \<le> length fd
            then let code = get_be16 (fd ! 17) (fd ! 18); msg_len = get_be16 (fd ! 19) (fd ! 20);
                     message = (if 21 + unat msg_len \<le> length fd
                                then map (\<lambda>b. char_of (unat b)) (take (unat msg_len) (drop 21 fd))
                                else [])
                 in Inr (s\<lparr>hs_forwarder := Some (handle_tcp_error cid code message fw)\<rparr>)
            else Inr s)
         else Inr s)"

text \<open>
  The loop over the buffer: it stops at a byte that starts no TCP frame and at an incomplete
  frame, whose bytes are left to the caller.
\<close>

function process_tcp_frames :: "bytes \<Rightarrow> HTTP2Session \<Rightarrow> (nat \<times> HTTP2Session) result" where
  "process_tcp_frames data s =
    (if \<not> is_tcp_frame data then Inr (0, s)
     else let frame_size = tcp_frame_size data in
       if frame_size = 0 \<or> length data < frame_size then Inr (0, s)
       else bind_result (handle_tcp_frame (take frame_size data) s) (\<lambda>s1.
         bind_result (process_tcp_frames (drop frame_size data) s1) (\<lambda>(n, s2).
           Inr (frame_size + n, s2))))"
  by pat_completeness auto
termination
  by (relation "measure (\<lambda>(data, s). length data)") (auto simp: is_tcp_frame_def)

declare process_tcp_frames.simps [simp del]

section \<open>Session\<close>

definition connect_request_text :: "string \<Rightarrow> string \<Rightarrow> string" where
  "connect_request_text tunnel_id token =
     ''CONNECT tunnel-agent HTTP/1.1'' @ [CHR 0x0D, CHR 0x0A]
   @ ''Host: tunnel-agent'' @ [CHR 0x0D, CHR 0x0A]
   @ ''Authorization: Bearer '' @ token @ [CHR 0x0D, CHR 0x0A]
   @ ''X-Tunnel-ID: '' @ tunnel_id @ [CHR 0x0D, CHR 0x0A]
   @ ''X-Agent-Version: 1.0.0'' @ [CHR 0x0D, CHR 0x0A]
   @ ''X-TCP-Ports: 9100'' @ [CHR 0x0D, CHR 0x0A]
   @ [CHR 0x0D, CHR 0x0A]"

text \<open>The outcome of one \<open>read_some\<close> on the non-blocking socket.\<close>

datatype read_outcome = Read_data string | Would_block | Read_error string

text \<open>At most \<open>n\<close> attempts, 100 ms apart; \<open>attempts\<close> gives the outcomes in order.\<close>

fun read_auth_response :: "nat \<Rightarrow> (nat \<Rightarrow> read_outcome) \<Rightarrow> string result" where
  "read_auth_response 0 attempts = Inl (Runtime_error ''Timeout waiting for auth response'')"
| "read_auth_response (Suc n) attempts =
     (case attempts 0 of
        Read_data r \<Rightarrow> Inr r
      | Would_block \<Rightarrow> read_auth_response n (\<lambda>i. attempts (Suc i))
      | Read_error m \<Rightarrow> Inl (Runtime_error (''Failed to read auth response: '' @ m)))"

definition auth_accepted :: "string \<Rightarrow> bool" where
  "auth_accepted response \<longleftrightarrow>
     \<not> (find_string ''200'' response = None \<and> find_string ''Connection Established'' response = None)"

definition hs_start_async_read :: "HTTP2Session \<Rightarrow> HTTP2Session" where
  "hs_start_async_read s = (if \<not> hs_active s then s else hs_act Hs_start_read s)"

definition hs_send_data :: "int \<Rightarrow> HTTP2Session \<Rightarrow> HTTP2Session" where
  "hs_send_data rv s =
    (let s1 = hs_act Hs_session_send s in if rv \<noteq> 0 then s1\<lparr>hs_active := False\<rparr> else s1)"

text \<open>
  \<open>start\<close>: \<open>write_error\<close> is the outcome of writing the request, \<open>attempts\<close> those of reading the
  answer, \<open>rv\<close> that of the first \<open>nghttp2_session_send\<close>.
\<close>

definition hs_start ::
  "string \<Rightarrow> string option \<Rightarrow> (nat \<Rightarrow> read_outcome) \<Rightarrow> int \<Rightarrow> HTTP2Session \<Rightarrow> HTTP2Session result" where
  "hs_start alpn write_error attempts rv s0 =
    (let s = s0\<lparr>hs_on_request := True\<rparr>;
         go = (\<lambda>s. Inr (hs_start_async_read ((hs_send_data rv (hs_act Hs_submit_settings
                      (s\<lparr>hs_session := True\<rparr>)))\<lparr>hs_active := True\<rparr>)))
     in if alpn \<noteq> ''h2''
        then case write_error of
               Some m \<Rightarrow> Inl (Runtime_error (''Failed to send authentication: '' @ m))
             | None \<Rightarrow>
                 bind_result (read_auth_response 50 attempts) (\<lambda>response.
                   if \<not> auth_accepted response
                   then Inl (Runtime_error (''Authentication failed: '' @ response))
                   else go (hs_act (Hs_write (connect_request_text (hs_tunnel_id s) (hs_token s))) s))
        else go s)"

definition hs_stop :: "HTTP2Session \<Rightarrow> HTTP2Session" where
  "hs_stop s = (if \<not> hs_active s then s else s\<lparr>hs_session := False, hs_active := False\<rparr>)"

definition hs_set_ping_ack_callback :: "HTTP2Session \<Rightarrow> HTTP2Session" where
  "hs_set_ping_ack_callback s = s\<lparr>hs_on_ping_ack := True\<rparr>"

definition connect_headers :: "HTTP2Session \<Rightarrow> (string \<times> string) list" where
  "connect_headers s = [('':method'', ''CONNECT''), ('':scheme'', ''https''),
     ('':authority'', ''tunnel-agent''), ('':path'', ''/''),
     (''authorization'', ''Bearer '' @ hs_token s), (''x-tunnel-id'', hs_tunnel_id s),
     (''x-agent-version'', ''1.0.0'')]"

definition hs_send_connect_request :: "int \<Rightarrow> HTTP2Session \<Rightarrow> HTTP2Session result" where
  "hs_send_connect_request stream_id s =
    (if stream_id < 0 then Inl (Runtime_error ''Failed to submit CONNECT request'')
     else Inr (hs_act (Hs_submit_connect (connect_headers s)) s))"

text \<open>
  The data provider of a response: one call copies what fits into the buffer and sets the end of
  file.
\<close>

definition response_read_callback :: "bytes \<Rightarrow> data_provider" where
  "response_read_callback body len = (take (min len (length body)) body, True)"

text \<open>\<open>std::map\<close> is walked in the order of its keys, which is the order of \<open>headers\<close>.\<close>

definition send_response ::
  "int \<Rightarrow> int \<Rightarrow> int \<Rightarrow> int \<Rightarrow> (string \<times> string) list \<Rightarrow> bytes \<Rightarrow> HTTP2Session \<Rightarrow> HTTP2Session" where
  "send_response submit_rv send_rv stream_id status_code headers body s =
    (let s1 = s\<lparr>hs_response_bodies := AList.update stream_id body (hs_response_bodies s)\<rparr>;
         header_pairs = ('':status'', int_string status_code) # headers
     in if submit_rv \<noteq> 0 then s1
        else hs_send_data send_rv (hs_act (Hs_submit_response stream_id header_pairs) s1))"

definition hs_send_ping :: "int \<Rightarrow> HTTP2Session \<Rightarrow> HTTP2Session" where
  "hs_send_ping rv s = hs_send_data rv (hs_act Hs_submit_ping s)"

definition hs_process_events :: "int \<Rightarrow> HTTP2Session \<Rightarrow> HTTP2Session" where
  "hs_process_events rv s = hs_send_data rv s"

text \<open>
  \<open>send_callback\<close>: the outcome of \<open>write_some\<close> is the number of bytes written, would-block, or an
  error; the codes are those of nghttp2.
\<close>

definition hs_send_callback :: "write_outcome \<Rightarrow> int" where
  "hs_send_callback w = (case w of Wrote n \<Rightarrow> int n | Write_would_block \<Rightarrow> -504 | Write_error \<Rightarrow> -902)"

definition hs_set_tcp_forwarder :: "TCPForwarder option \<Rightarrow> HTTP2Session \<Rightarrow> HTTP2Session" where
  "hs_set_tcp_forwarder fw s = s\<lparr>hs_forwarder := map_option fw_set_send_callback fw\<rparr>"

text \<open>A short write is logged and its rest is dropped: \<open>written\<close> bytes go out.\<close>

definition send_tcp_frame :: "nat option \<Rightarrow> bytes \<Rightarrow> HTTP2Session \<Rightarrow> HTTP2Session" where
  "send_tcp_frame written frame_data s =
    (if \<not> hs_active s then s
     else case written of None \<Rightarrow> s | Some n \<Rightarrow> hs_act (Hs_write_frame (take n frame_data)) s)"

section \<open>Callbacks of the library\<close>

definition hs_request :: "int \<Rightarrow> HTTP2Session \<Rightarrow> HTTP2Request" where
  "hs_request stream_id s =
     (case map_of (hs_pending_requests s) stream_id of Some r \<Rightarrow> r | None \<Rightarrow> HTTP2Request_new)"

definition hs_on_header :: "int \<Rightarrow> string \<Rightarrow> string \<Rightarrow> HTTP2Session \<Rightarrow> HTTP2Session" where
  "hs_on_header stream_id name_str value_str s =
    (let req = (hs_request stream_id s)\<lparr>rq_stream_id := stream_id\<rparr>;
         req' = (if name_str = '':method'' then req\<lparr>rq_method := value_str\<rparr>
            else if name_str = '':path'' then req\<lparr>rq_path := value_str\<rparr>
            else if name_str = '':authority'' then req\<lparr>rq_authority := value_str\<rparr>
            else if name_str = ''x-tunnel-request-id'' then req\<lparr>rq_request_id := value_str\<rparr>
            else if name_str = ''x-client-ip'' then req\<lparr>rq_client_ip := value_str\<rparr>
            else req\<lparr>rq_headers := AList.update name_str value_str (rq_headers req)\<rparr>)
     in s\<lparr>hs_pending_requests := AList.update stream_id req' (hs_pending_requests s)\<rparr>)"

definition hs_on_data_chunk :: "int \<Rightarrow> bytes \<Rightarrow> HTTP2Session \<Rightarrow> HTTP2Session" where
  "hs_on_data_chunk stream_id data s =
    (if stream_id = 1 then s
     else let req = hs_request stream_id s
          in s\<lparr>hs_pending_requests := AList.update stream_id (req\<lparr>rq_body := rq_body req @ data\<rparr>)
                 (hs_pending_requests s)\<rparr>)"

text \<open>A complete request is handed to the callback and forgotten.\<close>

definition hs_complete :: "int \<Rightarrow> HTTP2Session \<Rightarrow> HTTP2Session" where
  "hs_complete stream_id s =
    (case map_of (hs_pending_requests s) stream_id of
       None \<Rightarrow> s
     | Some req \<Rightarrow>
         (if hs_on_request s then hs_act (Hs_on_request req) s else s)
           \<lparr>hs_pending_requests := AList.delete stream_id (hs_pending_requests s)\<rparr>)"

definition hs_on_frame_recv :: "h2_frame_type \<Rightarrow> u8 \<Rightarrow> int \<Rightarrow> HTTP2Session \<Rightarrow> HTTP2Session" where
  "hs_on_frame_recv t flags stream_id s =
    (case t of
       H2_HEADERS \<Rightarrow>
         if has_flag flags FLAG_END_HEADERS \<and> has_flag flags FLAG_END_STREAM
         then hs_complete stream_id s else s
     | H2_DATA \<Rightarrow> if has_flag flags FLAG_END_STREAM then hs_complete stream_id s else s
     | H2_PING \<Rightarrow>
         if has_flag flags FLAG_ACK \<and> hs_on_ping_ack s then hs_act Hs_ping_ack s else s
     | _ \<Rightarrow> s)"

fun hs_callback :: "HTTP2Session \<Rightarrow> h2_event \<Rightarrow> HTTP2Session" where
  "hs_callback s (H2_header stream name value) = hs_on_header stream name value s"
| "hs_callback s (H2_data_chunk flags stream data) = hs_on_data_chunk stream data s"
| "hs_callback s (H2_frame t flags stream resp) = hs_on_frame_recv t flags stream s"

text \<open>
  The completion handler of the socket read, up to the next read. \<open>recv\<close> is
  \<open>nghttp2_session_mem_recv\<close>, \<open>send_rv\<close> the result of \<open>nghttp2_session_send\<close>.
\<close>

definition hs_handle_read ::
  "(bytes \<Rightarrow> h2_event list \<times> int) \<Rightarrow> int \<Rightarrow> bytes option \<Rightarrow> HTTP2Session \<Rightarrow> HTTP2Session result" where
  "hs_handle_read recv send_rv r s =
    (case r of
       None \<Rightarrow> Inr (s\<lparr>hs_active := False\<rparr>)
     | Some data \<Rightarrow>
       bind_result (if is_tcp_frame data then process_tcp_frames data s else Inr (0, s))
         (\<lambda>(tcp_consumed, s1).
           if tcp_consumed < length data
           then let (events, readlen) = recv (drop tcp_consumed data);
                    s2 = foldl hs_callback s1 events
                in if readlen < 0 then Inr (s2\<lparr>hs_active := False\<rparr>)
                   else let s3 = hs_act Hs_session_send s2
                        in if send_rv \<noteq> 0 then Inr (s3\<lparr>hs_active := False\<rparr>)
                           else Inr (hs_start_async_read s3)
           else Inr (hs_start_async_read s1)))"

section \<open>The frame loop\<close>

text \<open>A frame of the server, its bytes, and what it asks of the agent's forwarder.\<close>

datatype tcp_frame =
  Open_frame TCPOpenFrame
| Data_frame TCPDataFrame
| Close_frame TCPCloseFrame
| Error_frame TCPErrorFrame
| Ack_frame TCPAckFrame

fun tcp_frame_bytes :: "endian \<Rightarrow> tcp_frame \<Rightarrow> bytes" where
  "tcp_frame_bytes e (Open_frame f) = TCPOpenFrame_serialize e f"
| "tcp_frame_bytes e (Data_frame f) = TCPDataFrame_serialize f"
| "tcp_frame_bytes e (Close_frame f) = TCPCloseFrame_serialize e f"
| "tcp_frame_bytes e (Error_frame f) = TCPErrorFrame_serialize e f"
| "tcp_frame_bytes e (Ack_frame f) = TCPAckFrame_serialize e f"

text \<open>
  The loop reads the length of an error message in network order; the writer puts it so on a
  big-endian host, and for an empty message.
\<close>

fun tcp_frame_valid :: "endian \<Rightarrow> tcp_frame \<Rightarrow> bool" where
  "tcp_frame_valid e (Open_frame f) = TCPOpenFrame_valid f"
| "tcp_frame_valid e (Data_frame f) = (TCPDataFrame_valid f \<and> length (data_data f) \<le> 65536)"
| "tcp_frame_valid e (Close_frame f) = TCPCloseFrame_valid f"
| "tcp_frame_valid e (Error_frame f) =
     (TCPErrorFrame_valid f \<and> (e = BigEndian \<or> error_message f = []))"
| "tcp_frame_valid e (Ack_frame f) = TCPAckFrame_valid f"

fun deliver :: "endian \<Rightarrow> TCPForwarder \<Rightarrow> tcp_frame \<Rightarrow> TCPForwarder" where
  "deliver e fw (Open_frame f) = handle_tcp_open (open_connection_id f) (htons e (open_target_port f)) fw"
| "deliver e fw (Data_frame f) = handle_tcp_data (data_connection_id f) (data_data f) fw"
| "deliver e fw (Close_frame f) = close_connection (close_connection_id f) fw"
| "deliver e fw (Error_frame f) = close_connection (error_connection_id f) fw"
| "deliver e fw (Ack_frame f) = fw"

lemma tcp_type_range: "0x10 \<le> (t :: u8) \<and> t \<le> 0x14 \<longleftrightarrow> t \<in> {TCP_OPEN, TCP_DATA, TCP_CLOSE, TCP_ERROR, TCP_ACK}"
proof -
  have "0x10 \<le> t \<and> t \<le> 0x14 \<longleftrightarrow> unat t \<in> {16, 17, 18, 19, 20}"
    by (auto simp: word_le_nat_alt)
  also have "\<dots> \<longleftrightarrow> t \<in> {0x10, 0x11, 0x12, 0x13, 0x14}"
    by (auto simp: unat_arith_simps)
  finally show ?thesis by (simp add: TCPFrameType_defs)
qed

lemma is_tcp_frame_iff: "is_tcp_frame data \<longleftrightarrow>
   data \<noteq> [] \<and> hd data \<in> {TCP_OPEN, TCP_DATA, TCP_CLOSE, TCP_ERROR, TCP_ACK}"
  unfolding is_tcp_frame_def using tcp_type_range by (cases data) auto

lemma error_len_on_wire:
  "length (error_message f) < 2 ^ 16 \<Longrightarrow> e = BigEndian \<or> error_message f = [] \<Longrightarrow>
    unat (htons e (of_nat (length (error_message f)))) = length (error_message f)"
  by (auto simp: unat_of_length htons_def bswap16_def put_be16_def get_be16_def split: endian.splits)

lemma tcp_frame_bytes_head:
  "tcp_frame_valid e f \<Longrightarrow> is_tcp_frame (tcp_frame_bytes e f @ rest)"
  by (cases f) (auto simp: is_tcp_frame_iff frame_serialize_defs frame_valid_defs)

lemma tcp_frame_size_bytes:
  "tcp_frame_valid e f \<Longrightarrow> tcp_frame_size (tcp_frame_bytes e f @ rest) = length (tcp_frame_bytes e f)"
proof (cases f)
  case (Data_frame d)
  assume "tcp_frame_valid e f"
  then show ?thesis using of_nat_le_65536 [of "length (data_data d)"]
    by (simp add: Data_frame tcp_frame_size_def Let_def frame_serialize_defs frame_valid_defs byte_simps
        unat_25_plus)
next
  case (Error_frame r)
  assume "tcp_frame_valid e f"
  then show ?thesis using error_len_on_wire [of r e]
    by (simp add: Error_frame tcp_frame_size_def Let_def frame_serialize_defs frame_valid_defs byte_simps)
qed (simp_all add: tcp_frame_size_def Let_def frame_serialize_defs frame_valid_defs)

lemma handle_tcp_frame_bytes:
  assumes "tcp_frame_valid e f" "hs_forwarder s = Some fw"
  shows "handle_tcp_frame (tcp_frame_bytes e f) s = Inr (s\<lparr>hs_forwarder := Some (deliver e fw f)\<rparr>)"
proof (cases f)
  case (Data_frame d)
  then have d: "TCPDataFrame_valid d" "length (data_data d) \<le> 65536" using assms(1) by simp_all
  have "read_range (TCP_DATA # data_connection_id d @ put_be32 (data_sequence_number d)
      @ put_be32 (of_nat (length (data_data d))) @ data_data d @ []) 25 (length (data_data d)) = Inr (data_data d)"
    using d by (intro read_range_after_id) (simp_all add: frame_valid_defs)
  then show ?thesis
    using d assms(2) by (simp add: Data_frame handle_tcp_frame_def Let_def frame_serialize_defs
        frame_valid_defs byte_simps unat_25_plus unat_of_length)
next
  case (Error_frame r)
  then show ?thesis using assms
    by (simp add: handle_tcp_frame_def Let_def frame_serialize_defs frame_valid_defs handle_tcp_error_def)
qed (use assms in \<open>simp_all add: handle_tcp_frame_def Let_def frame_serialize_defs frame_valid_defs
      byte_simps handle_tcp_close_def\<close>)

lemma process_frame_append:
  assumes "tcp_frame_valid e f" "hs_forwarder s = Some fw"
  shows "process_tcp_frames (tcp_frame_bytes e f @ rest) s
    = bind_result (process_tcp_frames rest (s\<lparr>hs_forwarder := Some (deliver e fw f)\<rparr>))
        (\<lambda>(n, s2). Inr (length (tcp_frame_bytes e f) + n, s2))"
proof -
  have "tcp_frame_bytes e f \<noteq> []"
    using assms(1) by (cases f) (auto simp: frame_serialize_defs)
  then show ?thesis
    using assms by (subst process_tcp_frames.simps)
      (simp add: tcp_frame_bytes_head tcp_frame_size_bytes handle_tcp_frame_bytes Let_def)
qed

lemma process_not_tcp: "\<not> is_tcp_frame rest \<Longrightarrow> process_tcp_frames rest s = Inr (0, s)"
  by (subst process_tcp_frames.simps) simp

lemma process_frames_concat:
  assumes "list_all (tcp_frame_valid e) fs" "\<not> is_tcp_frame rest" "hs_forwarder s = Some fw"
  shows "process_tcp_frames (concat (map (tcp_frame_bytes e) fs) @ rest) s
    = Inr (length (concat (map (tcp_frame_bytes e) fs)),
           s\<lparr>hs_forwarder := Some (foldl (deliver e) fw fs)\<rparr>)"
  using assms
proof (induction fs arbitrary: s fw)
  case (Cons f fs)
  then show ?case
    using process_frame_append [of e f s fw "concat (map (tcp_frame_bytes e) fs) @ rest"]
      Cons.IH [of "s\<lparr>hs_forwarder := Some (deliver e fw f)\<rparr>" "deliver e fw f"] by simp
qed (simp add: process_not_tcp)

lemma handle_tcp_frame_safe:
  assumes "tcp_frame_size fd = length fd"
  shows "\<exists>s'. handle_tcp_frame fd s = Inr s'"
proof -
  have "\<exists>data. read_range fd 25 (unat dl) = Inr data"
    if "fd ! 0 = TCP_DATA" "25 \<le> length fd" "dl = get_be32 (fd ! 21) (fd ! 22) (fd ! 23) (fd ! 24)" for dl
  proof -
    have le: "\<not> dl > 65536" "length fd = unat (25 + dl)"
      using assms that by (auto simp: tcp_frame_size_def Let_def split: if_splits)
    then have "unat dl \<le> 65536" by (simp add: word_less_nat_alt not_less)
    then have "unat (25 + dl) = 25 + unat dl" using unat_25_plus [of "unat dl"] by simp
    then show ?thesis using le by (simp add: read_range_def)
  qed
  then show ?thesis
    by (fastforce simp: handle_tcp_frame_def Let_def split: option.splits)
qed

lemma tcp_frame_size_take:
  assumes "data \<noteq> []" "tcp_frame_size data = n" "0 < n" "n \<le> length data"
  shows "tcp_frame_size (take n data) = n"
proof -
  have "25 \<le> n" if "data ! 0 = TCP_DATA"
  proof -
    let ?dl = "get_be32 (data ! 21) (data ! 22) (data ! 23) (data ! 24)"
    have "\<not> ?dl > 65536" "n = unat (25 + ?dl)"
      using assms that by (auto simp: tcp_frame_size_def Let_def split: if_splits)
    then have "unat ?dl \<le> 65536" "n = unat (25 + ?dl)" by (simp_all add: word_less_nat_alt not_less)
    then show ?thesis using unat_25_plus [of "unat ?dl"] by simp
  qed
  moreover have "21 \<le> n" if "data ! 0 = TCP_ERROR"
    using assms that by (auto simp: tcp_frame_size_def Let_def split: if_splits)
  ultimately show ?thesis
    using assms by (auto simp: tcp_frame_size_def Let_def split: if_splits)
qed

section \<open>Properties of the frame loop\<close>



lemma partial_data_frame:
  assumes "TCPDataFrame_valid f" "length (data_data f) \<le> 65536"
    and "n < length (TCPDataFrame_serialize f)"
  shows "process_tcp_frames (take n (TCPDataFrame_serialize f)) s = Inr (0, s)"
proof -
  let ?d = "take n (TCPDataFrame_serialize f)"
  have "tcp_frame_size ?d = 0 \<or> length ?d < tcp_frame_size ?d" if "n \<noteq> 0"
  proof (cases "25 \<le> n")
    case True
    have "tcp_frame_size (TCPDataFrame_serialize f) = length (TCPDataFrame_serialize f)"
      using tcp_frame_size_bytes [of BigEndian "Data_frame f" "[]"] assms by simp
    moreover have "TCPDataFrame_serialize f ! 0 = TCP_DATA" "25 \<le> length (TCPDataFrame_serialize f)"
      using assms(1) by (auto simp: TCPDataFrame_serialize_def TCPDataFrame_valid_def)
    ultimately have "tcp_frame_size ?d = length (TCPDataFrame_serialize f)"
      using True assms(3) by (simp add: tcp_frame_size_def Let_def)
    then show ?thesis using assms(3) by simp
  next
    case False
    have "?d ! 0 = TCP_DATA" using assms(1) that
      by (auto simp: TCPDataFrame_serialize_def TCPDataFrame_valid_def)
    then show ?thesis using False assms(3) by (simp add: tcp_frame_size_def)
  qed
  then show ?thesis
    by (cases "n = 0") (simp add: process_not_tcp is_tcp_frame_def,
        auto simp: process_tcp_frames.simps [of ?d])
qed

lemma hs_callback_forwarder: "hs_forwarder (hs_callback s ev) = hs_forwarder s"
  by (cases ev) (auto simp: hs_on_header_def hs_on_data_chunk_def hs_on_frame_recv_def hs_complete_def
      hs_act_def Let_def split: h2_frame_type.splits option.splits)

lemma hs_callbacks_forwarder: "hs_forwarder (foldl hs_callback s evs) = hs_forwarder s"
  by (induction evs arbitrary: s) (simp_all add: hs_callback_forwarder)

text \<open>
  The socket gives the agent at most 8192 bytes per read, and the bytes of an unfinished
  frame are not kept: any proper part of a data frame that ends a read is handed to nghttp2
  instead, and the forwarder gets nothing. Every frame with more than 8167 bytes of payload is cut
  by the size of the buffer alone.
\<close>

theorem partial_frame_goes_to_http2:
  assumes "TCPDataFrame_valid f" "length (data_data f) \<le> 65536"
    and "0 < n" "n < length (TCPDataFrame_serialize f)"
    and "recv (take n (TCPDataFrame_serialize f)) = (events, readlen)"
  shows "(\<exists>t. hs_handle_read recv rv (Some (take n (TCPDataFrame_serialize f))) s = Inr t
        \<and> hs_pending_requests t = hs_pending_requests (foldl hs_callback s events)
        \<and> hs_forwarder t = hs_forwarder s \<and> (hs_active t \<longrightarrow> 0 \<le> readlen \<and> rv = 0))
    \<and> (8167 < length (data_data f) \<longrightarrow> 8192 < length (TCPDataFrame_serialize f))"
proof -
  let ?d = "take n (TCPDataFrame_serialize f)"
  have p: "(if is_tcp_frame ?d then process_tcp_frames ?d s else Inr (0, s)) = Inr (0, s)"
    using partial_data_frame [OF assms(1,2,4), of s] by simp
  have "0 < length ?d" using assms(3,4) by simp
  then show ?thesis
    using assms(1,5) p by (simp add: hs_handle_read_def) (simp add: Let_def hs_start_async_read_def hs_act_def hs_callbacks_forwarder)
qed

section \<open>Requests and responses over HTTP/2\<close>

lemma hs_request_update [simp]:
  "hs_request i (s\<lparr>hs_pending_requests := AList.update i r (hs_pending_requests s)\<rparr>) = r"
  by (simp add: hs_request_def map_simps)

lemma hs_request_update_simps [simp]:
  "map_of (hs_pending_requests (s\<lparr>hs_pending_requests := AList.update i r m\<rparr>)) j
     = (if j = i then Some r else map_of m j)"
  by (simp add: map_simps)

definition only_request :: "int \<Rightarrow> HTTP2Session \<Rightarrow> HTTP2Session \<Rightarrow> bool" where
  "only_request i s t \<longleftrightarrow> hs_actions t = hs_actions s \<and> hs_on_request t = hs_on_request s
     \<and> (\<forall>j. j \<noteq> i \<longrightarrow> map_of (hs_pending_requests t) j = map_of (hs_pending_requests s) j)"

lemma hs_header_only: "only_request i s (hs_on_header i n v s)"
  by (simp add: only_request_def hs_on_header_def Let_def map_simps)

lemma hs_chunk_only: "only_request i s (hs_on_data_chunk i d s)"
  by (simp add: only_request_def hs_on_data_chunk_def Let_def map_simps)

lemma only_request_trans: "only_request i s t \<Longrightarrow> only_request i t u \<Longrightarrow> only_request i s u"
  by (simp add: only_request_def)

lemma hs_chunks:
  assumes "i \<noteq> 1"
  shows "only_request i s (foldl hs_callback s (map (H2_data_chunk fl i) ds))
    \<and> (ds \<noteq> [] \<or> map_of (hs_pending_requests s) i \<noteq> None \<longrightarrow>
        map_of (hs_pending_requests (foldl hs_callback s (map (H2_data_chunk fl i) ds))) i
          = Some ((hs_request i s)\<lparr>rq_body := rq_body (hs_request i s) @ concat ds\<rparr>))"
proof (induction ds arbitrary: s)
  case Nil
  then show ?case by (auto simp: only_request_def hs_request_def)
next
  case (Cons d ds)
  have r: "hs_request i (hs_on_data_chunk i d s) = (hs_request i s)\<lparr>rq_body := rq_body (hs_request i s) @ d\<rparr>"
    "map_of (hs_pending_requests (hs_on_data_chunk i d s)) i \<noteq> None"
    using assms by (simp_all add: hs_on_data_chunk_def Let_def map_simps)
  show ?case
    using Cons.IH [of "hs_on_data_chunk i d s"] r
      only_request_trans [OF hs_chunk_only [of i s d], of "foldl hs_callback (hs_on_data_chunk i d s)
        (map (H2_data_chunk fl i) ds)"]
    by simp
qed

lemma hs_chunks_stream_1: "foldl hs_callback s (map (H2_data_chunk fl 1) ds) = s"
  by (induction ds) (simp_all add: hs_on_data_chunk_def)

text \<open>
  A request whose headers have arrived and whose body comes in any number of chunks is handed
  to the agent exactly once, when its stream ends, with the chunks joined in order; the requests of
  the other streams are untouched. Stream 1 is the exception: its chunks are taken for the body of
  a CONNECT response and dropped, so its request is delivered without its body.
\<close>

theorem request_assembly:
  assumes "map_of (hs_pending_requests s) i = Some r" "rq_body r = []" "hs_on_request s"
    and "t = foldl hs_callback s (map (H2_data_chunk fl i) ds @ [H2_frame H2_DATA FLAG_END_STREAM i resp])"
  shows "hs_actions t = hs_actions s @ [Hs_on_request (r\<lparr>rq_body := if i = 1 then [] else concat ds\<rparr>)]
    \<and> map_of (hs_pending_requests t) i = None
    \<and> (\<forall>j. j \<noteq> i \<longrightarrow> map_of (hs_pending_requests t) j = map_of (hs_pending_requests s) j)"
proof -
  let ?u = "foldl hs_callback s (map (H2_data_chunk fl i) ds)"
  have fin: "t = hs_complete i ?u"
    using assms(4) by (simp add: hs_on_frame_recv_def has_flag_def FLAG_END_STREAM_def)
  have "r\<lparr>rq_body := []\<rparr> = r" using assms(2) by simp
  then have u: "only_request i s ?u \<and> map_of (hs_pending_requests ?u) i
      = Some (r\<lparr>rq_body := if i = 1 then [] else concat ds\<rparr>)"
    using hs_chunks [of i s fl ds] assms(1,2)
    by (cases "i = 1") (simp_all add: hs_chunks_stream_1 only_request_def hs_request_def)
  then show ?thesis
    using assms(3) by (simp add: fin hs_complete_def hs_act_def only_request_def map_simps)
qed

text \<open>
  Of the body of a response only what fits into the library's first buffer is sent: the data
  provider sets the end of file in its first call, so that a longer body arrives cut to that size.
\<close>

theorem response_body_truncated:
  "drain (response_read_callback body) (n # ns) = take n body
   \<and> (drain (response_read_callback body) (n # ns) = body \<longleftrightarrow> length body \<le> n)"
proof -
  have "drain (response_read_callback body) (n # ns) = take n body"
    by (simp add: response_read_callback_def min_def)
  moreover have "take n body = body \<longleftrightarrow> length body \<le> n" by (metis take_all_iff)
  ultimately show ?thesis by simp
qed

section \<open>Witnesses\<close>

definition sample_session :: HTTP2Session where
  "sample_session = (HTTP2Session_new ''t1'' ''secret'')
     \<lparr>hs_active := True, hs_on_request := True, hs_forwarder := Some sample_forwarder\<rparr>"

lemma sample_frame_valid: "TCPDataFrame_valid sample_data_frame" "length (data_data sample_data_frame) = 2"
  by (simp_all add: frame_valid_defs sample_data_frame_def sample_id_def)


lemma partial_frame_goes_to_http2_witness:
  "\<exists>t. hs_handle_read (\<lambda>_. ([], -1)) 0 (Some (take 5 (TCPDataFrame_serialize sample_data_frame)))
      sample_session = Inr t \<and> hs_forwarder t = Some sample_forwarder \<and> \<not> hs_active t"
  using partial_frame_goes_to_http2 [of sample_data_frame 5 "\<lambda>_. ([], -1)" "[]" "-1" 0 sample_session]
    sample_frame_valid by (auto simp: sample_session_def)

lemma request_assembly_witness:
  "hs_actions (foldl hs_callback (sample_session\<lparr>hs_pending_requests := [(3, HTTP2Request_new)]\<rparr>)
      [H2_data_chunk 0 3 [1], H2_data_chunk 0 3 [2], H2_frame H2_DATA FLAG_END_STREAM 3 False])
    = [Hs_on_request (HTTP2Request_new\<lparr>rq_body := [1, 2]\<rparr>)]"
  using request_assembly [of "sample_session\<lparr>hs_pending_requests := [(3, HTTP2Request_new)]\<rparr>" 3
      HTTP2Request_new _ 0 "[[1], [2]]" False]
  by (simp add: HTTP2Request_new_def sample_session_def HTTP2Session_new_def)


end
