(* ===== verification/Cache.thy ===== *)
theory Cache
  imports Prelude
begin

text \<open>
  \<open>src/storage/cache.h\<close>: the thread-safe map with a time to live that holds tunnels, token hashes
  and configuration. Every operation takes its lock for its whole body, so operations are atomic
  steps. A time point of \<open>steady_clock\<close> is an integer number of nanoseconds; the reading of the
  clock is an argument.
\<close>

section \<open>Operations\<close>

record 'v Entry =
  entry_value :: 'v
  expires_at :: int

record ('k, 'v) Cache =
  cache :: "('k, 'v Entry) umap"
  default_ttl :: int

definition is_expired :: "int \<Rightarrow> 'v Entry \<Rightarrow> bool" where
  "is_expired now en \<longleftrightarrow> now \<ge> expires_at en"

definition seconds :: "int \<Rightarrow> int" where
  "seconds n = n * 1000000000"

definition Cache_new :: "int \<Rightarrow> ('k, 'v) Cache" where
  "Cache_new ttl = \<lparr>cache = [], default_ttl = ttl\<rparr>"

definition Cache_put_ttl :: "int \<Rightarrow> 'k \<Rightarrow> 'v \<Rightarrow> int \<Rightarrow> ('k, 'v) Cache \<Rightarrow> ('k, 'v) Cache" where
  "Cache_put_ttl now k v ttl c =
     c\<lparr>cache := AList.update k \<lparr>entry_value = v, expires_at = now + seconds ttl\<rparr> (cache c)\<rparr>"

definition Cache_put :: "int \<Rightarrow> 'k \<Rightarrow> 'v \<Rightarrow> ('k, 'v) Cache \<Rightarrow> ('k, 'v) Cache" where
  "Cache_put now k v c = Cache_put_ttl now k v (default_ttl c) c"

definition Cache_get :: "int \<Rightarrow> 'k \<Rightarrow> ('k, 'v) Cache \<Rightarrow> 'v option" where
  "Cache_get now k c =
    (case map_of (cache c) k of
       None \<Rightarrow> None
     | Some en \<Rightarrow> if is_expired now en then None else Some (entry_value en))"

definition Cache_remove :: "'k \<Rightarrow> ('k, 'v) Cache \<Rightarrow> bool \<times> ('k, 'v) Cache" where
  "Cache_remove k c = (map_of (cache c) k \<noteq> None, c\<lparr>cache := AList.delete k (cache c)\<rparr>)"

definition Cache_contains :: "int \<Rightarrow> 'k \<Rightarrow> ('k, 'v) Cache \<Rightarrow> bool" where
  "Cache_contains now k c =
    (case map_of (cache c) k of None \<Rightarrow> False | Some en \<Rightarrow> \<not> is_expired now en)"

definition Cache_size :: "('k, 'v) Cache \<Rightarrow> nat" where
  "Cache_size c = length (cache c)"

definition Cache_clear :: "('k, 'v) Cache \<Rightarrow> ('k, 'v) Cache" where
  "Cache_clear c = c\<lparr>cache := []\<rparr>"

text \<open>The loop of \<open>cleanup\<close>, with its counter.\<close>

fun cleanup_loop :: "int \<Rightarrow> ('k, 'v Entry) umap \<Rightarrow> nat \<Rightarrow> nat \<times> ('k, 'v Entry) umap" where
  "cleanup_loop now [] removed = (removed, [])"
| "cleanup_loop now ((k, en) # m) removed =
     (if is_expired now en then cleanup_loop now m (Suc removed)
      else let (r, m') = cleanup_loop now m removed in (r, (k, en) # m'))"

definition Cache_cleanup :: "int \<Rightarrow> ('k, 'v) Cache \<Rightarrow> nat \<times> ('k, 'v) Cache" where
  "Cache_cleanup now c = (let (r, m) = cleanup_loop now (cache c) 0 in (r, c\<lparr>cache := m\<rparr>))"

text \<open>\<open>for_each\<close> walks the live entries in an unspecified order, here the list of keys \<open>ord\<close>.\<close>

definition Cache_live :: "int \<Rightarrow> 'k list \<Rightarrow> ('k, 'v) Cache \<Rightarrow> ('k \<times> 'v) list" where
  "Cache_live now ord c = concat (map (\<lambda>k.
     case Cache_get now k c of None \<Rightarrow> [] | Some v \<Rightarrow> [(k, v)]) ord)"

definition Cache_for_each :: "int \<Rightarrow> 'k list \<Rightarrow> ('s \<Rightarrow> 'k \<Rightarrow> 'v \<Rightarrow> 's) \<Rightarrow> ('k, 'v) Cache \<Rightarrow> 's \<Rightarrow> 's" where
  "Cache_for_each now ord f c s = foldl (\<lambda>s (k, v). f s k v) s (Cache_live now ord c)"

text \<open>An order in which the map can be walked: every key once.\<close>

definition walk_of :: "'k list \<Rightarrow> ('k, 'v) Cache \<Rightarrow> bool" where
  "walk_of ord c \<longleftrightarrow> distinct ord \<and> set ord = keys_of (cache c)"

definition Cache_wf :: "('k, 'v) Cache \<Rightarrow> bool" where
  "Cache_wf c \<longleftrightarrow> umap_wf (cache c)"

section \<open>The interface its clients rely on\<close>

locale ttl_store =
  fixes get :: "int \<Rightarrow> 'k \<Rightarrow> 'c \<Rightarrow> 'v option"
    and put :: "int \<Rightarrow> 'k \<Rightarrow> 'v \<Rightarrow> int \<Rightarrow> 'c \<Rightarrow> 'c"
    and remove :: "'k \<Rightarrow> 'c \<Rightarrow> 'c"
    and wf :: "'c \<Rightarrow> bool"
  assumes get_put: "wf c \<Longrightarrow> get now k (put t k' v ttl c) =
      (if k = k' then if now < t + seconds ttl then Some v else None else get now k c)"
    and get_remove: "wf c \<Longrightarrow> get now k (remove k' c) = (if k = k' then None else get now k c)"
    and get_earlier: "wf c \<Longrightarrow> get now k c = Some v \<Longrightarrow> now' \<le> now \<Longrightarrow> get now' k c = Some v"
    and wf_put: "wf c \<Longrightarrow> wf (put t k v ttl c)"
    and wf_remove: "wf c \<Longrightarrow> wf (remove k c)"
begin

lemma get_put_same: "wf c \<Longrightarrow> now < t + seconds ttl \<Longrightarrow> get now k (put t k v ttl c) = Some v"
  by (simp add: get_put)

lemma get_put_other: "wf c \<Longrightarrow> k \<noteq> k' \<Longrightarrow> get now k (put t k' v ttl c) = get now k c"
  by (simp add: get_put)

lemma get_put_put:
  "wf c \<Longrightarrow> get now j (put t k v ttl (put t' k v' ttl' c)) = get now j (put t k v ttl c)"
  by (simp add: get_put wf_put)

lemma get_remove_put: "wf c \<Longrightarrow> get now j (remove k (put t k v ttl c)) = get now j (remove k c)"
  by (simp add: get_put get_remove wf_put)

lemma get_expired: "wf c \<Longrightarrow> t + seconds ttl \<le> now \<Longrightarrow> get now k (put t k v ttl c) = None"
  by (simp add: get_put)

text \<open>An entry put with a time to live of 0 is never seen by a reader whose clock is not behind.\<close>

lemma get_put_ttl_0: "wf c \<Longrightarrow> t \<le> now \<Longrightarrow> get now k (put t k v 0 c) = None"
  by (simp add: get_put seconds_def)

end

interpretation cache_store: ttl_store Cache_get Cache_put_ttl "\<lambda>k c. snd (Cache_remove k c)" Cache_wf
  by unfold_locales
    (auto simp: Cache_get_def Cache_put_ttl_def Cache_remove_def Cache_wf_def is_expired_def map_simps
      split: option.splits if_splits)

lemma cleanup_loop_filter:
  "cleanup_loop now m r = (r + length m - length (filter (\<lambda>(k, en). \<not> is_expired now en) m),
     filter (\<lambda>(k, en). \<not> is_expired now en) m)"
proof (induction m arbitrary: r)
  case (Cons p m)
  have "length (filter (\<lambda>(k, en). \<not> is_expired now en) m) \<le> length m" by (rule length_filter_le)
  then show ?case using Cons by (cases p) (auto simp: Let_def)
qed simp

lemma Cache_cleanup_entries:
  "cache (snd (Cache_cleanup now c)) = filter (\<lambda>(k, en). \<not> is_expired now en) (cache c)"
  by (simp add: Cache_cleanup_def cleanup_loop_filter)

lemma Cache_wf_ops [simp, intro]:
  "Cache_wf (Cache_new ttl)" "Cache_wf c \<Longrightarrow> Cache_wf (Cache_put now k v c)"
  "Cache_wf c \<Longrightarrow> Cache_wf (Cache_put_ttl now k v ttl c)"
  "Cache_wf c \<Longrightarrow> Cache_wf (snd (Cache_remove k c))" "Cache_wf (Cache_clear c)"
  "Cache_wf c \<Longrightarrow> Cache_wf (snd (Cache_cleanup now c))"
  by (simp_all add: Cache_wf_def Cache_new_def Cache_put_def Cache_put_ttl_def Cache_remove_def
      Cache_clear_def Cache_cleanup_entries)

lemma Cache_contains_get: "Cache_contains now k c \<longleftrightarrow> Cache_get now k c \<noteq> None"
  by (auto simp: Cache_contains_def Cache_get_def split: option.splits)

lemma Cache_live_get:
  "walk_of ord c \<Longrightarrow> (k, v) \<in> set (Cache_live now ord c) \<longleftrightarrow> Cache_get now k c = Some v"
proof -
  assume "walk_of ord c"
  then have "k \<in> set ord" if "Cache_get now k c = Some v"
    using that keys_lookup [of k "cache c"] by (auto simp: walk_of_def Cache_get_def split: option.splits)
  moreover have "(k, v) \<in> set (Cache_live now ord c) \<longleftrightarrow> k \<in> set ord \<and> Cache_get now k c = Some v"
    by (induction ord) (auto simp: Cache_live_def split: option.splits)
  ultimately show ?thesis by blast
qed

lemma Cache_put_default_ttl [simp]:
  "default_ttl (Cache_put_ttl now k v ttl c) = default_ttl c" "default_ttl (Cache_put now k v c) = default_ttl c"
  "default_ttl (snd (Cache_remove k c)) = default_ttl c"
  by (simp_all add: Cache_put_def Cache_put_ttl_def Cache_remove_def)

lemma Cache_get_put:
  "Cache_wf c \<Longrightarrow> Cache_get now k (Cache_put t k' v c) =
     (if k = k' then if now < t + seconds (default_ttl c) then Some v else None else Cache_get now k c)"
  by (simp add: Cache_put_def cache_store.get_put)

section \<open>The abstract store and refinement\<close>

text \<open>
  What the cache promises: a map from keys to a value and the time at which it is forgotten.
  Cleaning up does nothing to it.
\<close>

datatype ('k, 'v) cache_op =
  Op_put 'k 'v int
| Op_remove 'k
| Op_clear
| Op_cleanup

fun cache_step :: "('k, 'v) Cache \<Rightarrow> int \<times> ('k, 'v) cache_op \<Rightarrow> ('k, 'v) Cache" where
  "cache_step c (t, Op_put k v ttl) = Cache_put_ttl t k v ttl c"
| "cache_step c (t, Op_remove k) = snd (Cache_remove k c)"
| "cache_step c (t, Op_clear) = Cache_clear c"
| "cache_step c (t, Op_cleanup) = snd (Cache_cleanup t c)"

fun spec_step :: "('k \<Rightarrow> ('v \<times> int) option) \<Rightarrow> int \<times> ('k, 'v) cache_op \<Rightarrow> 'k \<Rightarrow> ('v \<times> int) option" where
  "spec_step m (t, Op_put k v ttl) = m(k := Some (v, t + seconds ttl))"
| "spec_step m (t, Op_remove k) = m(k := None)"
| "spec_step m (t, Op_clear) = (\<lambda>k. None)"
| "spec_step m (t, Op_cleanup) = m"

definition spec_get :: "int \<Rightarrow> 'k \<Rightarrow> ('k \<Rightarrow> ('v \<times> int) option) \<Rightarrow> 'v option" where
  "spec_get now k m = (case m k of Some (v, t) \<Rightarrow> if now < t then Some v else None | None \<Rightarrow> None)"

text \<open>The simulation relation: from \<open>t\<close> on, both give the same answers and forget at the same time.\<close>

definition cache_rel :: "int \<Rightarrow> ('k, 'v) Cache \<Rightarrow> ('k \<Rightarrow> ('v \<times> int) option) \<Rightarrow> bool" where
  "cache_rel t c m \<longleftrightarrow> Cache_wf c \<and> (\<forall>k now. t \<le> now \<longrightarrow> Cache_get now k c = spec_get now k m)"

lemma Cache_get_cleanup:
  "Cache_wf c \<Longrightarrow> t \<le> now \<Longrightarrow> Cache_get now k (snd (Cache_cleanup t c)) = Cache_get now k c"
  by (auto simp: Cache_get_def Cache_cleanup_entries Cache_wf_def map_of_filter_wf is_expired_def
      split: option.splits)

lemma cache_rel_step:
  assumes "cache_rel t c m" "t \<le> t'"
  shows "cache_rel t' (cache_step c (t', op)) (spec_step m (t', op))"
proof (cases op)
  case (Op_put k v ttl)
  then show ?thesis using assms
    by (auto simp: cache_rel_def cache_store.get_put spec_get_def)
next
  case (Op_remove k)
  then show ?thesis using assms
    by (auto simp: cache_rel_def cache_store.get_remove spec_get_def)
next
  case Op_clear
  then show ?thesis by (simp add: cache_rel_def spec_get_def Cache_get_def Cache_clear_def Cache_wf_def)
next
  case Op_cleanup
  then show ?thesis using assms by (auto simp: cache_rel_def Cache_get_cleanup)
qed

lemma cache_rel_run:
  assumes "cache_rel t c m" "sorted (t # map fst ops)"
  shows "cache_rel (last (t # map fst ops)) (foldl cache_step c ops) (foldl spec_step m ops)"
  using assms
proof (induction ops arbitrary: t c m)
  case (Cons op ops)
  obtain t' o' where op: "op = (t', o')" by (cases op)
  have "cache_rel t' (cache_step c op) (spec_step m op)"
    using Cons.prems by (simp add: op cache_rel_step)
  then show ?case using Cons.IH Cons.prems(2) by (simp add: op)
qed simp


text \<open>
  \<open>cleanup\<close> returns the number of entries by which the cache shrinks and leaves exactly the
  live ones: nothing that a later lookup or walk could have seen is lost.
\<close>

theorem cleanup_exact:
  assumes "Cache_wf c" "Cache_cleanup t c = (n, c')"
  shows "Cache_size c' + n = Cache_size c
    \<and> (\<forall>k \<in> keys_of (cache c'). Cache_get t k c' \<noteq> None)
    \<and> (\<forall>k now. t \<le> now \<longrightarrow> Cache_get now k c' = Cache_get now k c)"
proof -
  have c': "c' = snd (Cache_cleanup t c)" and n: "n = fst (Cache_cleanup t c)" using assms(2) by simp_all
  have "length (filter (\<lambda>(k, en). \<not> is_expired t en) (cache c)) \<le> length (cache c)"
    by (rule length_filter_le)
  then have "Cache_size c' + n = Cache_size c"
    by (simp add: n c' Cache_size_def Cache_cleanup_def cleanup_loop_filter)
  moreover have "Cache_get t k c' \<noteq> None" if "k \<in> keys_of (cache c')" for k
    using that assms(1) unfolding keys_lookup c' Cache_cleanup_entries
    by (auto simp: Cache_get_def Cache_cleanup_entries Cache_wf_def map_of_filter_wf split: option.splits if_splits)
  ultimately show ?thesis using assms(1) by (simp add: c' Cache_get_cleanup)
qed

section \<open>Witnesses\<close>


lemma cleanup_exact_witness:
  "\<exists>n c'. Cache_cleanup 20 (Cache_put_ttl 10 ''a'' True 0 (Cache_new 60)) = (n, c')
     \<and> Cache_size c' + n = Cache_size (Cache_put_ttl 10 ''a'' True 0 (Cache_new 60))"
  using cleanup_exact [of "Cache_put_ttl 10 ''a'' True 0 (Cache_new 60)" 20]
  by (cases "Cache_cleanup 20 (Cache_put_ttl 10 ''a'' True 0 (Cache_new 60))") auto

end
