(* ===== verification/Tunnel_Model.thy ===== *)
theory Tunnel_Model
  imports Cpp_String Complex_Main
begin

text \<open>
  \<open>src/models\<close>: the entities of the server. A JSON value of nlohmann/json is a tree; writing a
  member replaces it, reading a missing member or a member of another type throws. The text form
  (\<open>dump\<close>, \<open>parse\<close>) is the library's and stays outside. Time points are nanoseconds.
\<close>

section \<open>JSON values\<close>

datatype json =
  J_null
| J_bool bool
| J_int int
| J_num rat
| J_str string
| J_arr "json list"
| J_obj "(string \<times> json) list"

fun jset :: "string \<Rightarrow> json \<Rightarrow> json \<Rightarrow> json" where
  "jset k v (J_obj m) = J_obj (AList.update k v m)"
| "jset k v j = J_obj [(k, v)]"

fun jget :: "string \<Rightarrow> json \<Rightarrow> json" where
  "jget k (J_obj m) = (case map_of m k of Some v \<Rightarrow> v | None \<Rightarrow> J_null)"
| "jget k j = J_null"

definition type_error :: cpp_error where
  "type_error = Runtime_error ''type_error''"

fun json_string :: "json \<Rightarrow> string result" where
  "json_string (J_str s) = Inr s"
| "json_string j = Inl type_error"

text \<open>
  \<open>get<int64_t>\<close> cuts off the fraction of a number; \<open>get\<close> of another arithmetic type also takes a
  truth value. (A floating-point number is its value.)
\<close>

definition cut :: "rat \<Rightarrow> int" where
  "cut q = (if q < 0 then - \<lfloor>- q\<rfloor> else \<lfloor>q\<rfloor>)"

fun json_int :: "json \<Rightarrow> int result" where
  "json_int (J_int i) = Inr i"
| "json_int (J_num q) = Inr (cut q)"
| "json_int j = Inl type_error"

fun json_arith :: "json \<Rightarrow> int result" where
  "json_arith (J_bool b) = Inr (if b then 1 else 0)"
| "json_arith j = json_int j"

fun json_strings :: "json list \<Rightarrow> string list result" where
  "json_strings [] = Inr []"
| "json_strings (j # js) = bind_result (json_string j) (\<lambda>s.
     bind_result (json_strings js) (\<lambda>ss. Inr (s # ss)))"

fun json_string_list :: "json \<Rightarrow> string list result" where
  "json_string_list (J_arr js) = json_strings js"
| "json_string_list j = Inl type_error"

lemma jget_jset [simp]: "jget k (jset k' v j) = (if k = k' then v else case j of J_obj m \<Rightarrow> jget k j | _ \<Rightarrow> J_null)"
  by (cases j) (auto simp: map_simps)

lemma jset_obj [simp]: "jset k v J_null = J_obj [(k, v)]"
  by simp

lemma json_strings_map [simp]: "json_strings (map J_str ss) = Inr ss"
  by (induction ss) simp_all

text \<open>\<open>duration_cast\<close> to a coarser unit truncates towards zero.\<close>

definition trunc_div :: "int \<Rightarrow> int \<Rightarrow> int" where
  "trunc_div a b = (if a < 0 then - ((- a) div b) else a div b)"

definition to_ms :: "int \<Rightarrow> int" where
  "to_ms t = trunc_div t 1000000"

lemma to_ms_mult [simp]: "to_ms (n * 1000000) = n"
  using nonzero_mult_div_cancel_right [of 1000000 "- n"] by (simp add: to_ms_def trunc_div_def)

section \<open>Tunnels\<close>

datatype TunnelProtocol = HTTP | TCP

datatype TunnelStatus = INACTIVE | ACTIVE | SUSPENDED

record Tunnel =
  tunnel_id :: string
  protocol :: TunnelProtocol
  target_host :: string
  target_port :: u16
  ip_allowlist :: "string list"
  rate_limit_rpm :: u32
  created_at :: int
  updated_at :: int
  status :: TunnelStatus

definition lower_alnum :: "char \<Rightarrow> bool" where
  "lower_alnum c \<longleftrightarrow> (let n = of_char c :: nat in (97 \<le> n \<and> n \<le> 122) \<or> (48 \<le> n \<and> n \<le> 57))"

text \<open>The regular expression \<open>^[a-z0-9]([a-z0-9-]*[a-z0-9])?$\<close>, matched against the whole string.\<close>

definition tunnel_id_pattern :: "string \<Rightarrow> bool" where
  "tunnel_id_pattern s \<longleftrightarrow> s \<noteq> [] \<and> lower_alnum (hd s)
     \<and> (tl s = [] \<or> (list_all (\<lambda>c. lower_alnum c \<or> c = CHR ''-'') (butlast (tl s)) \<and> lower_alnum (last (tl s))))"

definition is_valid_tunnel_id :: "string \<Rightarrow> bool" where
  "is_valid_tunnel_id s \<longleftrightarrow> \<not> (length s < 3 \<or> length s > 63) \<and> tunnel_id_pattern s"

fun check_cidrs :: "string list \<Rightarrow> unit result" where
  "check_cidrs [] = Inr ()"
| "check_cidrs (c # cs) =
     (if c = [] \<or> find_char CHR ''/'' c = None
      then Inl (Runtime_error (''Invalid CIDR format in ip_allowlist: '' @ c)) else check_cidrs cs)"

definition Tunnel_validate :: "Tunnel \<Rightarrow> unit result" where
  "Tunnel_validate t =
    (if \<not> is_valid_tunnel_id (tunnel_id t)
     then Inl (Runtime_error ''tunnel_id must be 3-63 characters, lowercase alphanumeric with hyphens'')
     else if target_host t = [] then Inl (Runtime_error ''target_host cannot be empty'')
     else if target_port t = 0 then Inl (Runtime_error ''target_port must be between 1 and 65535'')
     else if rate_limit_rpm t > 1000000 then Inl (Runtime_error ''rate_limit_rpm cannot exceed 1,000,000'')
     else check_cidrs (ip_allowlist t))"

definition is_ip_allowed :: "Tunnel \<Rightarrow> string \<Rightarrow> bool" where
  "is_ip_allowed t ip \<longleftrightarrow> ip_allowlist t = []
     \<or> list_ex (\<lambda>cidr. cidr = ip \<or> cidr = ''0.0.0.0/0'' \<or> cidr = ''::/0'') (ip_allowlist t)"

definition Tunnel_to_json :: "Tunnel \<Rightarrow> json" where
  "Tunnel_to_json t =
     jset ''status'' (J_str (case status t of
        INACTIVE \<Rightarrow> ''INACTIVE'' | ACTIVE \<Rightarrow> ''ACTIVE'' | SUSPENDED \<Rightarrow> ''SUSPENDED''))
    (jset ''updated_at'' (J_int (to_ms (updated_at t)))
    (jset ''created_at'' (J_int (to_ms (created_at t)))
    (jset ''rate_limit_rpm'' (J_int (uint (rate_limit_rpm t)))
    (jset ''ip_allowlist'' (J_arr (map J_str (ip_allowlist t)))
    (jset ''target_port'' (J_int (uint (target_port t)))
    (jset ''target_host'' (J_str (target_host t))
    (jset ''protocol'' (J_str (if protocol t = HTTP then ''HTTP'' else ''TCP''))
    (jset ''tunnel_id'' (J_str (tunnel_id t)) J_null))))))))"

definition Tunnel_from_json :: "json \<Rightarrow> Tunnel result" where
  "Tunnel_from_json j =
    bind_result (json_string (jget ''tunnel_id'' j)) (\<lambda>tid.
    bind_result (json_string (jget ''protocol'' j)) (\<lambda>protocol_str.
    bind_result (json_string (jget ''target_host'' j)) (\<lambda>host.
    bind_result (json_arith (jget ''target_port'' j)) (\<lambda>port.
    bind_result (json_string_list (jget ''ip_allowlist'' j)) (\<lambda>allow.
    bind_result (json_arith (jget ''rate_limit_rpm'' j)) (\<lambda>rpm.
    bind_result (json_int (jget ''created_at'' j)) (\<lambda>created.
    bind_result (json_int (jget ''updated_at'' j)) (\<lambda>updated.
    bind_result (json_string (jget ''status'' j)) (\<lambda>status_str.
      Inr \<lparr>tunnel_id = tid, protocol = (if protocol_str = ''HTTP'' then HTTP else TCP),
           target_host = host, target_port = word_of_int port, ip_allowlist = allow,
           rate_limit_rpm = word_of_int rpm, created_at = created * 1000000,
           updated_at = updated * 1000000,
           status = (if status_str = ''ACTIVE'' then ACTIVE
             else if status_str = ''SUSPENDED'' then SUSPENDED else INACTIVE)\<rparr>)))))))))"

text \<open>
  A tunnel is recovered from its JSON form, up to the part of its time points below a
  millisecond.
\<close>

theorem tunnel_json_round_trip:
  "Tunnel_from_json (Tunnel_to_json t)
    = Inr (t\<lparr>created_at := to_ms (created_at t) * 1000000, updated_at := to_ms (updated_at t) * 1000000\<rparr>)"
  by (cases t) (auto simp: Tunnel_from_json_def Tunnel_to_json_def split: TunnelStatus.splits,
      (metis TunnelProtocol.exhaust)+)

section \<open>Requests\<close>

datatype RequestState = PENDING | IN_PROGRESS | COMPLETED | FAILED | TIMEOUT

record TunnelRequest =
  tr_request_id :: string
  tr_tunnel_id :: string
  tr_agent_id :: string
  tr_method :: string
  tr_path :: string
  tr_headers :: "(string, string) umap"
  tr_state :: RequestState
  tr_created_at :: int
  tr_completed_at :: int
  tr_request_size_bytes :: nat
  tr_response_size_bytes :: nat
  tr_response_status_code :: nat
  tr_tcp_connection_id :: string
  tr_tcp_bytes_sent :: nat
  tr_tcp_bytes_received :: nat
  tr_tcp_target_port :: u16
  tr_tcp_connection_state :: string
  tr_tcp_last_activity :: int

definition duration_ms :: "int \<Rightarrow> TunnelRequest \<Rightarrow> int" where
  "duration_ms now r =
    (if tr_state r = PENDING \<or> tr_state r = IN_PROGRESS then to_ms (now - tr_created_at r)
     else to_ms (tr_completed_at r - tr_created_at r))"

definition is_timed_out :: "int \<Rightarrow> u32 \<Rightarrow> TunnelRequest \<Rightarrow> bool" where
  "is_timed_out now timeout_ms r =
    (if tr_state r = COMPLETED \<or> tr_state r = FAILED \<or> tr_state r = TIMEOUT then False
     else duration_ms now r > uint timeout_ms)"

fun RequestState_string :: "RequestState \<Rightarrow> string" where
  "RequestState_string PENDING = ''PENDING''"
| "RequestState_string IN_PROGRESS = ''IN_PROGRESS''"
| "RequestState_string COMPLETED = ''COMPLETED''"
| "RequestState_string FAILED = ''FAILED''"
| "RequestState_string TIMEOUT = ''TIMEOUT''"

definition TunnelRequest_tcp_json :: "TunnelRequest \<Rightarrow> json" where
  "TunnelRequest_tcp_json r =
    (let tcp = jset ''connection_state'' (J_str (tr_tcp_connection_state r))
           (jset ''target_port'' (J_int (uint (tr_tcp_target_port r)))
           (jset ''bytes_received'' (J_int (int (tr_tcp_bytes_received r)))
           (jset ''bytes_sent'' (J_int (int (tr_tcp_bytes_sent r)))
           (jset ''connection_id'' (J_str (tr_tcp_connection_id r)) J_null))))
     in if tr_tcp_last_activity r > 0
        then jset ''last_activity'' (J_int (to_ms (tr_tcp_last_activity r))) tcp else tcp)"

definition TunnelRequest_to_json :: "int \<Rightarrow> TunnelRequest \<Rightarrow> json" where
  "TunnelRequest_to_json now r =
    (let j1 = jset ''state'' (J_str (RequestState_string (tr_state r)))
             (jset ''path'' (J_str (tr_path r)) (jset ''method'' (J_str (tr_method r))
             (jset ''agent_id'' (J_str (tr_agent_id r)) (jset ''tunnel_id'' (J_str (tr_tunnel_id r))
             (jset ''request_id'' (J_str (tr_request_id r)) J_null)))));
         j2 = jset ''created_at'' (J_int (to_ms (tr_created_at r))) j1;
         j3 = (if tr_state r \<noteq> PENDING \<and> tr_state r \<noteq> IN_PROGRESS
               then jset ''completed_at'' (J_int (to_ms (tr_completed_at r))) j2 else j2);
         j4 = jset ''duration_ms'' (J_int (duration_ms now r))
             (jset ''response_size_bytes'' (J_int (int (tr_response_size_bytes r)))
             (jset ''request_size_bytes'' (J_int (int (tr_request_size_bytes r))) j3));
         j5 = (if tr_response_status_code r > 0
               then jset ''response_status_code'' (J_int (int (tr_response_status_code r))) j4 else j4)
     in if tr_tcp_connection_id r \<noteq> [] then jset ''tcp'' (TunnelRequest_tcp_json r) j5 else j5)"

lemma timed_out_only_open: "is_timed_out now ms r \<Longrightarrow> tr_state r = PENDING \<or> tr_state r = IN_PROGRESS"
  by (cases "tr_state r") (simp_all add: is_timed_out_def)

section \<open>Audit events\<close>

datatype AuditEventType = TUNNEL_CREATED | TUNNEL_DELETED | TUNNEL_SUSPENDED | TUNNEL_RESUMED
  | TOKEN_GENERATED | TOKEN_ROTATED | AGENT_CONNECTED | AGENT_DISCONNECTED | AUTH_FAILED
  | IP_BLOCKED | RATE_LIMIT_EXCEEDED | REQUEST_PROXIED | ERROR_OCCURRED

datatype AuditSeverity = INFO | WARNING | ERROR | CRITICAL

record AuditEvent =
  ae_event_id :: string
  ae_event_type :: AuditEventType
  ae_severity :: AuditSeverity
  ae_tunnel_id :: string
  ae_agent_id :: string
  ae_source_ip :: string
  ae_user_id :: string
  ae_message :: string
  ae_metadata :: "(string \<times> string) list"
  ae_timestamp :: int

definition AuditEvent_create ::
  "int \<Rightarrow> AuditEventType \<Rightarrow> AuditSeverity \<Rightarrow> string \<Rightarrow> string \<Rightarrow> string \<Rightarrow> AuditEvent" where
  "AuditEvent_create now ty sev message tid source_ip =
     \<lparr>ae_event_id = ''audit_'' @ int_string (to_ms now), ae_event_type = ty, ae_severity = sev,
      ae_tunnel_id = tid, ae_agent_id = '''', ae_source_ip = source_ip, ae_user_id = '''',
      ae_message = message, ae_metadata = [], ae_timestamp = now\<rparr>"

fun event_type_string :: "AuditEventType \<Rightarrow> string" where
  "event_type_string TUNNEL_CREATED = ''TUNNEL_CREATED''"
| "event_type_string TUNNEL_DELETED = ''TUNNEL_DELETED''"
| "event_type_string TUNNEL_SUSPENDED = ''TUNNEL_SUSPENDED''"
| "event_type_string TUNNEL_RESUMED = ''TUNNEL_RESUMED''"
| "event_type_string TOKEN_GENERATED = ''TOKEN_GENERATED''"
| "event_type_string TOKEN_ROTATED = ''TOKEN_ROTATED''"
| "event_type_string AGENT_CONNECTED = ''AGENT_CONNECTED''"
| "event_type_string AGENT_DISCONNECTED = ''AGENT_DISCONNECTED''"
| "event_type_string AUTH_FAILED = ''AUTH_FAILED''"
| "event_type_string IP_BLOCKED = ''IP_BLOCKED''"
| "event_type_string RATE_LIMIT_EXCEEDED = ''RATE_LIMIT_EXCEEDED''"
| "event_type_string REQUEST_PROXIED = ''REQUEST_PROXIED''"
| "event_type_string ERROR_OCCURRED = ''ERROR_OCCURRED''"

fun severity_string :: "AuditSeverity \<Rightarrow> string" where
  "severity_string INFO = ''INFO''"
| "severity_string WARNING = ''WARNING''"
| "severity_string ERROR = ''ERROR''"
| "severity_string CRITICAL = ''CRITICAL''"

definition jset_nonempty :: "string \<Rightarrow> string \<Rightarrow> json \<Rightarrow> json" where
  "jset_nonempty k v j = (if v \<noteq> [] then jset k (J_str v) j else j)"

definition AuditEvent_to_json :: "AuditEvent \<Rightarrow> json" where
  "AuditEvent_to_json a =
    (let j1 = jset ''timestamp'' (J_int (to_ms (ae_timestamp a)))
             (jset ''message'' (J_str (ae_message a))
             (jset ''severity'' (J_str (severity_string (ae_severity a)))
             (jset ''event_type'' (J_str (event_type_string (ae_event_type a)))
             (jset ''event_id'' (J_str (ae_event_id a)) J_null))));
         j2 = jset_nonempty ''user_id'' (ae_user_id a) (jset_nonempty ''source_ip'' (ae_source_ip a)
             (jset_nonempty ''agent_id'' (ae_agent_id a) (jset_nonempty ''tunnel_id'' (ae_tunnel_id a) j1)))
     in if ae_metadata a \<noteq> []
        then jset ''metadata'' (foldl (\<lambda>m (k, v). jset k (J_str v) m) J_null (ae_metadata a)) j2
        else j2)"

end
