(* ===== verification/Ip_Allowlist.thy ===== *)
theory Ip_Allowlist
  imports Tunnel_Model
begin

text \<open>
  \<open>src/security/ip_allowlist.{h,cpp}\<close>: parsing of CIDR ranges and the decision whether an address is
  allowed. \<open>inet_pton\<close> and \<open>inet_ntop\<close> of the C library are arguments, collected in a record; what
  the code relies on is that a parsed address has 4 or 16 bytes.
\<close>

section \<open>The C library\<close>

record inet =
  pton4 :: "string \<Rightarrow> bytes option"
  pton6 :: "string \<Rightarrow> bytes option"
  ntop4 :: "bytes \<Rightarrow> string"
  ntop6 :: "bytes \<Rightarrow> string"

definition inet_ok :: "inet \<Rightarrow> bool" where
  "inet_ok n \<longleftrightarrow> (\<forall>s bs. pton4 n s = Some bs \<longrightarrow> length bs = 4) \<and> (\<forall>s bs. pton6 n s = Some bs \<longrightarrow> length bs = 16)"

text \<open>\<open>c_str()\<close> as the C functions see it: up to the first NUL.\<close>

definition c_str :: "string \<Rightarrow> string" where
  "c_str s = takeWhile (\<lambda>c. c \<noteq> CHR 0x00) s"

section \<open>Ranges\<close>

datatype IPType = IPv4 | IPv6

record CIDRRange =
  range_type :: IPType
  network :: bytes
  prefix_length :: u8

type_synonym IPAllowlist = "CIDRRange list"

definition parse_ipv4 :: "inet \<Rightarrow> string \<Rightarrow> bytes option" where
  "parse_ipv4 n s = pton4 n (c_str s)"

definition parse_ipv6 :: "inet \<Rightarrow> string \<Rightarrow> bytes option" where
  "parse_ipv6 n s = pton6 n (c_str s)"

definition prefix_mask :: "nat \<Rightarrow> u8" where
  "prefix_mask r = push_bit (8 - r) 0xFF"

definition matches_cidr :: "bytes \<Rightarrow> CIDRRange \<Rightarrow> bool" where
  "matches_cidr ip_bytes rng =
    (if length ip_bytes \<noteq> length (network rng) then False
     else let full_bytes = unat (prefix_length rng) div 8;
              remaining_bits = unat (prefix_length rng) mod 8
          in if \<not> list_all (\<lambda>i. ip_bytes ! i = network rng ! i) [0..<full_bytes] then False
             else if remaining_bits > 0 \<and> full_bytes < length ip_bytes
             then ip_bytes ! full_bytes AND prefix_mask remaining_bits
                    = network rng ! full_bytes AND prefix_mask remaining_bits
             else True)"

text \<open>The loop that clears the host bits.\<close>

definition zero_host_bits :: "nat \<Rightarrow> bytes \<Rightarrow> bytes" where
  "zero_host_bits prefix bs =
    (let full_bytes = prefix div 8; remaining_bits = prefix mod 8
     in map (\<lambda>i. if i < full_bytes then bs ! i
                 else if i = full_bytes \<and> remaining_bits > 0 then bs ! i AND prefix_mask remaining_bits
                 else 0) [0..<length bs])"

definition parse_cidr :: "inet \<Rightarrow> string \<Rightarrow> CIDRRange option" where
  "parse_cidr n s =
    (case find_char CHR ''/'' s of
       None \<Rightarrow>
         (case parse_ipv4 n s of
            Some bs \<Rightarrow> Some \<lparr>range_type = IPv4, network = bs, prefix_length = 32\<rparr>
          | None \<Rightarrow> map_option (\<lambda>bs. \<lparr>range_type = IPv6, network = bs, prefix_length = 128\<rparr>) (parse_ipv6 n s))
     | Some slash_pos \<Rightarrow>
         let ip_part = take slash_pos s; prefix_part = drop (slash_pos + 1) s
         in case stoi 10 prefix_part of
              Inl err \<Rightarrow> None
            | Inr p \<Rightarrow>
                (case parse_ipv4 n ip_part of
                   Some bs \<Rightarrow>
                     if p < 0 \<or> p > 32 then None
                     else Some \<lparr>range_type = IPv4, network = zero_host_bits (nat p) bs, prefix_length = word_of_int p\<rparr>
                 | None \<Rightarrow>
                     (case parse_ipv6 n ip_part of
                        Some bs \<Rightarrow>
                          if p < 0 \<or> p > 128 then None
                          else Some \<lparr>range_type = IPv6, network = zero_host_bits (nat p) bs, prefix_length = word_of_int p\<rparr>
                      | None \<Rightarrow> None)))"

section \<open>The allowlist\<close>

definition add_cidr :: "inet \<Rightarrow> string \<Rightarrow> IPAllowlist \<Rightarrow> bool \<times> IPAllowlist" where
  "add_cidr n s ranges = (case parse_cidr n s of None \<Rightarrow> (False, ranges) | Some r \<Rightarrow> (True, ranges @ [r]))"

definition add_ip :: "inet \<Rightarrow> string \<Rightarrow> IPAllowlist \<Rightarrow> bool \<times> IPAllowlist" where
  "add_ip n s ranges =
    (case parse_ipv4 n s of
       Some bs \<Rightarrow> (True, ranges @ [\<lparr>range_type = IPv4, network = bs, prefix_length = 32\<rparr>])
     | None \<Rightarrow>
         (case parse_ipv6 n s of
            Some bs \<Rightarrow> (True, ranges @ [\<lparr>range_type = IPv6, network = bs, prefix_length = 128\<rparr>])
          | None \<Rightarrow> (False, ranges)))"

fun from_cidr_list_loop :: "inet \<Rightarrow> string list \<Rightarrow> IPAllowlist \<Rightarrow> IPAllowlist option" where
  "from_cidr_list_loop n [] l = Some l"
| "from_cidr_list_loop n (c # cs) l =
     (case add_cidr n c l of (ok, l') \<Rightarrow> if ok then from_cidr_list_loop n cs l' else None)"

definition from_cidr_list :: "inet \<Rightarrow> string list \<Rightarrow> IPAllowlist option" where
  "from_cidr_list n cs = from_cidr_list_loop n cs []"

definition is_allowed :: "inet \<Rightarrow> IPAllowlist \<Rightarrow> string \<Rightarrow> bool" where
  "is_allowed n ranges ip =
    (if ranges = [] then True
     else case parse_ipv4 n ip of
       Some bs \<Rightarrow> list_ex (\<lambda>r. range_type r = IPv4 \<and> matches_cidr bs r) ranges
     | None \<Rightarrow>
         (case parse_ipv6 n ip of
            Some bs \<Rightarrow> list_ex (\<lambda>r. range_type r = IPv6 \<and> matches_cidr bs r) ranges
          | None \<Rightarrow> False))"

definition cidr_to_string :: "inet \<Rightarrow> CIDRRange \<Rightarrow> string" where
  "cidr_to_string n r =
     (case range_type r of IPv4 \<Rightarrow> ntop4 n (network r) | IPv6 \<Rightarrow> ntop6 n (network r))
       @ ''/'' @ nat_string (unat (prefix_length r))"

definition to_strings :: "inet \<Rightarrow> IPAllowlist \<Rightarrow> string list" where
  "to_strings n ranges = map (cidr_to_string n) ranges"

definition IPAllowlist_is_empty :: "IPAllowlist \<Rightarrow> bool" where
  "IPAllowlist_is_empty ranges \<longleftrightarrow> ranges = []"

definition IPAllowlist_size :: "IPAllowlist \<Rightarrow> nat" where
  "IPAllowlist_size ranges = length ranges"

definition IPAllowlist_clear :: "IPAllowlist \<Rightarrow> IPAllowlist" where
  "IPAllowlist_clear ranges = []"

text \<open>
  \<open>HTTPProxy\<close> and \<open>TCPProxy\<close> decide on a tunnel's list alike: no list allows everyone, a list that
  does not parse allows no one.
\<close>

definition validate_ip_allowlist :: "inet \<Rightarrow> Tunnel \<Rightarrow> string \<Rightarrow> bool" where
  "validate_ip_allowlist n t client_ip =
    (if ip_allowlist t = [] then True
     else case from_cidr_list n (ip_allowlist t) of None \<Rightarrow> False | Some l \<Rightarrow> is_allowed n l client_ip)"

section \<open>Bits of an address\<close>

text \<open>The bits of an address in the order of the text form, most significant first.\<close>

definition addr_bit :: "bytes \<Rightarrow> nat \<Rightarrow> bool" where
  "addr_bit bs i = bit (bs ! (i div 8)) (7 - i mod 8)"

definition range_wf :: "CIDRRange \<Rightarrow> bool" where
  "range_wf r \<longleftrightarrow> unat (prefix_length r) \<le> 8 * length (network r)"

lemma bit_prefix_mask: "r < 8 \<Longrightarrow> bit (prefix_mask r) j \<longleftrightarrow> 8 - r \<le> j \<and> j < 8"
proof -
  have "(0xFF :: u8) = - 1" by simp
  then have "prefix_mask r = push_bit (8 - r) (- 1)" unfolding prefix_mask_def by (rule arg_cong)
  then show "r < 8 \<Longrightarrow> ?thesis" by (auto simp: bit_simps)
qed

lemma byte_eq_bits: "(a :: u8) = b \<longleftrightarrow> (\<forall>j<8. bit a (7 - j) = bit b (7 - j))"
proof
  assume *: "\<forall>j<8. bit a (7 - j) = bit b (7 - j)"
  show "a = b"
  proof (rule bit_word_eqI)
    fix n assume "n < LENGTH(8)"
    then show "bit a n = bit b n" using *[rule_format, of "7 - n"] by simp
  qed
qed simp

lemma masked_eq_bits:
  assumes "r < 8"
  shows "(a :: u8) AND prefix_mask r = b AND prefix_mask r \<longleftrightarrow> (\<forall>j<r. bit a (7 - j) = bit b (7 - j))"
proof
  assume "a AND prefix_mask r = b AND prefix_mask r"
  then have *: "bit (a AND prefix_mask r) k = bit (b AND prefix_mask r) k" for k by simp
  show "\<forall>j<r. bit a (7 - j) = bit b (7 - j)"
  proof (intro allI impI)
    fix j assume "j < r"
    then have "8 - r \<le> 7 - j" using assms by auto
    then show "bit a (7 - j) = bit b (7 - j)"
      using *[of "7 - j"] less_imp_diff_less [of 7 8 j] by (simp add: bit_and_iff bit_prefix_mask [OF assms])
  qed
next
  assume *: "\<forall>j<r. bit a (7 - j) = bit b (7 - j)"
  show "a AND prefix_mask r = b AND prefix_mask r"
  proof (rule bit_word_eqI)
    fix k assume "k < LENGTH(8)"
    then show "bit (a AND prefix_mask r) k = bit (b AND prefix_mask r) k"
      using *[rule_format, of "7 - k"] assms by (auto simp: bit_and_iff bit_prefix_mask)
  qed
qed

text \<open>The first \<open>p\<close> bits are the whole bytes before them and the first bits of the next one.\<close>

lemma prefix_bits_split:
  "(\<forall>i<p. P (i div 8) (i mod 8)) \<longleftrightarrow>
     (\<forall>b<p div 8. \<forall>j<8. P b j) \<and> (\<forall>j<p mod 8. P (p div 8) (j :: nat))" (is "?L \<longleftrightarrow> ?R")
proof
  assume L: ?L
  have "P b j" if "b < p div 8" "j < 8" for b j
    using L[rule_format, of "8 * b + j"] that by simp
  moreover have "P (p div 8) j" if "j < p mod 8" for j
    using L[rule_format, of "8 * (p div 8) + j"] that mult_div_mod_eq [of 8 p] by simp
  ultimately show ?R by blast
next
  assume R: ?R
  show ?L
  proof (intro allI impI)
    fix i assume "i < p"
    then have "i div 8 \<le> p div 8" by (simp add: div_le_mono)
    then consider "i div 8 < p div 8" | "i div 8 = p div 8" by linarith
    then show "P (i div 8) (i mod 8)"
    proof cases
      case 2
      then have "i mod 8 < p mod 8" using \<open>i < p\<close> by (metis add_less_cancel_left mult_div_mod_eq)
      then show ?thesis using R 2 by simp
    qed (use R in simp)
  qed
qed

lemma prefix_byte_in_range:
  assumes "p \<le> 8 * n" "0 < p mod 8"
  shows "p div 8 < (n :: nat)"
proof -
  have "8 * (p div 8) < p" using assms(2) mult_div_mod_eq [of 8 p] by linarith
  with assms(1) show ?thesis by linarith
qed

lemma compared_bytes_bits:
  assumes "p \<le> 8 * length net" "length bs = length net"
  shows "list_all (\<lambda>i. bs ! i = net ! i) [0..<p div 8]
      \<and> (0 < p mod 8 \<and> p div 8 < length bs \<longrightarrow>
          bs ! (p div 8) AND prefix_mask (p mod 8) = net ! (p div 8) AND prefix_mask (p mod 8))
    \<longleftrightarrow> (\<forall>i<p. addr_bit bs i = addr_bit net i)" (is "?full \<and> ?rest \<longleftrightarrow> _")
proof -
  have full: "?full \<longleftrightarrow> (\<forall>b<p div 8. \<forall>j<8. bit (bs ! b) (7 - j) = bit (net ! b) (7 - j))"
    unfolding byte_eq_bits [symmetric] list_all_iff set_upt by (auto simp only: atLeast0LessThan lessThan_iff Ball_def)
  have rest: "?rest \<longleftrightarrow> (\<forall>j<p mod 8. bit (bs ! (p div 8)) (7 - j) = bit (net ! (p div 8)) (7 - j))"
  proof (cases "0 < p mod 8")
    case True
    then have "p div 8 < length bs" using prefix_byte_in_range assms by metis
    moreover have "p mod 8 < 8" by simp
    ultimately show ?thesis using True masked_eq_bits [of "p mod 8"] by blast
  qed simp
  show ?thesis
    unfolding full rest addr_bit_def
    by (rule prefix_bits_split [of p "\<lambda>b j. bit (bs ! b) (7 - j) = bit (net ! b) (7 - j)", symmetric])
qed

lemma matches_cidr_bits:
  assumes "range_wf r"
  shows "matches_cidr bs r \<longleftrightarrow> length bs = length (network r)
    \<and> (\<forall>i < unat (prefix_length r). addr_bit bs i = addr_bit (network r) i)"
proof (cases "length bs = length (network r)")
  case True
  define p where "p = unat (prefix_length r)"
  have "p \<le> 8 * length (network r)" using assms by (simp add: range_wf_def p_def)
  then show ?thesis
    using compared_bytes_bits [OF _ True, of p] True
    by (simp only: matches_cidr_def Let_def p_def [symmetric] not_True_eq_False if_False) auto
qed (simp add: matches_cidr_def)

text \<open>
  An address matches a range exactly when it has the length of the range's network and agrees
  with it in the first \<open>prefix_length\<close> bits.
\<close>

theorem matches_cidr_prefix:
  assumes "unat (prefix_length r) \<le> 8 * length (network r)"
  shows "matches_cidr bs r \<longleftrightarrow> length bs = length (network r)
    \<and> (\<forall>i < unat (prefix_length r). addr_bit bs i = addr_bit (network r) i)"
  using assms by (simp add: matches_cidr_bits range_wf_def)

section \<open>The meaning of a CIDR string\<close>

text \<open>The family, the address as written and the prefix length of a CIDR string.\<close>

definition cidr_spec :: "inet \<Rightarrow> string \<Rightarrow> (IPType \<times> bytes \<times> nat) option" where
  "cidr_spec n s =
    (let (ip_part, prefix) = (case find_char CHR ''/'' s of None \<Rightarrow> (s, None)
           | Some k \<Rightarrow> (take k s, Some (stoi 10 (drop (k + 1) s))))
     in case (parse_ipv4 n ip_part, parse_ipv6 n ip_part, prefix) of
          (Some a, _, None) \<Rightarrow> Some (IPv4, a, 32)
        | (Some a, _, Some (Inr p)) \<Rightarrow> if 0 \<le> p \<and> p \<le> 32 then Some (IPv4, a, nat p) else None
        | (None, Some a, None) \<Rightarrow> Some (IPv6, a, 128)
        | (None, Some a, Some (Inr p)) \<Rightarrow> if 0 \<le> p \<and> p \<le> 128 then Some (IPv6, a, nat p) else None
        | _ \<Rightarrow> None)"

definition ip_spec :: "inet \<Rightarrow> string \<Rightarrow> (IPType \<times> bytes) option" where
  "ip_spec n ip = (case parse_ipv4 n ip of Some b \<Rightarrow> Some (IPv4, b)
     | None \<Rightarrow> map_option (Pair IPv6) (parse_ipv6 n ip))"

definition cidr_contains :: "inet \<Rightarrow> string \<Rightarrow> string \<Rightarrow> bool" where
  "cidr_contains n s ip \<longleftrightarrow> (case (cidr_spec n s, ip_spec n ip) of
     (Some (ty, a, p), Some (ty', b)) \<Rightarrow> ty = ty' \<and> (\<forall>i<p. addr_bit b i = addr_bit a i)
   | _ \<Rightarrow> False)"

definition range_of :: "IPType \<times> bytes \<times> nat \<Rightarrow> CIDRRange" where
  "range_of = (\<lambda>(ty, a, p). \<lparr>range_type = ty, network = zero_host_bits p a, prefix_length = of_nat p\<rparr>)"

lemma zero_host_bits_all: "length a = n \<Longrightarrow> zero_host_bits (8 * n) a = a"
  by (rule nth_equalityI) (simp_all add: zero_host_bits_def Let_def)

lemma parse_cidr_spec:
  assumes "inet_ok n"
  shows "parse_cidr n s = map_option range_of (cidr_spec n s)"
proof -
  have z4: "zero_host_bits 32 a = a" if "parse_ipv4 n t = Some a" for a t
    using that assms zero_host_bits_all [of a 4] by (simp add: parse_ipv4_def inet_ok_def)
  have z6: "zero_host_bits 128 a = a" if "parse_ipv6 n t = Some a" for a t
    using that assms zero_host_bits_all [of a 16] by (simp add: parse_ipv6_def inet_ok_def)
  have w: "(of_nat (nat p) :: u8) = word_of_int p" if "\<not> p < 0" for p
    using that by simp
  show ?thesis
  proof (cases "find_char CHR ''/'' s")
    case None
    then show ?thesis
      by (auto simp: parse_cidr_def cidr_spec_def range_of_def Let_def z4 z6
          simp del: find_char_None split: option.splits)
  next
    case (Some k)
    then show ?thesis
      by (auto simp: parse_cidr_def cidr_spec_def range_of_def Let_def w split: option.splits sum.splits)
  qed
qed

lemma length_zero_host_bits [simp]: "length (zero_host_bits p a) = length a"
  by (simp add: zero_host_bits_def Let_def)

lemma addr_bit_zero_host_bits:
  assumes "i < p" "p \<le> 8 * length a"
  shows "addr_bit (zero_host_bits p a) i = addr_bit a i"
proof -
  have b: "i div 8 < length a" using assms by linarith
  have "i div 8 \<le> p div 8" using assms(1) by (simp add: div_le_mono)
  then consider "i div 8 < p div 8" | "i div 8 = p div 8" by linarith
  then show ?thesis
  proof cases
    case 1
    then show ?thesis using b by (simp add: zero_host_bits_def addr_bit_def Let_def)
  next
    case 2
    then have m: "i mod 8 < p mod 8" using assms(1) by (metis add_less_cancel_left mult_div_mod_eq)
    then have "bit (prefix_mask (p mod 8)) (7 - i mod 8)"
      using bit_prefix_mask [of "p mod 8" "7 - i mod 8"] mod_less_divisor [of 8 p]
      by (simp del: mod_less_divisor) linarith
    then show ?thesis using b 2 m by (simp add: zero_host_bits_def addr_bit_def Let_def bit_and_iff)
  qed
qed

lemma cidr_spec_wf:
  assumes "inet_ok n" "cidr_spec n s = Some (ty, a, p)"
  shows "p \<le> 8 * length a" "p \<le> 128" "length a = (if ty = IPv4 then 4 else 16)"
  using assms
  by (auto simp: cidr_spec_def inet_ok_def parse_ipv4_def parse_ipv6_def Let_def
      split: option.splits sum.splits prod.splits if_splits)

lemma ip_spec_wf:
  "inet_ok n \<Longrightarrow> ip_spec n ip = Some (ty, b) \<Longrightarrow> length b = (if ty = IPv4 then 4 else 16)"
  by (auto simp: ip_spec_def inet_ok_def parse_ipv4_def parse_ipv6_def split: option.splits)

lemma matches_range_of:
  assumes "inet_ok n" "cidr_spec n s = Some (ty, a, p)" "ip_spec n ip = Some (ty, b)"
  shows "matches_cidr b (range_of (ty, a, p)) \<longleftrightarrow> (\<forall>i<p. addr_bit b i = addr_bit a i)"
proof -
  note wf = cidr_spec_wf [OF assms(1,2)]
  have p: "unat (of_nat p :: u8) = p" using wf(2) by (simp add: unat_of_nat take_bit_nat_eq_self)
  have "range_wf (range_of (ty, a, p))" using wf(1) by (simp add: range_wf_def range_of_def p)
  then show ?thesis
    using wf(1,3) ip_spec_wf [OF assms(1,3)]
    by (auto simp: matches_cidr_bits range_of_def p addr_bit_zero_host_bits)
qed

lemma from_cidr_list_loop_spec:
  "inet_ok n \<Longrightarrow> from_cidr_list_loop n cs l =
     (if list_all (\<lambda>c. cidr_spec n c \<noteq> None) cs
      then Some (l @ map (\<lambda>c. range_of (the (cidr_spec n c))) cs) else None)"
  by (induction cs arbitrary: l) (auto simp: add_cidr_def parse_cidr_spec split: option.splits)

lemma is_allowed_ranges:
  assumes "inet_ok n" "list_all (\<lambda>c. cidr_spec n c \<noteq> None) cs" "cs \<noteq> []"
  shows "is_allowed n (map (\<lambda>c. range_of (the (cidr_spec n c))) cs) ip \<longleftrightarrow> (\<exists>c \<in> set cs. cidr_contains n c ip)"
proof (cases "ip_spec n ip")
  case None
  then show ?thesis using assms(3)
    by (auto simp: is_allowed_def ip_spec_def cidr_contains_def split: option.splits)
next
  case (Some tb)
  obtain ty b where tb: "tb = (ty, b)" by (cases tb)
  have one: "range_type (range_of (the (cidr_spec n c))) = ty \<and> matches_cidr b (range_of (the (cidr_spec n c)))
      \<longleftrightarrow> cidr_contains n c ip" if c: "c \<in> set cs" for c
  proof -
    obtain ty' a p where sp: "cidr_spec n c = Some (ty', a, p)"
      using c assms(2) by (auto simp: list_all_iff)
    then show ?thesis
      using matches_range_of [OF assms(1) sp, of ip b] Some tb
      by (auto simp: cidr_contains_def range_of_def)
  qed
  have "is_allowed n (map (\<lambda>c. range_of (the (cidr_spec n c))) cs) ip
      \<longleftrightarrow> (\<exists>c \<in> set cs. range_type (range_of (the (cidr_spec n c))) = ty
            \<and> matches_cidr b (range_of (the (cidr_spec n c))))"
    using Some assms(3) by (auto simp: is_allowed_def ip_spec_def tb list_ex_iff split: option.splits)
  then show ?thesis using one by blast
qed

text \<open>
  C15. The decision both proxies take on a client: with no list everyone is let in; otherwise every
  entry must parse and the client's address must agree, in the same family, with the address of
  some entry in as many leading bits as the entry's prefix length. One entry that does not parse
  locks everyone out, and so does a client address that does not parse.
\<close>

theorem ip_allowlist_decision:
  assumes "inet_ok n"
  shows "validate_ip_allowlist n t ip \<longleftrightarrow> ip_allowlist t = []
    \<or> (list_all (\<lambda>c. cidr_spec n c \<noteq> None) (ip_allowlist t)
       \<and> (\<exists>c \<in> set (ip_allowlist t). cidr_contains n c ip))"
  using assms is_allowed_ranges [OF assms]
  by (auto simp: validate_ip_allowlist_def from_cidr_list_def from_cidr_list_loop_spec)

section \<open>Witnesses\<close>

text \<open>A C library that knows three addresses.\<close>

definition sample_inet :: inet where
  "sample_inet = \<lparr>pton4 = (\<lambda>s. if s = ''10.0.0.7'' then Some [10, 0, 0, 7]
       else if s = ''10.0.0.0'' then Some [10, 0, 0, 0] else None),
     pton6 = (\<lambda>s. if s = ''::1'' then Some (replicate 15 0 @ [1]) else None),
     ntop4 = (\<lambda>_. []), ntop6 = (\<lambda>_. [])\<rparr>"

definition sample_tunnel :: Tunnel where
  "sample_tunnel = \<lparr>tunnel_id = ''web-1'', protocol = HTTP, target_host = ''localhost'',
     target_port = 5000, ip_allowlist = [''10.0.0.0/24''], rate_limit_rpm = 60, created_at = 0,
     updated_at = 0, status = ACTIVE\<rparr>"

lemma inet_ok_sample: "inet_ok sample_inet"
  by (auto simp: inet_ok_def sample_inet_def split: if_splits)

lemma matches_cidr_prefix_witness:
  "\<not> matches_cidr [10, 0, 1, 7] \<lparr>range_type = IPv4, network = [10, 0, 0, 0], prefix_length = 24\<rparr>"
  using matches_cidr_prefix [of "\<lparr>range_type = IPv4, network = [10, 0, 0, 0], prefix_length = 24\<rparr>" "[10, 0, 1, 7]"]
  by (auto simp: addr_bit_def intro!: exI [of _ 23])

lemma sample_cidr: "cidr_spec sample_inet ''10.0.0.0/24'' = Some (IPv4, [10, 0, 0, 0], 24)"
  by (simp add: cidr_spec_def sample_inet_def parse_ipv4_def parse_ipv6_def c_str_def stoi_def skip_0x_def
      is_space_def is_digit_def digit_val_def digits_value_def Let_def)

lemma ip_allowlist_decision_witness:
  "validate_ip_allowlist sample_inet sample_tunnel ''10.0.0.7'' \<and> \<not> validate_ip_allowlist sample_inet sample_tunnel ''::1''"
proof -
  have "addr_bit [10, 0, 0, 7] i = addr_bit [10, 0, 0, 0] i" if "i < 24" for i
  proof -
    have "i div 8 < 3" using that by simp
    then have "i div 8 = 0 \<or> i div 8 = 1 \<or> i div 8 = 2" by linarith
    then show ?thesis by (auto simp: addr_bit_def numeral_2_eq_2)
  qed
  then show ?thesis
    unfolding ip_allowlist_decision [OF inet_ok_sample]
    by (simp add: sample_tunnel_def sample_cidr cidr_contains_def ip_spec_def)
      (simp add: sample_inet_def parse_ipv4_def parse_ipv6_def c_str_def)
qed

end
