(* ===== verification/Http_Text.thy ===== *)
theory Http_Text
  imports Cpp_String "HOL-Library.List_Lexorder" "HOL-Library.Char_ord"
begin

text \<open>
  The line-based reading of HTTP text that several components of the server share: a request or
  status line, header lines up to an empty one, and the rest as the body. \<open>std::map\<close> is walked in
  the order of its keys (\<open>sort_key fst\<close>).
\<close>

abbreviation CRLF :: string where
  "CRLF \<equiv> [CHR 0x0D, CHR 0x0A]"

abbreviation blanks :: string where
  "blanks \<equiv> [CHR '' '', CHR 0x09]"

text \<open>
  \<open>while (getline(stream, line) && !line.empty() && line != "\r")\<close>: the header lines, each
  without its trailing carriage return, and the text after them. When the stream ends first
  nothing is left.
\<close>

function header_lines :: "string \<Rightarrow> string list \<times> string" where
  "header_lines s =
    (case getline (CHR 0x0A) s of
       None \<Rightarrow> ([], [])
     | Some (line, s') \<Rightarrow>
         if line = [] \<or> line = [CHR 0x0D] then ([], s')
         else let (ls, rest) = header_lines s' in (pop_cr line # ls, rest))"
  by pat_completeness auto
termination
  by (relation "measure length") (auto dest: getline_shorter)

declare header_lines.simps [simp del]

text \<open>Name and value of a header line: split at the first colon, the value trimmed of blanks.\<close>

definition split_header :: "string \<Rightarrow> (string \<times> string) option" where
  "split_header line =
    (case find_char CHR '':'' line of
       None \<Rightarrow> None
     | Some colon \<Rightarrow> Some (take colon line, trim blanks (drop (colon + 1) line)))"

definition header_line :: "string \<times> string \<Rightarrow> string" where
  "header_line h = fst h @ '': '' @ snd h"

definition header_text :: "(string \<times> string) list \<Rightarrow> string" where
  "header_text hs = concat (map (\<lambda>h. header_line h @ CRLF) hs)"

text \<open>A header that survives being written and read again.\<close>

definition header_ok :: "string \<times> string \<Rightarrow> bool" where
  "header_ok h \<longleftrightarrow> CHR '':'' \<notin> set (fst h) \<and> CHR 0x0A \<notin> set (fst h) \<and> CHR 0x0A \<notin> set (snd h)
     \<and> trim blanks (snd h) = snd h"

lemma header_lines_end: "header_lines (CRLF @ body) = ([], body)"
  by (subst header_lines.simps) (simp add: getline_def)

lemma header_lines_Cons:
  assumes "CHR 0x0A \<notin> set l" "l \<noteq> []"
  shows "header_lines (l @ CRLF @ s) = (let (ls, rest) = header_lines s in (l # ls, rest))"
proof -
  have "getline (CHR 0x0A) ((l @ [CHR 0x0D]) @ CHR 0x0A # s) = Some (l @ [CHR 0x0D], s)"
    using assms by (intro getline_append) simp
  then show ?thesis using assms by (subst header_lines.simps) (simp add: Let_def)
qed

lemma header_lines_concat:
  "list_all (\<lambda>l. CHR 0x0A \<notin> set l \<and> l \<noteq> []) ls \<Longrightarrow>
     header_lines (concat (map (\<lambda>l. l @ CRLF) ls) @ CRLF @ body) = (ls, body)"
proof (induction ls)
  case Nil
  then show ?case using header_lines_end by simp
next
  case (Cons l ls)
  then show ?case using header_lines_Cons [of l] by simp
qed

lemma split_header_line:
  "header_ok h \<Longrightarrow> split_header (header_line h) = Some h"
  by (cases h) (simp add: split_header_def header_line_def header_ok_def string_simps)

lemma header_line_ok: "header_ok h \<Longrightarrow> CHR 0x0A \<notin> set (header_line h) \<and> header_line h \<noteq> []"
  by (simp add: header_line_def header_ok_def)

lemma header_lines_written:
  assumes "\<forall>h \<in> set hs. header_ok h"
  shows "header_lines (header_text hs @ CRLF @ body) = (map header_line hs, body)"
proof -
  have "list_all (\<lambda>l. CHR 0x0A \<notin> set l \<and> l \<noteq> []) (map header_line hs)"
    using assms header_line_ok by (auto simp: list_all_iff)
  from header_lines_concat [OF this, of body] show ?thesis by (simp add: header_text_def comp_def)
qed

lemma set_trim: "set (trim cs s) \<subseteq> set s"
  unfolding trim_def by (auto dest!: set_dropWhileD)

text \<open>What a reader of header lines keeps is written and read again without change.\<close>

lemma split_header_ok:
  assumes "split_header line = Some (n, v)" "CHR 0x0A \<notin> set line"
  shows "header_ok (to_lower n, v)"
proof -
  obtain i where i: "find_char CHR '':'' line = Some i" "n = take i line"
    "v = trim blanks (drop (i + 1) line)"
    using assms(1) by (auto simp: split_header_def split: option.splits)
  have "CHR '':'' \<notin> set n" using i(1,2) by (simp add: find_char_Some_iff)
  moreover have "CHR 0x0A \<notin> set n" "CHR 0x0A \<notin> set v"
    using assms(2) i(2,3) set_trim by (auto dest: in_set_takeD in_set_dropD)
  ultimately show ?thesis using i(3) by (simp add: header_ok_def set_to_lower)
qed

lemma getline_line: "getline d s = Some (l, s') \<Longrightarrow> d \<notin> set l"
  by (auto simp: getline_def dest: set_takeWhileD split: if_splits)

lemma header_lines_no_newline:
  "l \<in> set (fst (header_lines s)) \<Longrightarrow> CHR 0x0A \<notin> set l"
proof (induction s rule: header_lines.induct)
  case (1 s)
  show ?case
  proof (cases "getline (CHR 0x0A) s")
    case None
    then show ?thesis using "1.prems" by (subst (asm) header_lines.simps) simp
  next
    case (Some p)
    obtain line s' where p: "p = (line, s')" by (cases p)
    note line = getline_line [OF Some [unfolded p]]
    show ?thesis
    proof (cases "line = [] \<or> line = [CHR 0x0D]")
      case True
      then show ?thesis using "1.prems" Some p by (subst (asm) header_lines.simps) simp
    next
      case False
      then have "l = pop_cr line \<or> l \<in> set (fst (header_lines s'))"
        using "1.prems" Some p by (subst (asm) header_lines.simps) (auto split: prod.splits)
      then show ?thesis using "1.IH" [OF Some p [symmetric] False] line
        by (auto simp: pop_cr_def dest: in_set_butlastD split: if_splits)
    qed
  qed
qed

end
