(* ===== verification/Agent_Connection.thy ===== *)
theory Agent_Connection
  imports Http_Text Nghttp2 Tunnel_Model "HOL-Library.Multiset"
begin

text \<open>
  \<open>src/agent/agent_connection.{h,cpp}\<close>: the server's end of the connection to one agent: the HTTP/2
  client session with the table of requests in flight, the heartbeat, and raw TCP frames beside
  it. A callback is a number that the connection gives to each \<open>std::function\<close> it is handed; its
  invocations are actions. A handler that goes on using the freed HTTP/2 session ends in
  \<open>Use_after_free\<close>.
\<close>

section \<open>State\<close>

datatype AgentState = CONNECTING | AUTHENTICATING | CONNECTED | DISCONNECTING | DISCONNECTED

datatype ac_action =
  Ac_callback nat string bool
| Ac_disconnect string
| Ac_submit_settings
| Ac_submit_ping
| Ac_submit_headers "(string \<times> string) list" bool
| Ac_submit_data int string
| Ac_session_send
| Ac_start_read
| Ac_handshake
| Ac_arm_heartbeat
| Ac_cancel_heartbeat
| Ac_arm_timeout string int int
| Ac_write bytes
| Ac_tcp_frames bytes
| Ac_shutdown

record AgentConnection =
  ac_tunnel_id :: string
  ac_state :: AgentState
  ac_on_disconnect :: bool
  ac_tcp_frame_handler :: bool
  ac_session :: bool
  ac_last_heartbeat :: int
  ac_bytes_sent :: nat
  ac_bytes_received :: nat
  ac_connected_at :: int
  ac_pending_requests :: "(string, nat) umap"
  ac_stream_to_request :: "(int, string) umap"
  ac_stream_bodies :: "(string, string) umap"
  ac_stream_headers :: "(int, string) umap"
  ac_stream_bodies_recv :: "(int, string) umap"
  ac_next_callback :: nat
  ac_actions :: "ac_action list"

definition AgentConnection_init :: "AgentState \<Rightarrow> int \<Rightarrow> string \<Rightarrow> AgentConnection" where
  "AgentConnection_init st now tid = \<lparr>ac_tunnel_id = tid, ac_state = st, ac_on_disconnect = False,
     ac_tcp_frame_handler = False, ac_session = False, ac_last_heartbeat = 0, ac_bytes_sent = 0,
     ac_bytes_received = 0, ac_connected_at = now, ac_pending_requests = [], ac_stream_to_request = [],
     ac_stream_bodies = [], ac_stream_headers = [], ac_stream_bodies_recv = [], ac_next_callback = 0,
     ac_actions = []\<rparr>"

definition AgentConnection_new :: "int \<Rightarrow> string \<Rightarrow> AgentConnection" where
  "AgentConnection_new now tid = AgentConnection_init CONNECTING now tid"

definition AgentConnection_from_socket :: "int \<Rightarrow> string \<Rightarrow> AgentConnection" where
  "AgentConnection_from_socket now tid = AgentConnection_init CONNECTED now tid"

definition ac_act :: "ac_action \<Rightarrow> AgentConnection \<Rightarrow> AgentConnection" where
  "ac_act a s = s\<lparr>ac_actions := ac_actions s @ [a]\<rparr>"

definition chars :: "bytes \<Rightarrow> string" where
  "chars bs = map (\<lambda>b. char_of (unat b)) bs"

section \<open>Closing\<close>

text \<open>
  The order in which the pending callbacks are failed is that of the unordered map; here it is the
  order of the list, and nothing below depends on it.
\<close>

definition handle_disconnect :: "AgentConnection \<Rightarrow> AgentConnection" where
  "handle_disconnect s =
    (let s1 = s\<lparr>ac_actions := ac_actions s
               @ map (\<lambda>(request_id, cb). Ac_callback cb '''' True) (ac_pending_requests s),
               ac_pending_requests := []\<rparr>
     in if ac_on_disconnect s1 then ac_act (Ac_disconnect (ac_tunnel_id s1)) s1 else s1)"

definition ac_close :: "AgentConnection \<Rightarrow> AgentConnection" where
  "ac_close s =
    (if ac_state s = DISCONNECTED \<or> ac_state s = DISCONNECTING then s
     else let s1 = ac_act Ac_cancel_heartbeat (s\<lparr>ac_state := DISCONNECTING\<rparr>);
              s2 = ac_act Ac_shutdown (s1\<lparr>ac_session := False\<rparr>)
          in handle_disconnect (s2\<lparr>ac_state := DISCONNECTED\<rparr>))"

text \<open>\<open>rv\<close> is the result of \<open>nghttp2_session_send\<close>.\<close>

definition send_pending_data :: "int \<Rightarrow> AgentConnection \<Rightarrow> AgentConnection" where
  "send_pending_data rv s =
    (let s1 = ac_act Ac_session_send s in if rv \<noteq> 0 then ac_close s1 else s1)"

definition ac_send_callback :: "write_outcome \<Rightarrow> AgentConnection \<Rightarrow> int \<times> AgentConnection" where
  "ac_send_callback w s = (case w of
     Wrote n \<Rightarrow> (int n, s\<lparr>ac_bytes_sent := ac_bytes_sent s + n\<rparr>)
   | Write_would_block \<Rightarrow> (-504, s)
   | Write_error \<Rightarrow> (-902, s))"

section \<open>Starting and heartbeat\<close>

definition initialize_nghttp2 :: "int \<Rightarrow> AgentConnection \<Rightarrow> AgentConnection" where
  "initialize_nghttp2 rv s = send_pending_data rv (ac_act Ac_submit_settings (s\<lparr>ac_session := True\<rparr>))"

definition send_heartbeat :: "AgentConnection \<Rightarrow> AgentConnection" where
  "send_heartbeat s = ac_act Ac_arm_heartbeat s"

definition start_heartbeat :: "int \<Rightarrow> AgentConnection \<Rightarrow> AgentConnection" where
  "start_heartbeat now s = send_heartbeat (s\<lparr>ac_last_heartbeat := now\<rparr>)"

definition ac_start_read :: "AgentConnection \<Rightarrow> AgentConnection" where
  "ac_start_read s = ac_act Ac_start_read s"

definition start_session :: "int \<Rightarrow> int \<Rightarrow> AgentConnection \<Rightarrow> AgentConnection" where
  "start_session now rv s = ac_start_read (start_heartbeat now (initialize_nghttp2 rv s))"

definition ac_start :: "int \<Rightarrow> int \<Rightarrow> AgentConnection \<Rightarrow> AgentConnection" where
  "ac_start now rv s0 =
    (let s = s0\<lparr>ac_on_disconnect := True\<rparr>
     in if ac_state s = CONNECTED then start_session now rv s else ac_act Ac_handshake s)"

definition on_handshake :: "int \<Rightarrow> int \<Rightarrow> bool \<Rightarrow> AgentConnection \<Rightarrow> AgentConnection" where
  "on_handshake now rv ok s =
    (if \<not> ok then handle_disconnect (s\<lparr>ac_state := DISCONNECTED\<rparr>)
     else start_session now rv (s\<lparr>ac_state := CONNECTED\<rparr>))"

text \<open>The timer handler; a cancelled timer (\<open>ec\<close>) does nothing. Times are in seconds.\<close>

definition on_heartbeat_timer :: "bool \<Rightarrow> int \<Rightarrow> int \<Rightarrow> AgentConnection \<Rightarrow> AgentConnection" where
  "on_heartbeat_timer ec now rv s =
    (if ec then s
     else let elapsed = now - ac_last_heartbeat s in
       if elapsed > 60 then ac_close s
       else send_heartbeat (if ac_session s then send_pending_data rv (ac_act Ac_submit_ping s) else s))"

definition update_stats :: "int \<Rightarrow> nat \<Rightarrow> nat \<Rightarrow> AgentConnection \<Rightarrow> AgentConnection" where
  "update_stats now sent received s =
     s\<lparr>ac_bytes_sent := ac_bytes_sent s + sent, ac_bytes_received := ac_bytes_received s + received,
       ac_last_heartbeat := now\<rparr>"

section \<open>Requests\<close>

definition add_header :: "string \<Rightarrow> (string, string) umap \<Rightarrow> (string, string) umap" where
  "add_header line headers =
    (case split_header line of None \<Rightarrow> headers
     | Some (name, v) \<Rightarrow> AList.update (to_lower name) v headers)"

text \<open>Method, path, header map and body of the text of a request.\<close>

definition parse_request_text :: "string \<Rightarrow> string \<times> string \<times> (string, string) umap \<times> string" where
  "parse_request_text req =
    (let (request_line, s1) = (case getline (CHR 0x0A) req of None \<Rightarrow> ('''', '''') | Some r \<Rightarrow> r);
         (rq_method, r1) = read_word request_line; (rq_path, r2) = read_word r1;
         (lines, body) = header_lines s1
     in (rq_method, rq_path, foldl (\<lambda>h l. add_header l h) [] lines, body))"

definition header_pairs :: "string \<Rightarrow> string \<Rightarrow> string \<Rightarrow> (string, string) umap \<Rightarrow> (string \<times> string) list" where
  "header_pairs request_id m path headers =
     [('':method'', m), ('':path'', path), ('':scheme'', ''https'')]
   @ (case map_of headers ''host'' of None \<Rightarrow> [] | Some h \<Rightarrow> [('':authority'', h)])
   @ [(''x-tunnel-request-id'', request_id)]
   @ [h \<leftarrow> sort_key fst headers. fst h \<noteq> ''host'']"

definition body_read_callback :: "string \<Rightarrow> nat \<Rightarrow> string \<times> bool" where
  "body_read_callback body len = (take (min len (length body)) body, True)"

text \<open>
  \<open>stream_id\<close> is the result of the first \<open>nghttp2_submit_headers\<close>, \<open>rv\<close> that of sending. The callback
  gets the next number.
\<close>

definition send_http_request ::
  "int \<Rightarrow> int \<Rightarrow> string \<Rightarrow> string \<Rightarrow> int \<Rightarrow> AgentConnection \<Rightarrow> AgentConnection" where
  "send_http_request stream_id rv request_id http_request timeout s0 =
    (let cb = ac_next_callback s0; s = s0\<lparr>ac_next_callback := cb + 1\<rparr>;
         fail = ac_act (Ac_callback cb '''' True)
     in if ac_state s \<noteq> CONNECTED then fail s
        else if \<not> ac_session s then fail s
        else let (m, path, headers, body) = parse_request_text http_request;
                 s1 = ac_act (Ac_submit_headers (header_pairs request_id m path headers) (body = [])) s
             in if stream_id < 0 then fail s1
                else let s2 = (if body \<noteq> []
                       then ac_act (Ac_submit_data stream_id body)
                              (s1\<lparr>ac_stream_bodies := AList.update request_id body (ac_stream_bodies s1)\<rparr>)
                       else ac_act (Ac_submit_headers [] True) s1);
                     s3 = s2\<lparr>ac_pending_requests := AList.update request_id cb (ac_pending_requests s2),
                             ac_stream_to_request := AList.update stream_id request_id (ac_stream_to_request s2)\<rparr>
                     in ac_act (Ac_arm_timeout request_id stream_id timeout) (send_pending_data rv s3))"

definition on_request_timeout :: "bool \<Rightarrow> string \<Rightarrow> int \<Rightarrow> AgentConnection \<Rightarrow> AgentConnection" where
  "on_request_timeout ec request_id stream_id s =
    (if ec then s
     else case map_of (ac_pending_requests s) request_id of
       None \<Rightarrow> s
     | Some cb \<Rightarrow> (ac_act (Ac_callback cb '''' True) s)
         \<lparr>ac_pending_requests := AList.delete request_id (ac_pending_requests s),
          ac_stream_to_request := AList.delete stream_id (ac_stream_to_request s),
          ac_stream_bodies := AList.delete request_id (ac_stream_bodies s)\<rparr>)"

section \<open>Responses\<close>

definition stream_text :: "int \<Rightarrow> (int, string) umap \<Rightarrow> string" where
  "stream_text i m = (case map_of m i of Some t \<Rightarrow> t | None \<Rightarrow> '''')"

definition ac_on_header :: "int \<Rightarrow> string \<Rightarrow> string \<Rightarrow> AgentConnection \<Rightarrow> AgentConnection" where
  "ac_on_header i header_name header_value s =
    (if header_name = '':status'' then
       (if map_of (ac_stream_headers s) i = None
        then s\<lparr>ac_stream_headers := AList.update i (''HTTP/1.1 '' @ header_value @ '' OK'' @ CRLF) (ac_stream_headers s)\<rparr>
        else s)
     else if header_name \<noteq> [] \<and> hd header_name = CHR '':'' then s
     else s\<lparr>ac_stream_headers := AList.update i (stream_text i (ac_stream_headers s)
              @ header_name @ '': '' @ header_value @ CRLF) (ac_stream_headers s)\<rparr>)"

definition ac_on_data_chunk :: "int \<Rightarrow> bytes \<Rightarrow> AgentConnection \<Rightarrow> AgentConnection" where
  "ac_on_data_chunk i data s =
     s\<lparr>ac_stream_bodies_recv := AList.update i (stream_text i (ac_stream_bodies_recv s) @ chars data)
         (ac_stream_bodies_recv s)\<rparr>"

definition response_text :: "int \<Rightarrow> AgentConnection \<Rightarrow> string" where
  "response_text i s =
    (let h = stream_text i (ac_stream_headers s)
     in (if h \<noteq> [] then h @ CRLF else h) @ stream_text i (ac_stream_bodies_recv s))"

definition complete_request :: "int \<Rightarrow> AgentConnection \<Rightarrow> AgentConnection" where
  "complete_request i s =
    (case map_of (ac_stream_to_request s) i of
       None \<Rightarrow> s
     | Some request_id \<Rightarrow>
       (case map_of (ac_pending_requests s) request_id of
          None \<Rightarrow> s
        | Some cb \<Rightarrow> (ac_act (Ac_callback cb (response_text i s) False) s)
            \<lparr>ac_pending_requests := AList.delete request_id (ac_pending_requests s),
             ac_stream_to_request := AList.delete i (ac_stream_to_request s),
             ac_stream_headers := AList.delete i (ac_stream_headers s),
             ac_stream_bodies_recv := AList.delete i (ac_stream_bodies_recv s),
             ac_stream_bodies := AList.delete request_id (ac_stream_bodies s)\<rparr>))"

definition ac_on_frame_recv :: "int \<Rightarrow> h2_frame_type \<Rightarrow> u8 \<Rightarrow> int \<Rightarrow> bool \<Rightarrow> AgentConnection \<Rightarrow> AgentConnection" where
  "ac_on_frame_recv now t flags i response s =
    (case t of
       H2_PING \<Rightarrow> if has_flag flags FLAG_ACK then s\<lparr>ac_last_heartbeat := now\<rparr> else s
     | H2_HEADERS \<Rightarrow> if response \<and> has_flag flags FLAG_END_STREAM then complete_request i s else s
     | H2_DATA \<Rightarrow> if has_flag flags FLAG_END_STREAM then complete_request i s else s
     | H2_GOAWAY \<Rightarrow> ac_close s
     | H2_OTHER \<Rightarrow> s)"

fun ac_callback :: "int \<Rightarrow> AgentConnection \<Rightarrow> h2_event \<Rightarrow> AgentConnection" where
  "ac_callback now s (H2_header i name v) = ac_on_header i name v s"
| "ac_callback now s (H2_data_chunk flags i data) = ac_on_data_chunk i data s"
| "ac_callback now s (H2_frame t flags i response) = ac_on_frame_recv now t flags i response s"

text \<open>
  The events of one \<open>nghttp2_session_mem_recv\<close>: the library goes on with the session after each
  callback, so a callback must not delete it.
\<close>

fun ac_callbacks :: "int \<Rightarrow> h2_event list \<Rightarrow> AgentConnection \<Rightarrow> AgentConnection result" where
  "ac_callbacks now [] s = Inr s"
| "ac_callbacks now (e # es) s =
    (let s' = ac_callback now s e
     in if ac_session s \<and> \<not> ac_session s' then Inl Use_after_free else ac_callbacks now es s')"

text \<open>
  The completion handler of the read. A buffer that starts with the type of a TCP frame is handed
  over whole.
\<close>

definition starts_tcp_frame :: "bytes \<Rightarrow> bool" where
  "starts_tcp_frame data \<longleftrightarrow> length data > 0 \<and> 0x10 \<le> data ! 0 \<and> data ! 0 \<le> 0x14"

definition on_read ::
  "int \<Rightarrow> (bytes \<Rightarrow> h2_event list \<times> int) \<Rightarrow> int \<Rightarrow> bytes option \<Rightarrow> AgentConnection \<Rightarrow> AgentConnection result" where
  "on_read now recv send_rv r s0 =
    (case r of
       None \<Rightarrow> Inr (ac_close s0)
     | Some data \<Rightarrow>
       let s = s0\<lparr>ac_bytes_received := ac_bytes_received s0 + length data\<rparr>;
           is_tcp = starts_tcp_frame data;
           s1 = (if is_tcp \<and> ac_tcp_frame_handler s then ac_act (Ac_tcp_frames data) s else s);
           tcp_consumed = (if is_tcp then length data else 0);
           go = (\<lambda>s. let s' = ac_act Ac_session_send s
                  in Inr (if send_rv \<noteq> 0 then ac_close s' else ac_start_read s'))
       in if tcp_consumed < length data
          then let (events, rv) = recv (drop tcp_consumed data)
               in bind_result (ac_callbacks now events s1) (\<lambda>s2.
                    if rv < 0 then Inr (ac_close s2) else go s2)
          else go s1)"

section \<open>TCP frames\<close>

text \<open>
  \<open>write_some\<close> writes some number of bytes or fails; the callback gets no data and a flag. The
  outcome is \<open>None\<close> on an error. The callback's number is returned in the action.
\<close>

definition send_tcp_data :: "int \<Rightarrow> nat option \<Rightarrow> bytes \<Rightarrow> AgentConnection \<Rightarrow> AgentConnection \<times> bool" where
  "send_tcp_data now written data s0 =
    (let cb = ac_next_callback s0; s = s0\<lparr>ac_next_callback := cb + 1\<rparr>
     in if ac_state s \<noteq> CONNECTED then (ac_act (Ac_callback cb '''' True) s, False)
        else case written of
          None \<Rightarrow> (ac_act (Ac_callback cb '''' True) s, False)
        | Some n \<Rightarrow> (ac_act (Ac_callback cb '''' False)
                       (update_stats now n 0 (ac_act (Ac_write (take n data)) s)), True))"

text \<open>The frame of \<open>send_tcp_close\<close>: up to 16 characters of the text of the id, zero padding.\<close>

definition tcp_close_text_frame :: "string \<Rightarrow> bytes" where
  "tcp_close_text_frame cid =
    (let chs = map (\<lambda>c. word_of_nat (of_char c)) (take 16 cid)
     in [0x12] @ chs @ replicate (16 - length chs) 0 @ [0x00, 0x00])"

definition send_tcp_close :: "string \<Rightarrow> AgentConnection \<Rightarrow> AgentConnection" where
  "send_tcp_close cid s =
    (if ac_state s \<noteq> CONNECTED then s else ac_act (Ac_write (tcp_close_text_frame cid)) s)"

definition set_tcp_frame_handler :: "AgentConnection \<Rightarrow> AgentConnection" where
  "set_tcp_frame_handler s = s\<lparr>ac_tcp_frame_handler := True\<rparr>"

record TunnelAgent =
  ta_agent_id :: string
  ta_tunnel_id :: string
  ta_remote_ip :: string
  ta_remote_port :: u16
  ta_connected :: bool
  ta_connected_at :: int
  ta_last_heartbeat :: int
  ta_bytes_sent :: nat
  ta_bytes_received :: nat
  ta_active_connections :: nat

definition get_metadata :: "int \<Rightarrow> AgentConnection \<Rightarrow> TunnelAgent" where
  "get_metadata now s = \<lparr>ta_agent_id = '''', ta_tunnel_id = ac_tunnel_id s, ta_remote_ip = '''',
     ta_remote_port = 0, ta_connected = (ac_state s = CONNECTED), ta_connected_at = ac_connected_at s,
     ta_last_heartbeat = now, ta_bytes_sent = ac_bytes_sent s, ta_bytes_received = ac_bytes_received s,
     ta_active_connections = 0\<rparr>"

section \<open>Reachable states\<close>

text \<open>
  \<open>ac_reach f s\<close>: \<open>s\<close> is reachable from a new connection. \<open>f\<close> tells whether no request has been
  sent under an id that was still pending.
\<close>

inductive ac_reach :: "bool \<Rightarrow> AgentConnection \<Rightarrow> bool" where
  new: "ac_reach True (AgentConnection_new now tid)"
| socket: "ac_reach True (AgentConnection_from_socket now tid)"
| start: "ac_reach f s \<Longrightarrow> ac_reach f (ac_start now rv s)"
| handshake: "ac_reach f s \<Longrightarrow> ac_state s = CONNECTING \<Longrightarrow> ac_reach f (on_handshake now rv ok s)"
| heartbeat: "ac_reach f s \<Longrightarrow> ac_reach f (on_heartbeat_timer ec now rv s)"
| request: "ac_reach f s \<Longrightarrow> ac_reach (f \<and> rid \<notin> keys_of (ac_pending_requests s))
      (send_http_request stream_id rv rid req timeout s)"
| timeout: "ac_reach f s \<Longrightarrow> ac_reach f (on_request_timeout ec rid stream_id s)"
| read: "ac_reach f s \<Longrightarrow> on_read now recv rv r s = Inr s' \<Longrightarrow> ac_reach f s'"
| tcp_data: "ac_reach f s \<Longrightarrow> ac_reach f (fst (send_tcp_data now w data s))"
| tcp_close: "ac_reach f s \<Longrightarrow> ac_reach f (send_tcp_close cid s)"
| handler: "ac_reach f s \<Longrightarrow> ac_reach f (set_tcp_frame_handler s)"
| close: "ac_reach f s \<Longrightarrow> ac_reach f (ac_close s)"

text \<open>The callbacks already invoked, and those invoked or still pending.\<close>

definition called :: "AgentConnection \<Rightarrow> nat list" where
  "called s = concat (map (\<lambda>a. case a of Ac_callback cb r e \<Rightarrow> [cb] | _ \<Rightarrow> []) (ac_actions s))"

definition accounted :: "AgentConnection \<Rightarrow> nat multiset" where
  "accounted s = mset (called s) + mset (map snd (ac_pending_requests s))"

definition ac_ok :: "AgentConnection \<Rightarrow> bool" where
  "ac_ok s \<longleftrightarrow> umap_wf (ac_pending_requests s) \<and> ac_state s \<noteq> DISCONNECTING
     \<and> (ac_state s = DISCONNECTED \<longrightarrow> ac_pending_requests s = [])"

text \<open>A step that neither takes a new callback nor loses one, and does not leave the final state.\<close>

definition quiet :: "AgentConnection \<Rightarrow> AgentConnection \<Rightarrow> bool" where
  "quiet s s' \<longleftrightarrow> (ac_ok s \<longrightarrow> ac_ok s' \<and> accounted s' = accounted s
     \<and> ac_next_callback s' = ac_next_callback s \<and> (ac_state s = DISCONNECTED \<longrightarrow> ac_state s' = DISCONNECTED))"

lemma quiet_refl [simp, intro]: "quiet s s"
  by (simp add: quiet_def)

lemma quiet_trans [trans]: "quiet s t \<Longrightarrow> quiet t u \<Longrightarrow> quiet s u"
  by (simp add: quiet_def)

lemma called_act: "called (ac_act a s) = called s @ (case a of Ac_callback cb r e \<Rightarrow> [cb] | _ \<Rightarrow> [])"
  by (simp add: called_def ac_act_def)

lemma ac_act_simps [simp]:
  "ac_state (ac_act a s) = ac_state s" "ac_pending_requests (ac_act a s) = ac_pending_requests s"
  "ac_next_callback (ac_act a s) = ac_next_callback s" "ac_session (ac_act a s) = ac_session s"
  "ac_on_disconnect (ac_act a s) = ac_on_disconnect s" "ac_last_heartbeat (ac_act a s) = ac_last_heartbeat s"
  "ac_stream_to_request (ac_act a s) = ac_stream_to_request s"
  by (simp_all add: ac_act_def)

text \<open>Steps that touch only fields the account does not depend on.\<close>

lemma quiet_frame:
  assumes "ac_state s' = ac_state s" "ac_pending_requests s' = ac_pending_requests s"
    and "ac_next_callback s' = ac_next_callback s" "called s' = called s"
  shows "quiet s s'"
  using assms by (simp add: quiet_def ac_ok_def accounted_def)

lemma quiet_act: "(\<And>cb r e. a \<noteq> Ac_callback cb r e) \<Longrightarrow> quiet s (ac_act a s)"
  by (rule quiet_frame) (auto simp: called_act split: ac_action.splits)

lemma called_disconnect:
  "called (handle_disconnect s) = called s @ map snd (ac_pending_requests s)"
proof -
  have "concat (map (\<lambda>a. case a of Ac_callback cb r e \<Rightarrow> [cb] | _ \<Rightarrow> [])
      (map (\<lambda>(rid, cb). Ac_callback cb '''' True) m)) = map snd m" for m :: "(string \<times> nat) list"
    by (induction m) auto
  then show ?thesis
    by (simp add: handle_disconnect_def Let_def called_act) (simp add: called_def comp_def case_prod_unfold)
qed

lemma handle_disconnect_simps [simp]:
  "ac_pending_requests (handle_disconnect s) = []" "ac_state (handle_disconnect s) = ac_state s"
  "ac_next_callback (handle_disconnect s) = ac_next_callback s" "ac_session (handle_disconnect s) = ac_session s"
  by (simp_all add: handle_disconnect_def Let_def)

lemma quiet_disconnected: "quiet s (handle_disconnect (s\<lparr>ac_state := DISCONNECTED\<rparr>))"
  by (simp add: quiet_def ac_ok_def accounted_def called_disconnect)
    (simp add: called_def)

lemma quiet_close: "quiet s (ac_close s)"
proof (cases "ac_state s = DISCONNECTED \<or> ac_state s = DISCONNECTING")
  case False
  let ?t = "ac_act Ac_shutdown ((ac_act Ac_cancel_heartbeat (s\<lparr>ac_state := DISCONNECTING\<rparr>))\<lparr>ac_session := False\<rparr>)"
  have "called (ac_close s) = called ?t @ map snd (ac_pending_requests s)"
    using False by (simp add: ac_close_def Let_def called_disconnect) (simp add: called_def)
  moreover have "called ?t = called s"
    by (simp add: called_act) (simp add: called_def ac_act_def)
  ultimately show ?thesis using False
    by (simp add: quiet_def ac_ok_def accounted_def) (simp add: ac_close_def Let_def)
qed (simp add: ac_close_def)

lemma quiet_send_pending: "quiet s (send_pending_data rv s)"
  using quiet_trans [OF quiet_act quiet_close, of Ac_session_send s] quiet_act [of Ac_session_send s]
  by (simp add: send_pending_data_def Let_def)

lemma quiet_session: "quiet s (start_session now rv s)"
proof -
  let ?s1 = "s\<lparr>ac_session := True\<rparr>"
  have "quiet s ?s1" by (rule quiet_frame) (simp_all add: called_def)
  also have "quiet ?s1 (ac_act Ac_submit_settings ?s1)" by (rule quiet_act) simp
  also have "quiet \<dots> (initialize_nghttp2 rv s)" by (simp add: initialize_nghttp2_def quiet_send_pending)
  also have "quiet \<dots> (start_session now rv s)"
    by (rule quiet_frame) (simp_all add: start_session_def ac_start_read_def start_heartbeat_def
        send_heartbeat_def called_act, simp_all add: called_def)
  finally show ?thesis .
qed

lemma mset_delete:
  assumes "umap_wf m" "map_of m k = Some v"
  shows "add_mset v (mset (map snd (AList.delete k m))) = mset (map snd m)"
  using assms
proof (induction m)
  case (Cons p m)
  show ?case
  proof (cases "fst p = k")
    case True
    then have "map_of m k = None" using Cons.prems(1)
      by (auto simp: umap_wf_def map_of_eq_None_iff image_iff)
    then have "AList.delete k m = m" by (simp add: AList.delete_id keys_lookup)
    with True Cons.prems(2) show ?thesis by (cases p) simp
  next
    case False
    with Cons show ?thesis by (cases p) (simp add: umap_wf_def add_mset_commute)
  qed
qed simp

lemma mset_update:
  "map_of m k = None \<Longrightarrow> mset (map snd (AList.update k v m)) = add_mset v (mset (map snd m))"
  "map_of m k = Some w \<Longrightarrow> add_mset w (mset (map snd (AList.update k v m))) = add_mset v (mset (map snd m))"
  by (induction m) (auto split: if_splits)

text \<open>Answering a pending request moves its callback from the table to the invoked ones.\<close>

lemma quiet_answer:
  assumes "map_of (ac_pending_requests s) rid = Some cb"
    and "ac_pending_requests s' = AList.delete rid (ac_pending_requests s)"
    and "ac_state s' = ac_state s" "ac_next_callback s' = ac_next_callback s"
    and "called s' = called s @ [cb]"
  shows "quiet s s'"
proof -
  have "ac_pending_requests s \<noteq> []" using assms(1) by auto
  then show ?thesis
    using assms mset_delete [of "ac_pending_requests s" rid cb]
    by (auto simp: quiet_def ac_ok_def accounted_def)
qed

lemma quiet_complete: "quiet s (complete_request i s)"
  by (auto simp: complete_request_def split: option.splits intro!: quiet_answer)
    (simp_all add: called_def ac_act_def)

lemma quiet_timeout: "quiet s (on_request_timeout ec rid i s)"
  by (auto simp: on_request_timeout_def split: option.splits intro!: quiet_answer)
    (simp_all add: called_def ac_act_def)

lemma quiet_callback: "quiet s (ac_callback now s e)"
proof (cases e)
  case (H2_header i name v)
  then show ?thesis by (auto simp: ac_on_header_def called_def intro!: quiet_frame)
next
  case (H2_data_chunk flags i data)
  then show ?thesis by (auto simp: ac_on_data_chunk_def called_def intro!: quiet_frame)
next
  case (H2_frame t flags i response)
  have "quiet s (s\<lparr>ac_last_heartbeat := now\<rparr>)" by (rule quiet_frame) (simp_all add: called_def)
  then show ?thesis using H2_frame
    by (auto simp: ac_on_frame_recv_def quiet_complete quiet_close split: h2_frame_type.splits)
qed

lemma quiet_callbacks: "ac_callbacks now es s = Inr s' \<Longrightarrow> quiet s s'"
proof (induction es arbitrary: s)
  case (Cons e es)
  then have "quiet (ac_callback now s e) s'" by (auto simp: Let_def split: if_splits)
  then show ?case using quiet_callback quiet_trans by blast
qed simp

lemma quiet_after_read:
  "quiet s (if send_rv \<noteq> 0 then ac_close (ac_act Ac_session_send s) else ac_start_read (ac_act Ac_session_send s))"
proof -
  have a: "quiet s (ac_act Ac_session_send s)" by (rule quiet_act) simp
  have "quiet (ac_act Ac_session_send s) (ac_start_read (ac_act Ac_session_send s))"
    unfolding ac_start_read_def by (rule quiet_act) simp
  then show ?thesis using quiet_trans [OF a] quiet_close by simp
qed

lemma quiet_read: "on_read now recv send_rv r s = Inr s' \<Longrightarrow> quiet s s'"
proof (cases r)
  case (Some data)
  assume *: "on_read now recv send_rv r s = Inr s'"
  let ?s1 = "s\<lparr>ac_bytes_received := ac_bytes_received s + length data\<rparr>"
  have "quiet s ?s1" by (rule quiet_frame) (simp_all add: called_def)
  moreover have "quiet ?s1 (ac_act (Ac_tcp_frames data) ?s1)" by (rule quiet_act) simp
  ultimately have q: "quiet s (if b then ac_act (Ac_tcp_frames data) ?s1 else ?s1)" for b
    using quiet_trans by (cases b) auto
  let ?tcp = "starts_tcp_frame data"
  let ?t = "if ?tcp \<and> ac_tcp_frame_handler s then ac_act (Ac_tcp_frames data) ?s1 else ?s1"
  show ?thesis
  proof (cases "?tcp \<or> data = []")
    case True
    then have "s' = (if send_rv \<noteq> 0 then ac_close (ac_act Ac_session_send ?t)
        else ac_start_read (ac_act Ac_session_send ?t))"
      using * by (cases "send_rv = 0"; cases ?tcp) (simp_all add: on_read_def Some Let_def)
    then show ?thesis using quiet_trans [OF q [of "?tcp \<and> ac_tcp_frame_handler s"] quiet_after_read [where send_rv = send_rv]]
      by (simp only:)
  next
    case False
    obtain events rv where ev: "recv data = (events, rv)" by (cases "recv data")
    have "on_read now recv send_rv r s = bind_result (ac_callbacks now events ?s1) (\<lambda>s2.
        if rv < 0 then Inr (ac_close s2) else Inr (if send_rv \<noteq> 0 then ac_close (ac_act Ac_session_send s2)
        else ac_start_read (ac_act Ac_session_send s2)))"
      using False ev by (simp add: on_read_def Some Let_def)
    then obtain s2 where s2: "ac_callbacks now events ?s1 = Inr s2"
      and s': "s' = (if rv < 0 then ac_close s2 else if send_rv \<noteq> 0 then ac_close (ac_act Ac_session_send s2)
        else ac_start_read (ac_act Ac_session_send s2))"
      using * by (cases "ac_callbacks now events ?s1"; cases "rv < 0") simp_all
    have "quiet s ?s1" using q [of False] by simp
    then have q2: "quiet s s2" using quiet_callbacks [OF s2] by (rule quiet_trans)
    show ?thesis
      unfolding s' using quiet_trans [OF q2 quiet_close] quiet_trans [OF q2 quiet_after_read [of s2 send_rv]]
      by (cases "rv < 0") (simp_all only: if_True if_False)
  qed
qed (auto simp: on_read_def quiet_close)

lemma quiet_start: "quiet s (ac_start now rv s)"
proof -
  have q: "quiet s (s\<lparr>ac_on_disconnect := True\<rparr>)" by (rule quiet_frame) (simp_all add: called_def)
  have "quiet (s\<lparr>ac_on_disconnect := True\<rparr>) (ac_act Ac_handshake (s\<lparr>ac_on_disconnect := True\<rparr>))"
    by (rule quiet_act) simp
  then show ?thesis using quiet_trans [OF q] quiet_session by (simp add: ac_start_def Let_def)
qed

lemma quiet_handshake:
  assumes "ac_state s = CONNECTING"
  shows "quiet s (on_handshake now rv ok s)"
proof (cases ok)
  case True
  have "quiet s (s\<lparr>ac_state := CONNECTED\<rparr>)"
    using assms by (simp add: quiet_def ac_ok_def accounted_def called_def)
  then show ?thesis using True quiet_trans [OF _ quiet_session] by (simp add: on_handshake_def)
qed (simp add: on_handshake_def quiet_disconnected)

lemma quiet_heartbeat: "quiet s (on_heartbeat_timer ec now rv s)"
proof -
  have arm: "quiet t (send_heartbeat t)" for t unfolding send_heartbeat_def by (rule quiet_act) simp
  have "quiet s (ac_act Ac_submit_ping s)" by (rule quiet_act) simp
  then have "quiet s (send_pending_data rv (ac_act Ac_submit_ping s))" using quiet_send_pending quiet_trans by blast
  then show ?thesis using arm quiet_trans quiet_close by (auto simp: on_heartbeat_timer_def Let_def)
qed

lemma quiet_tcp: "quiet s (send_tcp_close cid s)" "quiet s (set_tcp_frame_handler s)"
  by (simp_all add: send_tcp_close_def quiet_act)
    (rule quiet_frame, simp_all add: set_tcp_frame_handler_def called_def)

section \<open>Every callback is invoked at most once, and lost only when its id is reused\<close>

definition ac_inv :: "bool \<Rightarrow> AgentConnection \<Rightarrow> bool" where
  "ac_inv f s \<longleftrightarrow> ac_ok s \<and> accounted s \<subseteq># mset [0..<ac_next_callback s]
     \<and> (f \<longrightarrow> accounted s = mset [0..<ac_next_callback s])"

lemma ac_inv_quiet: "ac_inv f s \<Longrightarrow> quiet s s' \<Longrightarrow> ac_inv f s'"
  by (simp add: ac_inv_def quiet_def)

text \<open>A step that takes the next number and accounts for it.\<close>

lemma ac_inv_take:
  assumes "ac_inv f s" "ac_ok s'" "ac_next_callback s' = Suc (ac_next_callback s)"
    and "accounted s' = add_mset (ac_next_callback s) (accounted s)"
  shows "ac_inv f s'"
  using assms by (auto simp: ac_inv_def)

lemma ac_inv_fail:
  assumes "ac_inv f s" "ac_pending_requests s' = ac_pending_requests s" "ac_state s' = ac_state s"
    and "ac_next_callback s' = Suc (ac_next_callback s)" "called s' = called s @ [ac_next_callback s]"
  shows "ac_inv f s'"
  by (rule ac_inv_take [OF assms(1)]) (use assms in \<open>simp_all add: ac_inv_def ac_ok_def accounted_def\<close>)

lemma ac_inv_register:
  assumes "ac_inv f s" "ac_state s = CONNECTED" "ac_state s' = ac_state s"
    and "ac_pending_requests s' = AList.update rid (ac_next_callback s) (ac_pending_requests s)"
    and "ac_next_callback s' = Suc (ac_next_callback s)" "called s' = called s"
  shows "ac_inv (f \<and> rid \<notin> keys_of (ac_pending_requests s)) s'"
proof -
  have ok: "ac_ok s'" using assms by (simp add: ac_inv_def ac_ok_def)
  show ?thesis
  proof (cases "map_of (ac_pending_requests s) rid")
    case None
    then have "accounted s' = add_mset (ac_next_callback s) (accounted s)"
      unfolding accounted_def assms(4,6) mset_update(1) [OF None] by simp
    then have "ac_inv f s'" using ac_inv_take [OF assms(1) ok] assms(5) by simp
    then show ?thesis by (simp add: ac_inv_def)
  next
    case (Some w)
    have "add_mset w (accounted s') = add_mset (ac_next_callback s) (accounted s)"
      unfolding accounted_def assms(4,6) using mset_update(2) [OF Some, of "ac_next_callback s"]
      by (metis union_mset_add_mset_right)
    also have "\<dots> \<subseteq># mset [0..<ac_next_callback s']"
      using assms(1,5) by (simp add: ac_inv_def)
    finally have "accounted s' \<subseteq># mset [0..<ac_next_callback s']"
      by (metis mset_subset_eq_insertD subset_mset.less_imp_le)
    then show ?thesis using ok Some by (simp add: ac_inv_def keys_lookup)
  qed
qed

lemma ac_inv_request:
  assumes "ac_inv f s"
  shows "ac_inv (f \<and> rid \<notin> keys_of (ac_pending_requests s)) (send_http_request i rv rid req timeout s)"
proof -
  have weaken: "ac_inv f t \<Longrightarrow> ac_inv (f \<and> b) t" for b t by (auto simp: ac_inv_def)
  obtain m path headers body where p: "parse_request_text req = (m, path, headers, body)"
    by (cases "parse_request_text req") auto
  let ?s = "s\<lparr>ac_next_callback := Suc (ac_next_callback s)\<rparr>"
  let ?s1 = "ac_act (Ac_submit_headers (header_pairs rid m path headers) (body = [])) ?s"
  let ?s2 = "if body \<noteq> [] then ac_act (Ac_submit_data i body)
       (?s1\<lparr>ac_stream_bodies := AList.update rid body (ac_stream_bodies ?s1)\<rparr>)
     else ac_act (Ac_submit_headers [] True) ?s1"
  let ?s3 = "?s2\<lparr>ac_pending_requests := AList.update rid (ac_next_callback s) (ac_pending_requests ?s2),
                 ac_stream_to_request := AList.update i rid (ac_stream_to_request ?s2)\<rparr>"
  show ?thesis
  proof (cases "ac_state s \<noteq> CONNECTED \<or> \<not> ac_session s \<or> i < 0")
    case True
    then have "ac_inv f (send_http_request i rv rid req timeout s)"
      by (intro ac_inv_fail [OF assms])
        (auto simp: send_http_request_def p Let_def called_act, auto simp: called_def ac_act_def)
    then show ?thesis by (rule weaken)
  next
    case False
    have "ac_inv (f \<and> rid \<notin> keys_of (ac_pending_requests s)) ?s3"
      using False by (intro ac_inv_register [OF assms]) (auto simp: called_def ac_act_def)
    moreover have "quiet ?s3 (ac_act (Ac_arm_timeout rid i timeout) (send_pending_data rv ?s3))"
      by (rule quiet_trans [OF quiet_send_pending quiet_act]) simp
    moreover have "send_http_request i rv rid req timeout s
        = ac_act (Ac_arm_timeout rid i timeout) (send_pending_data rv ?s3)"
      using False by (simp add: send_http_request_def p Let_def)
    ultimately show ?thesis by (simp only: ac_inv_quiet)
  qed
qed

lemma ac_inv_tcp_data: "ac_inv f s \<Longrightarrow> ac_inv f (fst (send_tcp_data now w data s))"
  by (rule ac_inv_fail [of f s]) (auto simp: send_tcp_data_def Let_def update_stats_def called_def ac_act_def split: option.splits)

lemma ac_inv_init: "ac_inv True (AgentConnection_init st now tid)" if "st \<noteq> DISCONNECTING"
  using that by (simp add: ac_inv_def ac_ok_def accounted_def called_def AgentConnection_init_def)

lemma ac_reach_inv: "ac_reach f s \<Longrightarrow> ac_inv f s"
proof (induction rule: ac_reach.induct)
  case (request f s rid i rv req timeout)
  then show ?case by (intro ac_inv_request)
qed (auto intro: ac_inv_quiet [OF _ quiet_start] ac_inv_quiet [OF _ quiet_handshake]
    ac_inv_quiet [OF _ quiet_heartbeat] ac_inv_quiet [OF _ quiet_timeout] ac_inv_quiet [OF _ quiet_read]
    ac_inv_quiet [OF _ quiet_tcp(1)] ac_inv_quiet [OF _ quiet_tcp(2)] ac_inv_quiet [OF _ quiet_close]
    ac_inv_tcp_data ac_inv_init
    simp: AgentConnection_new_def AgentConnection_from_socket_def)

section \<open>Properties\<close>

lemma distinct_submset:
  assumes "mset xs \<subseteq># mset ys" "distinct ys"
  shows "distinct xs"
  unfolding distinct_count_atmost_1
proof
  fix a
  have "count (mset xs) a \<le> count (mset ys) a" using assms(1) by (rule mset_subset_eq_count)
  also have "\<dots> \<le> 1" using assms(2) by (simp add: distinct_count_atmost_1)
  finally show "count (mset xs) a = (if a \<in> set xs then 1 else 0)"
    by (metis One_nat_def count_eq_zero_iff le_Suc_eq le_zero_eq set_mset_mset)
qed

text \<open>
  C9. In every reachable state no callback has been invoked twice, a disconnected connection has no
  pending request, and the final state is never left by what follows. As long as no request was
  sent under an id still pending, a disconnected connection has invoked each callback it was ever
  given, whether of a request or of TCP data, exactly once.
\<close>

theorem callbacks_exactly_once:
  assumes "ac_reach f s"
  shows "distinct (called s) \<and> (ac_state s = DISCONNECTED \<longrightarrow> ac_pending_requests s = [])
    \<and> (f \<longrightarrow> ac_state s = DISCONNECTED \<longrightarrow> mset (called s) = mset [0..<ac_next_callback s])"
proof -
  have inv: "ac_inv f s" using assms by (rule ac_reach_inv)
  then have "mset (called s) \<subseteq># mset [0..<ac_next_callback s]"
    by (metis ac_inv_def accounted_def mset_subset_eq_add_left subset_mset.trans)
  moreover have "distinct [0..<ac_next_callback s]" by simp
  ultimately have "distinct (called s)"
    by (rule distinct_submset)
  then show ?thesis using inv by (auto simp: ac_inv_def ac_ok_def accounted_def)
qed

lemma values_update:
  "umap_wf m \<Longrightarrow> snd ` set (AList.update k v m) = insert v (snd ` set (AList.delete k m))"
proof (induction m)
  case (Cons p m)
  obtain a b where p: "p = (a, b)" by (cases p)
  show ?case
  proof (cases "a = k")
    case True
    then have "map_of m k = None" using Cons.prems
      by (auto simp: p umap_wf_def map_of_eq_None_iff image_iff)
    then have "AList.delete k m = m" by (simp add: AList.delete_id keys_lookup)
    with True show ?thesis by (simp add: p)
  next
    case False
    with Cons show ?thesis by (auto simp: p umap_wf_def)
  qed
qed simp

lemma pending_value_unique:
  assumes "ac_inv f s" "map_of (ac_pending_requests s) rid = Some c"
  shows "c \<notin> snd ` set (AList.delete rid (ac_pending_requests s))" "c < ac_next_callback s" "c \<notin> set (called s)"
proof -
  let ?m = "ac_pending_requests s"
  have wf: "umap_wf ?m" and sub: "accounted s \<subseteq># mset [0..<ac_next_callback s]"
    using assms(1) by (simp_all add: ac_inv_def ac_ok_def)
  have "accounted s = add_mset c (mset (called s) + mset (map snd (AList.delete rid ?m)))"
    unfolding accounted_def mset_delete [OF wf assms(2), symmetric] by simp
  then have sub': "mset (c # called s @ map snd (AList.delete rid ?m)) \<subseteq># mset [0..<ac_next_callback s]"
    using sub by simp
  moreover have "distinct [0..<ac_next_callback s]" by simp
  ultimately have "distinct (c # called s @ map snd (AList.delete rid ?m))"
    by (rule distinct_submset)
  then show "c \<notin> snd ` set (AList.delete rid ?m)" "c \<notin> set (called s)" by auto
  have "c \<in># mset [0..<ac_next_callback s]" using sub' by (rule mset_subset_eqD) simp
  then show "c < ac_next_callback s" by simp
qed

lemma send_http_request_ok:
  assumes "ac_state s = CONNECTED" "ac_session s" "0 \<le> j"
  shows "ac_pending_requests (send_http_request j 0 rid req timeout s)
      = AList.update rid (ac_next_callback s) (ac_pending_requests s)
    \<and> ac_stream_to_request (send_http_request j 0 rid req timeout s)
      = AList.update j rid (ac_stream_to_request s)
    \<and> called (send_http_request j 0 rid req timeout s) = called s
    \<and> response_text i (send_http_request j 0 rid req timeout s) = response_text i s"
proof -
  obtain m path headers body where p: "parse_request_text req = (m, path, headers, body)"
    by (cases "parse_request_text req") auto
  show ?thesis
    using assms by (auto simp: send_http_request_def p Let_def send_pending_data_def ac_act_def
        called_def response_text_def)
qed

text \<open>
  What happens when a second request is sent under an id that is still pending: the response
  of the first request's stream goes to the second request's callback, while the first callback has
  not been invoked and is in no table any more.
\<close>

theorem reused_request_id_crosses_responses:
  assumes "ac_reach f s" "ac_state s = CONNECTED" "ac_session s"
    and "map_of (ac_pending_requests s) rid = Some c" "map_of (ac_stream_to_request s) i = Some rid"
    and "0 \<le> j" "i \<noteq> j" "t = send_http_request j 0 rid req timeout s" "u = complete_request i t"
  shows "ac_actions u = ac_actions t @ [Ac_callback (ac_next_callback s) (response_text i s) False]
    \<and> c \<notin> set (called u) \<and> c \<notin> snd ` set (ac_pending_requests u)"
proof -
  have inv: "ac_inv f s" using assms(1) by (rule ac_reach_inv)
  then have wf: "umap_wf (ac_pending_requests s)" by (simp add: ac_inv_def ac_ok_def)
  note c = pending_value_unique [OF inv assms(4)]
  note t = send_http_request_ok [OF assms(2,3,6), of rid req timeout i, folded assms(8)]
  have look: "map_of (ac_stream_to_request t) i = Some rid"
    "map_of (ac_pending_requests t) rid = Some (ac_next_callback s)"
    using t assms(5,7) by (simp_all add: map_simps)
  then have u: "ac_actions u = ac_actions t @ [Ac_callback (ac_next_callback s) (response_text i s) False]"
    "ac_pending_requests u = AList.delete rid (ac_pending_requests t)"
    using t by (simp_all add: assms(9) complete_request_def ac_act_def)
  have "called u = called s @ [ac_next_callback s]"
    using t u(1) by (simp add: called_def)
  moreover have "snd ` set (ac_pending_requests u) \<subseteq> snd ` set (ac_pending_requests t)"
    using u(2) by (auto simp: AList.delete_eq)
  ultimately show ?thesis
    using u(1) c t values_update [OF wf, of rid "ac_next_callback s"] by auto
qed

text \<open>
  C34. A connection that hears nothing from its agent is closed at the third heartbeat, 90 seconds
  after the last sign of life: the timer re-arms at 30 and 60 seconds. What counts as a sign of life
  is the acknowledgement of a PING, but also any TCP data the server itself has sent.
\<close>

theorem heartbeat_timeout:
  assumes "ac_state s = CONNECTED" "ac_session s" "ac_last_heartbeat s = t0"
    and "s1 = on_heartbeat_timer False (t0 + 30) 0 s" "s2 = on_heartbeat_timer False (t0 + 60) 0 s1"
    and "s3 = on_heartbeat_timer False (t0 + 90) 0 s2"
  shows "ac_state s2 = CONNECTED \<and> last (ac_actions s2) = Ac_arm_heartbeat \<and> ac_state s3 = DISCONNECTED
    \<and> (\<forall>now n. ac_state (on_heartbeat_timer False (t0 + 90) 0 (update_stats (t0 + now) n 0 s2)) = DISCONNECTED
         \<longleftrightarrow> now < 30)"
proof -
  have step: "ac_state (on_heartbeat_timer False n 0 u) = CONNECTED \<and> ac_last_heartbeat (on_heartbeat_timer False n 0 u) = t
      \<and> last (ac_actions (on_heartbeat_timer False n 0 u)) = Ac_arm_heartbeat"
    if "ac_state u = CONNECTED" "ac_last_heartbeat u = t" "n - t \<le> 60" for u n t
    using that by (auto simp: on_heartbeat_timer_def send_heartbeat_def send_pending_data_def Let_def)
      (simp_all add: ac_act_def)
  have s1: "ac_state s1 = CONNECTED" "ac_last_heartbeat s1 = t0" using step [OF assms(1,3)] assms(4) by simp_all
  have s2: "ac_state s2 = CONNECTED" "ac_last_heartbeat s2 = t0" "last (ac_actions s2) = Ac_arm_heartbeat"
    using step [OF s1] assms(5) by simp_all
  have "ac_state s3 = DISCONNECTED"
    using s2 assms(6) by (simp add: on_heartbeat_timer_def ac_close_def Let_def)
  moreover have "ac_state (on_heartbeat_timer False (t0 + 90) 0 (update_stats (t0 + now) n 0 s2)) = DISCONNECTED
      \<longleftrightarrow> now < 30" for now n
    using s2(1) by (auto simp: on_heartbeat_timer_def update_stats_def ac_close_def send_heartbeat_def
        send_pending_data_def Let_def)
  ultimately show ?thesis using s2 by simp
qed

text \<open>
  A GOAWAY frame from the agent is handled by closing the connection inside the callback, which
  frees the HTTP/2 session that \<open>nghttp2_session_mem_recv\<close> is still working on.
\<close>

theorem goaway_frees_session_in_use:
  assumes "ac_state s = CONNECTED" "ac_session s" "\<not> starts_tcp_frame data" "data \<noteq> []"
    and "recv data = (H2_frame H2_GOAWAY flags i resp # events, rv)"
  shows "on_read now recv send_rv (Some data) s = Inl Use_after_free"
  using assms by (simp add: on_read_def Let_def ac_on_frame_recv_def ac_close_def)

section \<open>Witnesses\<close>

text \<open>A connected agent with one request in flight on stream 1.\<close>

definition sample_agent :: AgentConnection where
  "sample_agent = send_http_request 1 0 ''req_7'' (''GET / HTTP/1.1'' @ CRLF @ CRLF) 30
     (ac_start 100 0 (AgentConnection_from_socket 100 ''t1''))"

lemma started_agent:
  "ac_start 100 0 (AgentConnection_from_socket 100 ''t1'')
    = (AgentConnection_from_socket 100 ''t1'')\<lparr>ac_on_disconnect := True, ac_session := True,
        ac_last_heartbeat := 100,
        ac_actions := [Ac_submit_settings, Ac_session_send, Ac_arm_heartbeat, Ac_start_read]\<rparr>"
  by (simp add: ac_start_def start_session_def initialize_nghttp2_def send_pending_data_def
      start_heartbeat_def send_heartbeat_def ac_start_read_def AgentConnection_from_socket_def
      AgentConnection_init_def ac_act_def Let_def)

lemma started_agent_fields:
  "ac_state (ac_start 100 0 (AgentConnection_from_socket 100 ''t1'')) = CONNECTED"
  "ac_session (ac_start 100 0 (AgentConnection_from_socket 100 ''t1''))"
  "ac_pending_requests (ac_start 100 0 (AgentConnection_from_socket 100 ''t1'')) = []"
  "ac_stream_to_request (ac_start 100 0 (AgentConnection_from_socket 100 ''t1'')) = []"
  "ac_next_callback (ac_start 100 0 (AgentConnection_from_socket 100 ''t1'')) = 0"
  "called (ac_start 100 0 (AgentConnection_from_socket 100 ''t1'')) = []"
  "ac_last_heartbeat (ac_start 100 0 (AgentConnection_from_socket 100 ''t1'')) = 100"
  unfolding started_agent
  by (simp_all add: AgentConnection_from_socket_def AgentConnection_init_def called_def)

lemma sample_agent_reach: "ac_reach True sample_agent"
proof -
  let ?s = "ac_start 100 0 (AgentConnection_from_socket 100 ''t1'')"
  have "ac_reach True ?s" by (intro ac_reach.start ac_reach.socket)
  then have "ac_reach (True \<and> ''req_7'' \<notin> keys_of (ac_pending_requests ?s)) sample_agent"
    unfolding sample_agent_def by (rule ac_reach.request)
  then show ?thesis by (simp add: started_agent_fields)
qed

lemma sample_agent_fields:
  "ac_state sample_agent = CONNECTED" "ac_session sample_agent" "ac_last_heartbeat sample_agent = 100"
  "ac_pending_requests sample_agent = [(''req_7'', 0)]" "ac_stream_to_request sample_agent = [(1, ''req_7'')]"
  "ac_next_callback sample_agent = 1" "called sample_agent = []"
proof -
  let ?s = "ac_start 100 0 (AgentConnection_from_socket 100 ''t1'')"
  note s = started_agent_fields
  note ok = send_http_request_ok [OF s(1,2), of 1 "''req_7''" "''GET / HTTP/1.1'' @ CRLF @ CRLF" 30, folded sample_agent_def]
  show "ac_pending_requests sample_agent = [(''req_7'', 0)]" "ac_stream_to_request sample_agent = [(1, ''req_7'')]"
    "called sample_agent = []" using ok s by simp_all
  obtain m path headers body where p: "parse_request_text (''GET / HTTP/1.1'' @ CRLF @ CRLF) = (m, path, headers, body)"
    by (cases "parse_request_text (''GET / HTTP/1.1'' @ CRLF @ CRLF)") auto
  show "ac_state sample_agent = CONNECTED" "ac_session sample_agent" "ac_last_heartbeat sample_agent = 100"
    "ac_next_callback sample_agent = 1"
    using s by (simp_all add: sample_agent_def send_http_request_def p [simplified] send_pending_data_def Let_def)
qed

lemma callbacks_exactly_once_witness: "mset (called (ac_close sample_agent)) = {#0#}"
proof -
  have "ac_state (ac_close sample_agent) = DISCONNECTED" "ac_next_callback (ac_close sample_agent) = 1"
    by (simp_all add: ac_close_def sample_agent_fields Let_def)
  then show ?thesis
    using callbacks_exactly_once [OF ac_reach.close [OF sample_agent_reach]] by simp
qed

lemma reused_request_id_crosses_responses_witness:
  "last (ac_actions (complete_request 1 (send_http_request 3 0 ''req_7'' [] 30 sample_agent)))
    = Ac_callback 1 (response_text 1 sample_agent) False"
  using reused_request_id_crosses_responses [OF sample_agent_reach, of "''req_7''" 0 1 3
      "send_http_request 3 0 ''req_7'' [] 30 sample_agent" "[]" 30] sample_agent_fields by simp

lemma heartbeat_timeout_witness:
  "ac_state (on_heartbeat_timer False 190 0 (on_heartbeat_timer False 160 0
     (on_heartbeat_timer False 130 0 sample_agent))) = DISCONNECTED"
  using heartbeat_timeout [OF sample_agent_fields(1-3) refl refl refl,
      THEN conjunct2, THEN conjunct2, THEN conjunct1] by simp

lemma goaway_frees_session_in_use_witness:
  "on_read 100 (\<lambda>_. ([H2_frame H2_GOAWAY 0 0 False], 9)) 0 (Some [0, 0, 8]) sample_agent = Inl Use_after_free"
  using goaway_frees_session_in_use [OF sample_agent_fields(1,2), of "[0, 0, 8]" "\<lambda>_. ([H2_frame H2_GOAWAY 0 0 False], 9)" 0 0 False "[]" 9 100 0]
  by (simp add: starts_tcp_frame_def)

end
