(* ===== verification/Token_Validator.thy ===== *)
theory Token_Validator
  imports Cache Cpp_String
begin

text \<open>
  \<open>src/security/token_validator.{h,cpp}\<close> and \<open>src/models/auth_token.h\<close>: bearer tokens, kept in a cache
  by tunnel id as the hash of their text. SHA-256 is OpenSSL's and an argument \<open>sha\<close>; \<open>steady\<close> is the
  clock of the cache, \<open>now\<close> the system clock against which a token expires, and \<open>ord\<close> the order in
  which the cache is walked.
\<close>

section \<open>Tokens and results\<close>

record AuthToken =
  at_tunnel_id :: string
  at_token :: string
  at_token_hash :: string
  at_created_at :: int
  at_expires_at :: int
  at_is_active :: bool

record ValidationResult =
  vr_valid :: bool
  vr_tunnel_id :: string
  vr_error_code :: string
  vr_error_message :: string

definition vr_success :: "string \<Rightarrow> ValidationResult" where
  "vr_success tid = \<lparr>vr_valid = True, vr_tunnel_id = tid, vr_error_code = '''', vr_error_message = ''''\<rparr>"

definition vr_failure :: "string \<Rightarrow> string \<Rightarrow> ValidationResult" where
  "vr_failure code msg = \<lparr>vr_valid = False, vr_tunnel_id = '''', vr_error_code = code, vr_error_message = msg\<rparr>"

type_synonym token_cache = "(string, AuthToken) Cache"

section \<open>Operations\<close>

definition white :: string where
  "white = [CHR '' '', CHR 0x09, CHR 0x0A, CHR 0x0D]"

definition extract_token :: "string \<Rightarrow> string" where
  "extract_token authorization_header =
    (if \<not> starts_with ''Bearer '' authorization_header then ''''
     else let token = trim white (drop (length ''Bearer '') authorization_header)
          in if \<not> starts_with ''tnl_'' token then '''' else token)"

definition compute_token_hash :: "(string \<Rightarrow> bytes) \<Rightarrow> string \<Rightarrow> string" where
  "compute_token_hash sha token = concat (map hex2 (sha token))"

definition token_expired :: "int \<Rightarrow> AuthToken \<Rightarrow> bool" where
  "token_expired now t \<longleftrightarrow> now \<ge> at_expires_at t"

definition validate_token ::
  "(string \<Rightarrow> bytes) \<Rightarrow> int \<Rightarrow> int \<Rightarrow> string list \<Rightarrow> token_cache \<Rightarrow> string \<Rightarrow> ValidationResult" where
  "validate_token sha steady now ord c token =
    (let token_hash = compute_token_hash sha token;
         (found, matched) = Cache_for_each steady ord (\<lambda>(found, matched) tid t.
            if at_token_hash t = token_hash then
              (if token_expired now t then (found, matched) else (True, tid))
            else (found, matched)) c (False, '''')
     in if found then vr_success matched
        else vr_failure ''INVALID_TOKEN'' ''Token not found or expired'')"

definition validate ::
  "(string \<Rightarrow> bytes) \<Rightarrow> int \<Rightarrow> int \<Rightarrow> string list \<Rightarrow> token_cache \<Rightarrow> string \<Rightarrow> ValidationResult" where
  "validate sha steady now ord c header =
    (let token = extract_token header
     in if token = '''' then vr_failure ''INVALID_FORMAT'' (''Authorization header must be '' @ [CHR 0x27] @ ''Bearer tnl_...'' @ [CHR 0x27])
        else validate_token sha steady now ord c token)"

definition add_token :: "int \<Rightarrow> string \<Rightarrow> AuthToken \<Rightarrow> int \<Rightarrow> token_cache \<Rightarrow> token_cache" where
  "add_token steady tid t ttl c = Cache_put_ttl steady tid t ttl c"

definition revoke_token :: "string \<Rightarrow> token_cache \<Rightarrow> token_cache" where
  "revoke_token tid c = snd (Cache_remove tid c)"

text \<open>The new token lives for 90 days (the default of \<open>add_token\<close>), the old one for the grace period.\<close>

definition rotate_token :: "int \<Rightarrow> string \<Rightarrow> AuthToken \<Rightarrow> int \<Rightarrow> token_cache \<Rightarrow> token_cache" where
  "rotate_token steady tid new_token grace_period c =
    (let old_token = Cache_get steady tid c;
         c1 = add_token steady tid new_token (24 * 90 * 3600) c
     in case old_token of None \<Rightarrow> c1
        | Some old \<Rightarrow> Cache_put_ttl steady (tid @ '':old'') old grace_period c1)"

section \<open>What the search finds\<close>

text \<open>An entry that makes a token valid: seen by the cache, of the same hash, not expired.\<close>

definition grants :: "(string \<Rightarrow> bytes) \<Rightarrow> int \<Rightarrow> int \<Rightarrow> token_cache \<Rightarrow> string \<Rightarrow> string \<Rightarrow> bool" where
  "grants sha steady now c token tid \<longleftrightarrow> (case Cache_get steady tid c of
     None \<Rightarrow> False
   | Some t \<Rightarrow> at_token_hash t = compute_token_hash sha token \<and> \<not> token_expired now t)"

lemma search_fold:
  "foldl (\<lambda>s (k, v). if P v then if Q v then s else (True, k) else s) s xs
    = (case filter (\<lambda>(k, v). P v \<and> \<not> Q v) xs of [] \<Rightarrow> s | ys \<Rightarrow> (True, fst (last ys)))"
proof (induction xs rule: rev_induct)
  case (snoc x xs)
  then show ?case by (cases x) (auto split: list.splits)
qed simp

lemma validate_token_search:
  "validate_token sha steady now ord c token =
    (case filter (\<lambda>(k, t). at_token_hash t = compute_token_hash sha token \<and> \<not> token_expired now t)
            (Cache_live steady ord c) of
       [] \<Rightarrow> vr_failure ''INVALID_TOKEN'' ''Token not found or expired''
     | ys \<Rightarrow> vr_success (fst (last ys)))"
proof -
  have "(\<lambda>s (k, v). case s of (found, m) \<Rightarrow> if at_token_hash v = compute_token_hash sha token
        then if token_expired now v then (found, m) else (True, k) else (found, m))
    = (\<lambda>s (k, v). if at_token_hash v = compute_token_hash sha token
        then if token_expired now v then s else (True, k) else s)"
    by (auto simp: fun_eq_iff)
  then show ?thesis
    unfolding validate_token_def Cache_for_each_def Let_def search_fold
    by (simp add: search_fold split: list.splits)
qed

lemma grants_filter:
  assumes "walk_of ord c"
  shows "grants sha steady now c token tid \<longleftrightarrow> (\<exists>t. (tid, t) \<in> set (filter (\<lambda>(k, t).
      at_token_hash t = compute_token_hash sha token \<and> \<not> token_expired now t) (Cache_live steady ord c)))"
  by (auto simp: grants_def Cache_live_get [OF assms] split: option.splits)

lemma nonempty_pair: "xs \<noteq> [] \<longleftrightarrow> (\<exists>a b. (a, b) \<in> set xs)"
  by (cases xs) auto

lemma validate_token_iff:
  assumes "walk_of ord c"
  shows "vr_valid (validate_token sha steady now ord c token) \<longleftrightarrow> (\<exists>tid. grants sha steady now c token tid)"
    and "vr_valid (validate_token sha steady now ord c token) \<Longrightarrow>
      grants sha steady now c token (vr_tunnel_id (validate_token sha steady now ord c token))"
proof -
  define ys where "ys = filter (\<lambda>(k, t). at_token_hash t = compute_token_hash sha token \<and> \<not> token_expired now t)
      (Cache_live steady ord c)"
  have v: "validate_token sha steady now ord c token =
      (if ys = [] then vr_failure ''INVALID_TOKEN'' ''Token not found or expired'' else vr_success (fst (last ys)))"
    unfolding validate_token_search ys_def [symmetric] by (cases ys) simp_all
  have g: "grants sha steady now c token tid \<longleftrightarrow> (\<exists>t. (tid, t) \<in> set ys)" for tid
    unfolding ys_def by (rule grants_filter [OF assms])
  show "vr_valid (validate_token sha steady now ord c token) \<longleftrightarrow> (\<exists>tid. grants sha steady now c token tid)"
    unfolding v g using nonempty_pair [of ys] by (simp add: vr_success_def vr_failure_def)
  assume "vr_valid (validate_token sha steady now ord c token)"
  then have ne: "ys \<noteq> []" unfolding v by (auto simp: vr_failure_def split: if_splits)
  then have "\<exists>t. (fst (last ys), t) \<in> set ys" by (metis last_in_set prod.collapse)
  then show "grants sha steady now c token (vr_tunnel_id (validate_token sha steady now ord c token))"
    unfolding v g using ne by (auto simp: vr_success_def simp del: prod.collapse)
qed

lemma extract_token_bearer:
  assumes "starts_with ''tnl_'' tok" "last tok \<notin> set white"
  shows "extract_token (''Bearer '' @ tok) = tok"
proof -
  obtain r where "tok = ''tnl_'' @ r" using assms(1) by (auto simp: starts_with_iff)
  then have "hd tok \<notin> set white" by (simp add: white_def)
  then have "trim white tok = tok" using assms(2) trim_id by metis
  then show ?thesis using assms(1) by (simp add: extract_token_def starts_with_def)
qed

section \<open>Properties\<close>

text \<open>
  C17. A header is accepted exactly when it has the form \<open>Bearer tnl_...\<close> and some live entry of the
  cache has the hash of its token and has not expired; the tunnel id of the result is the key of
  such an entry.
\<close>

theorem validate_accepts:
  assumes "walk_of ord c" "r = validate sha steady now ord c header"
  shows "(vr_valid r \<longleftrightarrow> extract_token header \<noteq> '''' \<and> (\<exists>tid. grants sha steady now c (extract_token header) tid))
    \<and> (vr_valid r \<longrightarrow> grants sha steady now c (extract_token header) (vr_tunnel_id r))"
  using validate_token_iff [OF assms(1), of sha steady now "extract_token header"]
  by (auto simp: assms(2) validate_def Let_def vr_failure_def)

lemma Cache_wf_token [simp]:
  "Cache_wf c \<Longrightarrow> Cache_wf (add_token s tid t ttl c)" "Cache_wf c \<Longrightarrow> Cache_wf (revoke_token tid c)"
  "Cache_wf c \<Longrightarrow> Cache_wf (rotate_token s tid t g c)"
  by (simp_all add: add_token_def revoke_token_def rotate_token_def Let_def split: option.splits)

lemma Cache_get_rotate:
  assumes "Cache_wf c" "Cache_get t0 tid c = Some old"
  shows "Cache_get s k (rotate_token t0 tid new g c) =
    (if k = tid @ '':old'' then if s < t0 + seconds g then Some old else None
     else if k = tid then if s < t0 + seconds (24 * 90 * 3600) then Some new else None
     else Cache_get s k c)"
  using assms by (simp add: rotate_token_def add_token_def cache_store.get_put Let_def)

text \<open>
  Rotation. After a token of a tunnel is rotated at time \<open>t0\<close>, the new token is valid for the
  tunnel for 90 days; the old one stays valid until the grace period ends and not longer, provided
  no other entry has its hash. But what validating the old token returns is not the tunnel's id: it
  is the id with \<open>:old\<close> appended.
\<close>

theorem rotation_grace:
  assumes "Cache_wf c" "Cache_get t0 tid c = Some old" "\<not> token_expired now old" "\<not> token_expired now new"
    and "at_token_hash old = compute_token_hash sha tok" "at_token_hash new = compute_token_hash sha tok'"
    and "compute_token_hash sha tok \<noteq> compute_token_hash sha tok'"
    and "\<forall>k t. k \<noteq> tid \<longrightarrow> Cache_get s k c = Some t \<longrightarrow> at_token_hash t \<noteq> compute_token_hash sha tok"
    and "c' = rotate_token t0 tid new g c" "walk_of ord c'" "s < t0 + seconds (24 * 90 * 3600)"
    and "r = validate_token sha s now ord c' tok"
  shows "grants sha s now c' tok' tid
    \<and> (vr_valid r \<longleftrightarrow> s < t0 + seconds g) \<and> (vr_valid r \<longrightarrow> vr_tunnel_id r = tid @ '':old'')"
proof -
  note get = Cache_get_rotate [OF assms(1,2), where new = new and g = g and s = s, folded assms(9)]
  have old: "grants sha s now c' tok k \<longleftrightarrow> k = tid @ '':old'' \<and> s < t0 + seconds g" for k
    using assms(3-8) by (auto simp: grants_def get split: option.splits)
  have "grants sha s now c' tok' tid" using assms(4,6,11) by (simp add: grants_def get)
  then show ?thesis
    using validate_token_iff [OF assms(10), of sha s now tok] old by (auto simp: assms(12))
qed

text \<open>
  Revoking a tunnel's token does not revoke the token it replaced: within the grace period of a
  rotation the old token still validates after the revocation.
\<close>

theorem revocation_leaves_old_token:
  assumes "Cache_wf c" "Cache_get t0 tid c = Some old" "\<not> token_expired now old"
    and "at_token_hash old = compute_token_hash sha tok" "s < t0 + seconds g"
    and "c' = revoke_token tid (rotate_token t0 tid new g c)" "walk_of ord c'"
  shows "Cache_get s tid c' = None \<and> vr_valid (validate_token sha s now ord c' tok)"
proof -
  have get: "Cache_get s k c' = (if k = tid then None else Cache_get s k (rotate_token t0 tid new g c))" for k
    using assms(1) by (simp add: assms(6) revoke_token_def cache_store.get_remove)
  then have "grants sha s now c' tok (tid @ '':old'')"
    using assms(3-5) by (simp add: grants_def Cache_get_rotate [OF assms(1,2)])
  then show ?thesis using get validate_token_iff [OF assms(7)] by auto
qed

section \<open>Witnesses\<close>

text \<open>A stand-in for the hash: the first byte of the text. Two tokens, and the cache that holds the first.\<close>

definition sample_sha :: "string \<Rightarrow> bytes" where
  "sample_sha s = [word_of_nat (of_char (last s))]"

definition sample_token :: "string \<Rightarrow> AuthToken" where
  "sample_token tok = \<lparr>at_tunnel_id = ''t1'', at_token = '''', at_token_hash = compute_token_hash sample_sha tok,
     at_created_at = 0, at_expires_at = 1000, at_is_active = True\<rparr>"

definition sample_tokens :: token_cache where
  "sample_tokens = add_token 0 ''t1'' (sample_token ''tnl_a'') 60 (Cache_new 3600)"

lemma sample_hashes:
  "compute_token_hash sample_sha ''tnl_a'' = ''61''" "compute_token_hash sample_sha ''tnl_b'' = ''62''"
  by code_simp+

lemma sample_tokens_get: "Cache_get s k sample_tokens =
    (if k = ''t1'' \<and> s < 60000000000 then Some (sample_token ''tnl_a'') else None)"
  by (simp add: sample_tokens_def add_token_def cache_store.get_put seconds_def)
    (simp add: Cache_get_def Cache_new_def)

lemma sample_tokens_wf: "Cache_wf sample_tokens" "walk_of [''t1''] sample_tokens"
  by (simp_all add: sample_tokens_def walk_of_def add_token_def Cache_put_ttl_def Cache_new_def Cache_wf_def
      umap_wf_def)

lemma validate_accepts_witness:
  "vr_valid (validate sample_sha 5 5 [''t1''] sample_tokens ''Bearer tnl_a'')"
proof -
  have "extract_token (''Bearer '' @ ''tnl_a'') = ''tnl_a''"
    by (rule extract_token_bearer) (simp_all add: starts_with_def white_def)
  then have "extract_token ''Bearer tnl_a'' = ''tnl_a''" by simp
  moreover have "grants sample_sha 5 5 sample_tokens ''tnl_a'' ''t1''"
    by (simp add: grants_def sample_tokens_get sample_token_def token_expired_def)
  ultimately show ?thesis
    using validate_accepts [OF sample_tokens_wf(2) refl, of sample_sha 5 5 "''Bearer tnl_a''"] by auto
qed

lemma sample_rotated_walk:
  "walk_of [''t1'', ''t1:old''] (rotate_token 1 ''t1'' (sample_token ''tnl_b'') 300 sample_tokens)"
  "walk_of [''t1:old''] (revoke_token ''t1'' (rotate_token 1 ''t1'' (sample_token ''tnl_b'') 300 sample_tokens))"
  by (simp_all add: rotate_token_def sample_tokens_get add_token_def Let_def)
    (simp_all add: walk_of_def sample_tokens_def add_token_def Cache_put_ttl_def Cache_new_def
      revoke_token_def Cache_remove_def)

lemma rotation_grace_witness:
  "vr_tunnel_id (validate_token sample_sha 5 5 [''t1'', ''t1:old'']
     (rotate_token 1 ''t1'' (sample_token ''tnl_b'') 300 sample_tokens) ''tnl_a'') = ''t1:old''"
  using rotation_grace [OF sample_tokens_wf(1), of 1 "''t1''" "sample_token ''tnl_a''" 5 "sample_token ''tnl_b''"
      sample_sha "''tnl_a''" "''tnl_b''" 5 _ 300 "[''t1'', ''t1:old'']", OF _ _ _ _ _ _ _ refl sample_rotated_walk(1) _ refl]
  by (simp add: sample_tokens_get token_expired_def seconds_def) (simp add: sample_token_def sample_hashes)

lemma revocation_leaves_old_token_witness:
  "vr_valid (validate_token sample_sha 5 5 [''t1:old'']
     (revoke_token ''t1'' (rotate_token 1 ''t1'' (sample_token ''tnl_b'') 300 sample_tokens)) ''tnl_a'')"
  using revocation_leaves_old_token [OF sample_tokens_wf(1), of 1 "''t1''" "sample_token ''tnl_a''" 5
      sample_sha "''tnl_a''" 5 300, OF _ _ _ _ refl sample_rotated_walk(2)]
  by (simp add: sample_tokens_get token_expired_def seconds_def) (simp add: sample_token_def)

end
