(* ===== verification/Agent_Registry.thy ===== *)
theory Agent_Registry
  imports Agent_Connection
begin

text \<open>
  \<open>src/agent/agent_registry.{h,cpp}\<close>: which agent serves which tunnel. A \<open>shared_ptr\<close> to a connection
  is a handle into the list of all connections; the operations that read or close connections take
  that list.
\<close>

section \<open>Operations\<close>

record AgentRegistry =
  max_agents :: nat
  agents :: "(string, nat) umap"

definition AgentRegistry_new :: "nat \<Rightarrow> AgentRegistry" where
  "AgentRegistry_new n = \<lparr>max_agents = n, agents = []\<rparr>"

definition register_agent :: "string \<Rightarrow> nat \<Rightarrow> AgentRegistry \<Rightarrow> bool \<times> AgentRegistry" where
  "register_agent tid agent r =
    (if length (agents r) \<ge> max_agents r then (False, r)
     else if map_of (agents r) tid \<noteq> None then (False, r)
     else (True, r\<lparr>agents := AList.update tid agent (agents r)\<rparr>))"

definition unregister_agent :: "string \<Rightarrow> AgentRegistry \<Rightarrow> AgentRegistry" where
  "unregister_agent tid r =
    (case map_of (agents r) tid of None \<Rightarrow> r | Some h \<Rightarrow> r\<lparr>agents := AList.delete tid (agents r)\<rparr>)"

definition get_agent :: "string \<Rightarrow> AgentRegistry \<Rightarrow> nat option" where
  "get_agent tid r = map_of (agents r) tid"

definition is_connected :: "AgentConnection list \<Rightarrow> string \<Rightarrow> AgentRegistry \<Rightarrow> bool" where
  "is_connected conns tid r =
    (case get_agent tid r of None \<Rightarrow> False | Some h \<Rightarrow> ac_state (conns ! h) = CONNECTED)"

definition agent_count :: "AgentRegistry \<Rightarrow> nat" where
  "agent_count r = length (agents r)"

definition is_full :: "AgentRegistry \<Rightarrow> bool" where
  "is_full r \<longleftrightarrow> length (agents r) \<ge> max_agents r"

definition get_tunnel_ids :: "AgentRegistry \<Rightarrow> string list" where
  "get_tunnel_ids r = map fst (agents r)"

definition get_all_agents :: "int \<Rightarrow> AgentConnection list \<Rightarrow> AgentRegistry \<Rightarrow> TunnelAgent list" where
  "get_all_agents now conns r = map (\<lambda>(tid, h). get_metadata now (conns ! h)) (agents r)"

text \<open>
  \<open>shutdown\<close> closes every connection while it holds the registry's lock. Closing calls the disconnect
  callback, and the callback the agent server installs calls \<open>unregister_agent\<close>, which takes that
  lock: \<open>Deadlock\<close>.
\<close>

fun close_all :: "nat list \<Rightarrow> AgentConnection list \<Rightarrow> AgentConnection list result" where
  "close_all [] conns = Inr conns"
| "close_all (h # hs) conns =
    (let c = conns ! h
     in if ac_state c \<noteq> DISCONNECTED \<and> ac_state c \<noteq> DISCONNECTING \<and> ac_on_disconnect c
        then Inl Deadlock
        else close_all hs (conns[h := ac_close c]))"

definition registry_shutdown :: "AgentConnection list \<Rightarrow> AgentRegistry \<Rightarrow> (AgentConnection list \<times> AgentRegistry) result" where
  "registry_shutdown conns r =
     bind_result (close_all (map snd (agents r)) conns) (\<lambda>conns'. Inr (conns', r\<lparr>agents := []\<rparr>))"

definition handle_agent_disconnect :: "string \<Rightarrow> AgentRegistry \<Rightarrow> AgentRegistry" where
  "handle_agent_disconnect tid r = unregister_agent tid r"

section \<open>The interface the servers and proxies rely on\<close>

text \<open>
  A bounded directory: an entry is added only where there is none and only while there is room, and
  lookups see exactly what was added and not removed.
\<close>

locale directory =
  fixes add :: "'k \<Rightarrow> 'a \<Rightarrow> 'd \<Rightarrow> bool \<times> 'd"
    and drop_key :: "'k \<Rightarrow> 'd \<Rightarrow> 'd"
    and look :: "'k \<Rightarrow> 'd \<Rightarrow> 'a option"
    and size_of :: "'d \<Rightarrow> nat"
    and capacity :: "'d \<Rightarrow> nat"
    and wf :: "'d \<Rightarrow> bool"
  assumes add_ok: "wf d \<Longrightarrow> fst (add k a d) \<longleftrightarrow> look k d = None \<and> size_of d < capacity d"
    and look_add: "wf d \<Longrightarrow> look j (snd (add k a d)) = (if fst (add k a d) \<and> j = k then Some a else look j d)"
    and look_drop: "wf d \<Longrightarrow> look j (drop_key k d) = (if j = k then None else look j d)"
    and size_add: "wf d \<Longrightarrow> size_of (snd (add k a d)) = (if fst (add k a d) then Suc (size_of d) else size_of d)"
    and size_drop: "wf d \<Longrightarrow> size_of (drop_key k d) = (if look k d = None then size_of d else size_of d - 1)"
    and capacity_const: "capacity (snd (add k a d)) = capacity d" "capacity (drop_key k d) = capacity d"
    and wf_add: "wf d \<Longrightarrow> wf (snd (add k a d))"
    and wf_drop: "wf d \<Longrightarrow> wf (drop_key k d)"
begin

text \<open>The first one wins: while an entry stays, no other can take its place.\<close>

lemma add_occupied: "wf d \<Longrightarrow> look k d = Some a \<Longrightarrow> \<not> fst (add k b d) \<and> look k (snd (add k b d)) = Some a"
  by (simp add: add_ok look_add)

lemma within_capacity_add: "wf d \<Longrightarrow> size_of d \<le> capacity d \<Longrightarrow> size_of (snd (add k a d)) \<le> capacity (snd (add k a d))"
  by (simp add: size_add capacity_const) (metis add_ok Suc_leI)

lemma within_capacity_drop: "wf d \<Longrightarrow> size_of d \<le> capacity d \<Longrightarrow> size_of (drop_key k d) \<le> capacity (drop_key k d)"
  by (auto simp: size_drop capacity_const)

lemma full_rejects: "wf d \<Longrightarrow> capacity d \<le> size_of d \<Longrightarrow> \<not> fst (add k a d)"
  by (simp add: add_ok)

lemma add_after_drop:
  "wf d \<Longrightarrow> look k d \<noteq> None \<Longrightarrow> 0 < size_of d \<Longrightarrow> size_of d \<le> capacity d \<Longrightarrow> fst (add k a (drop_key k d))"
  by (auto simp: add_ok wf_drop look_drop size_drop capacity_const)

end

definition registry_wf :: "AgentRegistry \<Rightarrow> bool" where
  "registry_wf r \<longleftrightarrow> umap_wf (agents r)"

interpretation registry: directory register_agent unregister_agent get_agent agent_count max_agents registry_wf
  by unfold_locales
    (auto simp: register_agent_def unregister_agent_def get_agent_def agent_count_def registry_wf_def
      map_simps split: option.splits)

section \<open>Sequences of registrations\<close>

datatype registry_op = Reg string nat | Unreg string

fun registry_step :: "AgentRegistry \<Rightarrow> registry_op \<Rightarrow> AgentRegistry" where
  "registry_step r (Reg tid h) = snd (register_agent tid h r)"
| "registry_step r (Unreg tid) = unregister_agent tid r"

definition registry_inv :: "AgentRegistry \<Rightarrow> bool" where
  "registry_inv r \<longleftrightarrow> registry_wf r \<and> agent_count r \<le> max_agents r"

interpretation registry_machine: step_machine registry_step registry_inv
proof
  fix r e assume "registry_inv r"
  then show "registry_inv (registry_step r e)"
    by (cases e) (simp_all add: registry_inv_def registry.wf_add registry.wf_drop
        registry.within_capacity_add registry.within_capacity_drop)
qed

lemma max_agents_run: "max_agents (foldl registry_step r ops) = max_agents r"
proof (induction ops arbitrary: r)
  case (Cons op ops)
  then show ?case by (cases op) (simp_all add: registry.capacity_const)
qed simp

text \<open>
  C20. Whatever the sequence of registrations and removals, the registry never holds more agents
  than its limit nor two for one tunnel; and once an agent is registered for a tunnel, it stays the
  tunnel's agent until that tunnel is unregistered, whoever else tries to register.
\<close>

theorem registry_first_wins:
  assumes "\<forall>op \<in> set ops'. op \<noteq> Unreg tid"
    and "r = foldl registry_step (AgentRegistry_new n) ops" "get_agent tid r = Some h"
  shows "agent_count r \<le> n \<and> distinct (get_tunnel_ids r)
    \<and> get_agent tid (foldl registry_step r ops') = Some h"
proof -
  have "registry_inv (AgentRegistry_new n)"
    by (simp add: registry_inv_def registry_wf_def AgentRegistry_new_def agent_count_def)
  then have inv: "registry_inv r" unfolding assms(2) by (rule registry_machine.run_inv)
  have "get_agent tid (foldl registry_step r ops') = Some h"
    using inv assms(1,3)
  proof (induction ops' arbitrary: r)
    case (Cons op ops')
    have "registry_wf r" using Cons.prems(1) by (simp add: registry_inv_def)
    then have "get_agent tid (registry_step r op) = Some h"
      using Cons.prems(2,3) registry.add_occupied [of r tid h]
      by (cases op) (auto simp: registry.look_drop registry.look_add registry.add_ok)
    then show ?case
      using Cons.IH [OF registry_machine.step_inv [OF Cons.prems(1)]] Cons.prems(2) by simp
  qed simp
  moreover have "max_agents r = n" by (simp add: assms(2) max_agents_run AgentRegistry_new_def)
  ultimately show ?thesis using inv
    by (simp add: registry_inv_def registry_wf_def get_tunnel_ids_def umap_wf_def)
qed

lemma close_all_deadlock:
  assumes "h \<in> set hs" "h < length conns" "ac_state (conns ! h) = CONNECTED" "ac_on_disconnect (conns ! h)"
  shows "close_all hs conns = Inl Deadlock"
  using assms
proof (induction hs arbitrary: conns)
  case (Cons g hs)
  show ?case
  proof (cases "g = h")
    case False
    then have "close_all hs (conns[g := c]) = Inl Deadlock" for c
      using Cons by (intro Cons.IH) (auto simp: nth_list_update)
    then show ?thesis by (simp add: Let_def)
  qed (use Cons.prems in \<open>simp add: Let_def\<close>)
qed simp

text \<open>
  Shutting the registry down deadlocks as soon as one registered agent is connected and has the
  disconnect callback that the agent server gives to every agent.
\<close>

theorem registry_shutdown_deadlocks:
  assumes "get_agent tid r = Some h" "h < length conns"
    and "ac_state (conns ! h) = CONNECTED" "ac_on_disconnect (conns ! h)"
  shows "registry_shutdown conns r = Inl Deadlock"
proof -
  have "h \<in> set (map snd (agents r))"
    using assms(1) map_of_SomeD [of "agents r" tid h] by (force simp: get_agent_def)
  then show ?thesis using assms close_all_deadlock by (simp add: registry_shutdown_def)
qed

section \<open>Witnesses\<close>

lemma registry_first_wins_witness:
  "get_agent ''t1'' (foldl registry_step (foldl registry_step (AgentRegistry_new 2) [Reg ''t1'' 0]) [Reg ''t1'' 1, Reg ''t2'' 2])
     = Some 0"
  using registry_first_wins [OF _ refl, of "[Reg ''t1'' 1, Reg ''t2'' 2]" "''t1''" 2 "[Reg ''t1'' 0]" 0]
  by (simp add: AgentRegistry_new_def register_agent_def get_agent_def)

lemma registry_shutdown_deadlocks_witness:
  "registry_shutdown [sample_agent] \<lparr>max_agents = 50, agents = [(''t1'', 0)]\<rparr> = Inl Deadlock"
proof -
  have "ac_on_disconnect sample_agent"
  proof -
    obtain m path headers body where p: "parse_request_text (''GET / HTTP/1.1'' @ CRLF @ CRLF) = (m, path, headers, body)"
      by (cases "parse_request_text (''GET / HTTP/1.1'' @ CRLF @ CRLF)") auto
    have "ac_on_disconnect (ac_start 100 0 (AgentConnection_from_socket 100 ''t1''))"
      unfolding started_agent by simp
    then show ?thesis
      using started_agent_fields
      by (simp add: sample_agent_def send_http_request_def p [simplified] send_pending_data_def Let_def)
  qed
  then show ?thesis
    using registry_shutdown_deadlocks [of "''t1''" "\<lparr>max_agents = 50, agents = [(''t1'', 0)]\<rparr>" 0 "[sample_agent]"]
    by (simp add: get_agent_def sample_agent_fields)
qed

end
