(* ===== verification/Tcp_Proxy.thy ===== *)
theory Tcp_Proxy
  imports Tcp_Protocol Agent_Registry Ip_Allowlist Cache
begin

text \<open>
  \<open>src/proxy/tcp_proxy.{h,cpp}\<close>: the server's side of forwarded TCP connections. A connection object
  is a handle into the list of objects, since handlers keep it alive beside the map; an agent is a
  handle into the list of agent connections. Asynchronous operations on client sockets are actions,
  their completions are operations. A client socket is a number. The outcome of writing to an
  agent's socket is a function \<open>w\<close> of the bytes: how many were written, or \<open>None\<close> for an error.
\<close>

section \<open>State\<close>

datatype ConnectionState = Connecting | Established | Closing | Closed

record TCPProxyConnection =
  px_connection_id :: string
  px_tunnel_id :: string
  px_client_ip :: string
  px_target_port :: u16
  px_state :: ConnectionState
  px_client_socket :: nat
  px_bytes_sent :: u64
  px_bytes_received :: u64
  px_started_at :: int
  px_last_activity :: int
  px_send_buffer :: bytes
  px_recv_buffer :: bytes
  px_send_window_size :: nat
  px_recv_window_size :: nat

datatype px_action =
  Px_callback bool string
| Px_close_callback string string
| Px_ip_blocked string string
| Px_close_socket nat
| Px_read nat
| Px_write nat bytes

record TCPProxy =
  px_connections :: "(string, nat) umap"
  px_objects :: "TCPProxyConnection list"
  px_agents :: "AgentConnection list"
  px_registry :: AgentRegistry
  px_tunnels :: "(string, Tunnel) Cache"
  px_actions :: "px_action list"

definition TCPProxy_new :: "(string, Tunnel) Cache \<Rightarrow> AgentRegistry \<Rightarrow> AgentConnection list \<Rightarrow> TCPProxy" where
  "TCPProxy_new tunnels registry conns = \<lparr>px_connections = [], px_objects = [], px_agents = conns,
     px_registry = registry, px_tunnels = tunnels, px_actions = []\<rparr>"

definition px_act :: "px_action \<Rightarrow> TCPProxy \<Rightarrow> TCPProxy" where
  "px_act a p = p\<lparr>px_actions := px_actions p @ [a]\<rparr>"

definition px_set :: "nat \<Rightarrow> (TCPProxyConnection \<Rightarrow> TCPProxyConnection) \<Rightarrow> TCPProxy \<Rightarrow> TCPProxy" where
  "px_set h f p = p\<lparr>px_objects := (px_objects p)[h := f (px_objects p ! h)]\<rparr>"

definition new_connection :: "string \<Rightarrow> string \<Rightarrow> string \<Rightarrow> u16 \<Rightarrow> nat \<Rightarrow> int \<Rightarrow> TCPProxyConnection" where
  "new_connection cid tid ip port sock now = \<lparr>px_connection_id = cid, px_tunnel_id = tid,
     px_client_ip = ip, px_target_port = port, px_state = Connecting, px_client_socket = sock,
     px_bytes_sent = 0, px_bytes_received = 0, px_started_at = now, px_last_activity = now,
     px_send_buffer = [], px_recv_buffer = [], px_send_window_size = 65536,
     px_recv_window_size = 65536\<rparr>"

section \<open>Lookups\<close>

definition get_connection :: "string \<Rightarrow> TCPProxy \<Rightarrow> nat option" where
  "get_connection cid p = map_of (px_connections p) cid"

text \<open>The last tunnel with the port wins, in the order in which the cache is walked.\<close>

definition match_tunnel_by_port :: "int \<Rightarrow> string list \<Rightarrow> u16 \<Rightarrow> (string, Tunnel) Cache \<Rightarrow> string" where
  "match_tunnel_by_port now ord port tunnels = Cache_for_each now ord
     (\<lambda>matched tid t. if protocol t = TCP \<and> target_port t = port then tid else matched) tunnels ''''"

definition can_send :: "string \<Rightarrow> TCPProxy \<Rightarrow> bool" where
  "can_send cid p = (case get_connection cid p of
     None \<Rightarrow> False
   | Some h \<Rightarrow> length (px_send_buffer (px_objects p ! h)) < px_send_window_size (px_objects p ! h))"

definition update_window :: "string \<Rightarrow> nat \<Rightarrow> TCPProxy \<Rightarrow> TCPProxy" where
  "update_window cid consumed p = (case get_connection cid p of
     None \<Rightarrow> p
   | Some h \<Rightarrow> if consumed \<le> length (px_send_buffer (px_objects p ! h))
               then px_set h (\<lambda>c. c\<lparr>px_send_buffer := drop consumed (px_send_buffer c)\<rparr>) p
               else p)"

text \<open>The eight hexadecimal digits are the argument.\<close>

definition px_generate_connection_id :: "nat list \<Rightarrow> string" where
  "px_generate_connection_id ds = ''tcp-'' @ map digit_char (take 8 ds)"

section \<open>Closing\<close>

definition cleanup_connection :: "string \<Rightarrow> TCPProxy \<Rightarrow> TCPProxy" where
  "cleanup_connection cid p = p\<lparr>px_connections := AList.delete cid (px_connections p)\<rparr>"

definition px_close_connection :: "string \<Rightarrow> bool \<Rightarrow> TCPProxy \<Rightarrow> TCPProxy" where
  "px_close_connection cid graceful p = (case map_of (px_connections p) cid of
     None \<Rightarrow> p
   | Some h \<Rightarrow>
     let c = px_objects p ! h;
         p1 = (if graceful \<and> px_send_buffer c \<noteq> []
               then px_set h (\<lambda>c. c\<lparr>px_state := Closing\<rparr>) p
               else cleanup_connection cid (px_set h (\<lambda>c. c\<lparr>px_state := Closed\<rparr>) p))
     in case get_agent (px_tunnel_id c) (px_registry p1) of
          None \<Rightarrow> p1
        | Some a \<Rightarrow> p1\<lparr>px_agents := (px_agents p1)[a := send_tcp_close cid (px_agents p1 ! a)]\<rparr>)"

definition px_handle_error :: "string \<Rightarrow> TCPProxy \<Rightarrow> TCPProxy" where
  "px_handle_error cid p = px_close_connection cid False p"

section \<open>From the client to the agent\<close>

text \<open>Hands a frame to the agent; the flag is the absence of an error in the callback.\<close>

definition agent_send_tcp_data ::
  "int \<Rightarrow> (bytes \<Rightarrow> nat option) \<Rightarrow> nat \<Rightarrow> bytes \<Rightarrow> TCPProxy \<Rightarrow> bool \<times> TCPProxy" where
  "agent_send_tcp_data now w a frame p =
    (let (c, ok) = send_tcp_data now (w frame) frame (px_agents p ! a)
     in (ok, p\<lparr>px_agents := (px_agents p)[a := c]\<rparr>))"

text \<open>
  The free space of the window is a difference of \<open>size_t\<close> values; the sequence number is the number
  of bytes sent before. The window is taken before the id is parsed.
\<close>

definition px_send_data ::
  "int \<Rightarrow> (bytes \<Rightarrow> nat option) \<Rightarrow> string \<Rightarrow> bytes \<Rightarrow> TCPProxy \<Rightarrow> nat \<times> TCPProxy" where
  "px_send_data now w cid data p = (case map_of (px_connections p) cid of
     None \<Rightarrow> (0, p)
   | Some h \<Rightarrow>
     let c = px_objects p ! h
     in if px_state c \<noteq> Established then (0, p)
        else let available = unat (of_nat (px_send_window_size c) - of_nat (length (px_send_buffer c)) :: u64);
                 to_send = min (length data) available
             in if to_send = 0 then (0, p)
                else let sent' = px_bytes_sent c + of_nat to_send;
                         p1 = px_set h (\<lambda>c. c\<lparr>px_send_buffer := px_send_buffer c @ take to_send data,
                                px_bytes_sent := sent', px_last_activity := now\<rparr>) p
                     in case get_agent (px_tunnel_id c) (px_registry p1) of
                          None \<Rightarrow> (to_send, p1)
                        | Some a \<Rightarrow>
                            (case string_to_connection_id cid of
                               Inl _ \<Rightarrow> (0, p1)
                             | Inr uuid \<Rightarrow> (to_send, snd (agent_send_tcp_data now w a
                                 (TCPDataFrame_serialize \<lparr>data_type = TCP_DATA, data_connection_id = uuid,
                                    data_sequence_number = ucast (sent' - of_nat to_send),
                                    data_data = take to_send data\<rparr>) p1))))"

definition read_from_client :: "nat \<Rightarrow> TCPProxy \<Rightarrow> TCPProxy" where
  "read_from_client h p =
    (if px_state (px_objects p ! h) \<noteq> Established then p else px_act (Px_read h) p)"

datatype client_read = Client_data bytes | Client_eof | Client_error

text \<open>The completion handler of a read from the client.\<close>

definition on_client_read ::
  "int \<Rightarrow> (bytes \<Rightarrow> nat option) \<Rightarrow> nat \<Rightarrow> client_read \<Rightarrow> TCPProxy \<Rightarrow> TCPProxy" where
  "on_client_read now w h r p =
    (let cid = px_connection_id (px_objects p ! h)
     in case r of
          Client_eof \<Rightarrow> px_close_connection cid True p
        | Client_error \<Rightarrow> px_handle_error cid p
        | Client_data data \<Rightarrow> read_from_client h (snd (px_send_data now w cid data p)))"

section \<open>Opening\<close>

definition open_frame :: "endian \<Rightarrow> bytes \<Rightarrow> bytes" where
  "open_frame e uuid = TCPOpenFrame_serialize e
     \<lparr>open_type = TCP_OPEN, open_connection_id = uuid, open_target_port = 0\<rparr>"

text \<open>
  \<open>create_connection\<close> by port: the object is stored under the id \<open>rid\<close> and then renamed. \<open>endpoint\<close> is
  the client's address, \<open>None\<close> when asking for it throws.
\<close>

definition create_connection_by_port ::
  "endian \<Rightarrow> int \<Rightarrow> string list \<Rightarrow> inet \<Rightarrow> (bytes \<Rightarrow> nat option) \<Rightarrow> string option \<Rightarrow> string \<Rightarrow> bytes
   \<Rightarrow> nat \<Rightarrow> u16 \<Rightarrow> TCPProxy \<Rightarrow> TCPProxy" where
  "create_connection_by_port e now ord n w endpoint rid uuid sock port p =
    (let tid = match_tunnel_by_port now ord port (px_tunnels p)
     in if tid = '''' then
          px_act (Px_callback False (''No tunnel configured for port '' @ nat_string (unat port))) p
        else case Cache_get now tid (px_tunnels p) of
          None \<Rightarrow> px_act (Px_callback False ''Tunnel configuration not found'') p
        | Some t \<Rightarrow>
        (case endpoint of
          None \<Rightarrow> px_act (Px_callback False ''Failed to get client address'') p
        | Some ip \<Rightarrow>
        if \<not> validate_ip_allowlist n t ip then
          px_act (Px_close_socket sock) (px_act (Px_callback False ''IP address not allowed'')
            (px_act (Px_ip_blocked tid ip) p))
        else if \<not> is_connected (px_agents p) tid (px_registry p) then
          px_act (Px_callback False (''Agent not connected for tunnel '' @ tid)) p
        else
          let h = length (px_objects p);
              p1 = p\<lparr>px_objects := px_objects p @ [new_connection rid tid ip port sock now],
                     px_connections := AList.update rid h (px_connections p)\<rparr>;
              p2 = (case get_agent tid (px_registry p1) of
                      Some a \<Rightarrow>
                        (let p' = px_set h (\<lambda>c. c\<lparr>px_connection_id := connection_id_to_string uuid\<rparr>) p1;
                             (ok, p'') = agent_send_tcp_data now w a (open_frame e uuid) p'
                         in if ok then px_set h (\<lambda>c. c\<lparr>px_state := Established\<rparr>) p'' else p'')
                    | None \<Rightarrow> px_set h (\<lambda>c. c\<lparr>px_state := Established\<rparr>) p1)
          in px_act (Px_callback True '''') (read_from_client h p2)))"

text \<open>
  \<open>create_connection\<close> for a tunnel, the one the TCP server uses. \<open>cb\<close>: whether there is a close
  callback; it gets the name of the error.
\<close>

definition px_refuse :: "bool \<Rightarrow> string \<Rightarrow> nat \<Rightarrow> TCPProxy \<Rightarrow> TCPProxy" where
  "px_refuse cb ec sock p =
     px_act (Px_close_socket sock) (if cb then px_act (Px_close_callback '''' ec) p else p)"

definition px_open_agent ::
  "endian \<Rightarrow> int \<Rightarrow> (bytes \<Rightarrow> nat option) \<Rightarrow> bytes \<Rightarrow> bool \<Rightarrow> nat \<Rightarrow> nat \<Rightarrow> TCPProxy \<Rightarrow> TCPProxy" where
  "px_open_agent e now w uuid cb a h p =
    (let cid = connection_id_to_string uuid;
         p1 = p\<lparr>px_agents := (px_agents p)[a := set_tcp_frame_handler (px_agents p ! a)]\<rparr>;
         p2 = (px_set h (\<lambda>c. c\<lparr>px_connection_id := cid\<rparr>) p1)
                \<lparr>px_connections := AList.update cid h (px_connections p1)\<rparr>;
         (ok, p3) = agent_send_tcp_data now w a (open_frame e uuid) p2
     in if ok then px_set h (\<lambda>c. c\<lparr>px_state := Established\<rparr>) p3
        else if cb then px_act (Px_close_callback cid ''connection_refused'') p3 else p3)"

definition create_connection ::
  "endian \<Rightarrow> int \<Rightarrow> inet \<Rightarrow> (bytes \<Rightarrow> nat option) \<Rightarrow> string option \<Rightarrow> bytes \<Rightarrow> bool \<Rightarrow> string \<Rightarrow> nat
   \<Rightarrow> TCPProxy \<Rightarrow> TCPProxy" where
  "create_connection e now n w endpoint uuid cb tid sock p =
    (case Cache_get now tid (px_tunnels p) of
       None \<Rightarrow> px_refuse cb ''not_found'' sock p
     | Some t \<Rightarrow>
     (case endpoint of
       None \<Rightarrow> px_refuse cb ''fault'' sock p
     | Some ip \<Rightarrow>
     if \<not> validate_ip_allowlist n t ip then
       px_refuse cb ''access_denied'' sock (px_act (Px_ip_blocked tid ip) p)
     else if \<not> is_connected (px_agents p) tid (px_registry p) then px_refuse cb ''not_connected'' sock p
     else
       let h = length (px_objects p);
           p1 = p\<lparr>px_objects := px_objects p @ [new_connection '''' tid ip 0 sock now]\<rparr>;
           p2 = (case get_agent tid (px_registry p1) of
                   Some a \<Rightarrow> px_open_agent e now w uuid cb a h p1
                 | None \<Rightarrow> px_set h (\<lambda>c. c\<lparr>px_state := Established\<rparr>) p1)
       in read_from_client h p2))"

section \<open>From the agent to the client\<close>

text \<open>\<open>data\<close> is the memory from the pointer on, \<open>len\<close> the length the caller gives.\<close>

definition receive_data :: "int \<Rightarrow> string \<Rightarrow> bytes \<Rightarrow> nat \<Rightarrow> TCPProxy \<Rightarrow> TCPProxy result" where
  "receive_data now cid data len p = (case map_of (px_connections p) cid of
     None \<Rightarrow> Inr p
   | Some h \<Rightarrow>
     let c = px_objects p ! h
     in if length (px_recv_buffer c) + len > px_recv_window_size c then Inr p
        else bind_result (read_range data 0 len) (\<lambda>bs.
          Inr (px_set h (\<lambda>c. c\<lparr>px_recv_buffer := px_recv_buffer c @ bs,
                 px_bytes_received := px_bytes_received c + of_nat len, px_last_activity := now\<rparr>) p)))"

text \<open>The write takes the whole buffer as it is now, which stays in the buffer until it is done.\<close>

definition write_to_client :: "nat \<Rightarrow> TCPProxy \<Rightarrow> TCPProxy" where
  "write_to_client h p =
    (if px_recv_buffer (px_objects p ! h) = [] then p
     else px_act (Px_write h (px_recv_buffer (px_objects p ! h))) p)"

text \<open>
  Its completion handler, with the number of bytes written; erasing more than there is runs past
  the end of the vector.
\<close>

definition on_client_written :: "nat \<Rightarrow> nat option \<Rightarrow> TCPProxy \<Rightarrow> TCPProxy result" where
  "on_client_written h r p = (case r of
     None \<Rightarrow> Inr (px_handle_error (px_connection_id (px_objects p ! h)) p)
   | Some n \<Rightarrow>
     if n > length (px_recv_buffer (px_objects p ! h)) then Inl Out_of_bounds
     else let p1 = px_set h (\<lambda>c. c\<lparr>px_recv_buffer := drop n (px_recv_buffer c)\<rparr>) p
          in Inr (if px_recv_buffer (px_objects p1 ! h) \<noteq> [] then write_to_client h p1 else p1))"

definition handle_agent_tcp_frame :: "int \<Rightarrow> bytes \<Rightarrow> TCPProxy \<Rightarrow> TCPProxy result" where
  "handle_agent_tcp_frame now fd p =
    (if length fd < 1 then Inr p
     else if length fd < 17 then Inr p
     else let frame_type = fd ! 0; cid = connection_id_to_string (take 16 (drop 1 fd))
       in if frame_type = TCP_DATA then
            (if 25 \<le> length fd
             then let data_len = get_be32 (fd ! 21) (fd ! 22) (fd ! 23) (fd ! 24)
                  in if unat (25 + data_len) \<le> length fd
                     then bind_result (receive_data now cid (drop 25 fd) (unat data_len) p) (\<lambda>p1.
                       Inr (case get_connection cid p1 of None \<Rightarrow> p1 | Some h \<Rightarrow> write_to_client h p1))
                     else Inr p
             else Inr p)
          else if frame_type = TCP_CLOSE then Inr (px_close_connection cid True p)
          else if frame_type = TCP_ERROR then
            (if 21 \<le> length fd then Inr (px_handle_error cid p) else Inr p)
          else Inr p)"

section \<open>Frames written to an agent and data written to a client\<close>

definition agent_frames :: "nat \<Rightarrow> TCPProxy \<Rightarrow> bytes list" where
  "agent_frames a p = concat (map (\<lambda>x. case x of Ac_write b \<Rightarrow> [b] | _ \<Rightarrow> []) (ac_actions (px_agents p ! a)))"

definition client_writes :: "nat \<Rightarrow> TCPProxy \<Rightarrow> bytes list" where
  "client_writes h p = concat (map (\<lambda>x. case x of Px_write i b \<Rightarrow> if i = h then [b] else [] | _ \<Rightarrow> [])
     (px_actions p))"

text \<open>A connection that is set up: stored under its own id, established, its agent connected.\<close>

definition linked :: "bytes \<Rightarrow> nat \<Rightarrow> nat \<Rightarrow> TCPProxy \<Rightarrow> bool" where
  "linked uuid h a p \<longleftrightarrow> length uuid = 16 \<and> h < length (px_objects p) \<and> a < length (px_agents p)
     \<and> map_of (px_connections p) (connection_id_to_string uuid) = Some h
     \<and> px_connection_id (px_objects p ! h) = connection_id_to_string uuid
     \<and> px_state (px_objects p ! h) = Established
     \<and> px_send_window_size (px_objects p ! h) = 65536 \<and> px_recv_window_size (px_objects p ! h) = 65536
     \<and> get_agent (px_tunnel_id (px_objects p ! h)) (px_registry p) = Some a
     \<and> ac_state (px_agents p ! a) = CONNECTED"

definition data_frame :: "bytes \<Rightarrow> nat \<Rightarrow> bytes \<Rightarrow> bytes" where
  "data_frame uuid off d = TCPDataFrame_serialize
     \<lparr>data_type = TCP_DATA, data_connection_id = uuid, data_sequence_number = of_nat off, data_data = d\<rparr>"

text \<open>The pieces of a stream that fit into a window, and the frames that carry them.\<close>

fun window_cut :: "nat \<Rightarrow> bytes list \<Rightarrow> bytes list" where
  "window_cut n [] = []"
| "window_cut n (d # ds) = (if min (length d) n = 0 then window_cut n ds
     else take n d # window_cut (n - length d) ds)"

fun data_frames :: "bytes \<Rightarrow> nat \<Rightarrow> bytes list \<Rightarrow> bytes list" where
  "data_frames uuid off [] = []"
| "data_frames uuid off (c # cs) =
     data_frame uuid off c # data_frames uuid (off + length c) cs"

lemma concat_window_cut: "concat (window_cut n ds) = take n (concat ds)"
  by (induction n ds rule: window_cut.induct) (auto simp: min_def)

lemma available_window:
  assumes "m \<le> n" "n < 2 ^ 64"
  shows "unat (of_nat n - of_nat m :: u64) = n - m"
proof -
  have "(of_nat n - of_nat m :: u64) = of_nat (n - m)" using assms(1) by (simp add: of_nat_diff)
  then show ?thesis using assms(2) by (simp add: unat_of_nat take_bit_nat_eq_self)
qed

lemma ucast_of_nat64: "ucast (of_nat n :: u64) = (of_nat n :: u32)"
  by (rule bit_word_eqI) (auto simp: bit_simps)

definition full_write :: "bytes \<Rightarrow> nat option" where
  "full_write b = Some (length b)"

lemma send_tcp_data_full:
  assumes "ac_state c = CONNECTED"
  shows "send_tcp_data now (full_write b) b c
    = (c\<lparr>ac_next_callback := ac_next_callback c + 1, ac_bytes_sent := ac_bytes_sent c + length b,
         ac_last_heartbeat := now,
         ac_actions := ac_actions c @ [Ac_write b, Ac_callback (ac_next_callback c) '''' False]\<rparr>, True)"
  using assms by (simp add: send_tcp_data_def full_write_def update_stats_def ac_act_def Let_def)

text \<open>One call of \<open>send_data\<close> with room in the window: one frame with the part that fits.\<close>

lemma px_send_data_full:
  assumes l: "linked uuid h a p" and k: "length (px_send_buffer (px_objects p ! h)) = k" "k \<le> 65536"
    and s: "px_bytes_sent (px_objects p ! h) = of_nat off" and m: "m = min (length d) (65536 - k)"
  shows "px_send_data now full_write (connection_id_to_string uuid) d p =
    (if m = 0 then (0, p)
     else (m, snd (agent_send_tcp_data now full_write a (data_frame uuid off (take m d))
        (px_set h (\<lambda>c. c\<lparr>px_send_buffer := px_send_buffer c @ take m d,
           px_bytes_sent := of_nat (off + m), px_last_activity := now\<rparr>) p))))"
proof -
  have w: "unat (of_nat (px_send_window_size (px_objects p ! h)) - of_nat k :: u64) = 65536 - k"
    using l available_window [of k 65536] k(2) by (simp add: linked_def)
  have r: "get_agent (px_tunnel_id (px_objects p ! h)) (px_registry p) = Some a"
    "string_to_connection_id (connection_id_to_string uuid) = Inr uuid"
    "map_of (px_connections p) (connection_id_to_string uuid) = Some h"
    "px_state (px_objects p ! h) = Established"
    using l by (simp_all add: linked_def string_to_connection_id_of)
  have u: "of_nat off + of_nat m - of_nat m = (of_nat off :: u64)" by simp
  show ?thesis
    unfolding px_send_data_def Let_def r option.case k(1) w m [symmetric] s
    by (simp add: px_set_def r u ucast_of_nat64 data_frame_def add.commute)
qed

lemma linked_after_send:
  assumes l: "linked uuid h a p"
    and q: "q = read_from_client h (snd (agent_send_tcp_data now full_write a f
        (px_set h (\<lambda>c. c\<lparr>px_send_buffer := sb c, px_bytes_sent := b, px_last_activity := now\<rparr>) p)))"
  shows "linked uuid h a q \<and> px_send_buffer (px_objects q ! h) = sb (px_objects p ! h)
    \<and> px_bytes_sent (px_objects q ! h) = b \<and> agent_frames a q = agent_frames a p @ [f]
    \<and> last (px_actions q) = Px_read h"
proof -
  have "ac_state (px_agents p ! a) = CONNECTED" "h < length (px_objects p)" "a < length (px_agents p)"
    "px_state (px_objects p ! h) = Established"
    using l by (simp_all add: linked_def)
  then show ?thesis using l q
    by (simp add: read_from_client_def px_act_def agent_send_tcp_data_def px_set_def
        send_tcp_data_full linked_def agent_frames_def)
qed

lemma on_client_read_step:
  assumes l: "linked uuid h a p" and k: "length (px_send_buffer (px_objects p ! h)) = k" "k \<le> 65536"
    and s: "px_bytes_sent (px_objects p ! h) = of_nat off"
    and q: "q = on_client_read now full_write h (Client_data d) p" and m: "m = min (length d) (65536 - k)"
  shows "linked uuid h a q \<and> px_send_buffer (px_objects q ! h) = px_send_buffer (px_objects p ! h) @ take m d
    \<and> px_bytes_sent (px_objects q ! h) = of_nat (off + m)
    \<and> agent_frames a q = agent_frames a p @ (if m = 0 then [] else [data_frame uuid off (take m d)])
    \<and> last (px_actions q) = Px_read h"
proof -
  have id: "px_connection_id (px_objects p ! h) = connection_id_to_string uuid" using l by (simp add: linked_def)
  have q': "q = read_from_client h (snd (px_send_data now full_write (connection_id_to_string uuid) d p))"
    using q by (simp add: on_client_read_def Let_def id)
  show ?thesis
  proof (cases "m = 0")
    case True
    then have "q = px_act (Px_read h) p"
      using q' l px_send_data_full [OF l k s m, of now] by (simp add: read_from_client_def linked_def)
    then show ?thesis using l s True by (simp add: px_act_def agent_frames_def linked_def)
  next
    case False
    then show ?thesis
      using q' px_send_data_full [OF l k s m, of now] linked_after_send [OF l] by simp
  qed
qed

lemma client_stream_window:
  assumes "linked uuid h a p" "px_send_buffer (px_objects p ! h) = sb" "length sb \<le> 65536"
    and "px_bytes_sent (px_objects p ! h) = of_nat off"
    and "q = foldl (\<lambda>p (now, d). on_client_read now full_write h (Client_data d) p) p tds"
  shows "agent_frames a q = agent_frames a p @ data_frames uuid off (window_cut (65536 - length sb) (map snd tds))
    \<and> concat (window_cut (65536 - length sb) (map snd tds)) = take (65536 - length sb) (concat (map snd tds))
    \<and> px_send_buffer (px_objects q ! h) = sb @ take (65536 - length sb) (concat (map snd tds))
    \<and> linked uuid h a q"
  using assms
proof (induction tds arbitrary: p sb off)
  case (Cons td tds)
  obtain now d where td: "td = (now, d)" by (cases td)
  define m where "m = min (length d) (65536 - length sb)"
  define p1 where "p1 = on_client_read now full_write h (Client_data d) p"
  have st: "linked uuid h a p1 \<and> px_send_buffer (px_objects p1 ! h) = sb @ take m d
      \<and> px_bytes_sent (px_objects p1 ! h) = of_nat (off + m)
      \<and> agent_frames a p1 = agent_frames a p @ (if m = 0 then [] else [data_frame uuid off (take m d)])
      \<and> last (px_actions p1) = Px_read h"
    using on_client_read_step [OF Cons.prems(1) _ _ Cons.prems(4) p1_def, of "length sb" m]
      Cons.prems(2,3) by (simp add: m_def)
  have len: "length (sb @ take m d) \<le> 65536" "65536 - length (sb @ take m d) = 65536 - length sb - length d"
    using Cons.prems(3) by (simp_all add: m_def)
  have q: "q = foldl (\<lambda>p (now, d). on_client_read now full_write h (Client_data d) p) p1 tds"
    using Cons.prems(5) by (simp add: td p1_def)
  have ih: "agent_frames a q = agent_frames a p1
        @ data_frames uuid (off + m) (window_cut (65536 - length sb - length d) (map snd tds))
      \<and> px_send_buffer (px_objects q ! h) = (sb @ take m d) @ take (65536 - length sb - length d) (concat (map snd tds))
      \<and> linked uuid h a q"
    using Cons.IH [of p1 "sb @ take m d" "off + m"] st len q by simp
  have tk: "take m d = take (65536 - length sb) d" by (simp add: m_def min_def)
  have z: "m = 0 \<Longrightarrow> window_cut (65536 - length sb - length d) (map snd tds) = window_cut (65536 - length sb) (map snd tds)"
    by (cases d) (simp_all add: m_def)
  have t: "take (65536 - length sb) (concat (map snd (td # tds)))
      = take m d @ take (65536 - length sb - length d) (concat (map snd tds))"
    by (simp add: td tk)
  have w: "agent_frames a q = agent_frames a p @ data_frames uuid off (window_cut (65536 - length sb) (map snd (td # tds)))"
  proof (cases "m = 0")
    case True then show ?thesis using st ih z by (simp add: td m_def)
  next
    case False
    then show ?thesis using st ih by (simp add: td tk m_def [symmetric])
  qed
  have b: "px_send_buffer (px_objects q ! h) = sb @ take (65536 - length sb) (concat (map snd (td # tds)))"
    unfolding t using ih by simp
  show ?case using w b ih concat_window_cut by blast
qed (simp add: linked_def)

text \<open>
  C19. Towards the agent: whatever the client sends in however many reads, the agent gets it in
  order, cut at the reads, each frame numbered with the offset of its first byte; but only until
  64 KiB have been sent. The window is never opened again by the proxy, so that the bytes of the
  stream after the first 65536 are dropped while reading goes on.
\<close>

theorem client_stream_first_window:
  assumes "linked uuid h a p" "px_send_buffer (px_objects p ! h) = sb" "length sb \<le> 65536"
    and "px_bytes_sent (px_objects p ! h) = of_nat off"
    and "q = foldl (\<lambda>p (now, d). on_client_read now full_write h (Client_data d) p) p tds"
  shows "agent_frames a q = agent_frames a p @ data_frames uuid off (window_cut (65536 - length sb) (map snd tds))
    \<and> concat (window_cut (65536 - length sb) (map snd tds)) = take (65536 - length sb) (concat (map snd tds))
    \<and> px_send_buffer (px_objects q ! h) = sb @ take (65536 - length sb) (concat (map snd tds))
    \<and> linked uuid h a q"
  using assms by (rule client_stream_window)

section \<open>Towards the client\<close>

lemma handle_data_frame:
  assumes "length uuid = 16" "length d \<le> 65536"
  shows "handle_agent_tcp_frame now (data_frame uuid off d @ rest) p
    = bind_result (receive_data now (connection_id_to_string uuid) (d @ rest) (length d) p) (\<lambda>p1.
        Inr (case get_connection (connection_id_to_string uuid) p1 of None \<Rightarrow> p1 | Some h \<Rightarrow> write_to_client h p1))"
proof -
  have dr: "drop 25 (data_frame uuid off d @ rest) = d @ rest"
    using assms by (simp add: data_frame_def frame_serialize_defs)
  have len: "length (data_frame uuid off d @ rest) = 25 + length d + length rest"
    using assms by (simp add: data_frame_def frame_serialize_defs)
  have id: "take 16 (drop 1 (data_frame uuid off d @ rest)) = uuid"
    and ty: "(data_frame uuid off d @ rest) ! 0 = TCP_DATA"
    using assms by (simp_all add: data_frame_def frame_serialize_defs)
  have dl: "get_be32 ((data_frame uuid off d @ rest) ! 21) ((data_frame uuid off d @ rest) ! 22)
      ((data_frame uuid off d @ rest) ! 23) ((data_frame uuid off d @ rest) ! 24) = of_nat (length d)"
    using assms by (simp add: data_frame_def frame_serialize_defs byte_simps)
  have u: "unat (of_nat (length d) :: u32) = length d" using assms(2) by (simp add: unat_of_length)
  show ?thesis
    unfolding handle_agent_tcp_frame_def Let_def dr id ty dl u unat_25_plus [OF assms(2)] len by simp
qed

lemma data_frame_received:
  assumes l: "linked uuid h a p" and n: "length (px_recv_buffer (px_objects p ! h)) + length d \<le> 65536" "d \<noteq> []"
  shows "\<exists>q. handle_agent_tcp_frame now (data_frame uuid off d @ rest) p = Inr q \<and> linked uuid h a q
    \<and> px_recv_buffer (px_objects q ! h) = px_recv_buffer (px_objects p ! h) @ d
    \<and> client_writes h q = client_writes h p @ [px_recv_buffer (px_objects p ! h) @ d]"
proof -
  have s: "map_of (px_connections p) (connection_id_to_string uuid) = Some h" "h < length (px_objects p)"
    "length uuid = 16" "px_recv_window_size (px_objects p ! h) = 65536"
    using l by (simp_all add: linked_def)
  have "length d \<le> 65536" using n(1) by simp
  then show ?thesis using s n l
    by (simp add: handle_data_frame receive_data_def read_range_def get_connection_def px_set_def
        write_to_client_def px_act_def linked_def client_writes_def Let_def)
qed

lemma client_write_done:
  assumes l: "linked uuid h a p" and b: "px_recv_buffer (px_objects p ! h) = b @ c" "length b = n"
  shows "\<exists>q. on_client_written h (Some n) p = Inr q \<and> linked uuid h a q
    \<and> px_recv_buffer (px_objects q ! h) = c
    \<and> client_writes h q = client_writes h p @ (if c = [] then [] else [c])"
  using assms by (simp add: on_client_written_def px_set_def linked_def write_to_client_def px_act_def
      client_writes_def Let_def)

text \<open>A frame of the agent whose write to the client is done before the next frame comes.\<close>

fun agent_rounds :: "bytes \<Rightarrow> nat \<Rightarrow> (int \<times> nat \<times> bytes) list \<Rightarrow> TCPProxy \<Rightarrow> TCPProxy result" where
  "agent_rounds uuid h [] p = Inr p"
| "agent_rounds uuid h ((now, off, d) # rs) p =
     bind_result (handle_agent_tcp_frame now (data_frame uuid off d) p) (\<lambda>p1.
       bind_result (on_client_written h (Some (length d)) p1) (agent_rounds uuid h rs))"

text \<open>
  Towards the client: when the write of each frame's data is done before the next frame of the
  agent is read, the client is sent exactly the payloads, in order, whatever their number, and
  nothing stays behind.
\<close>

theorem agent_frames_to_client:
  assumes "linked uuid h a p" "px_recv_buffer (px_objects p ! h) = []"
    and "\<forall>(now, off, d) \<in> set rs. d \<noteq> [] \<and> length d \<le> 65536"
  shows "\<exists>q. agent_rounds uuid h rs p = Inr q \<and> client_writes h q = client_writes h p @ map (\<lambda>(now, off, d). d) rs
    \<and> px_recv_buffer (px_objects q ! h) = [] \<and> linked uuid h a q"
  using assms
proof (induction rs arbitrary: p)
  case (Cons r rs)
  obtain now off d where r: "r = (now, off, d)" by (cases r)
  obtain p1 where p1: "handle_agent_tcp_frame now (data_frame uuid off d) p = Inr p1" "linked uuid h a p1"
    "px_recv_buffer (px_objects p1 ! h) = d" "client_writes h p1 = client_writes h p @ [d]"
    using data_frame_received [OF Cons.prems(1), of d now off "[]"] Cons.prems(2,3) r by auto
  obtain p2 where p2: "on_client_written h (Some (length d)) p1 = Inr p2" "linked uuid h a p2"
    "px_recv_buffer (px_objects p2 ! h) = []" "client_writes h p2 = client_writes h p1"
    using client_write_done [OF p1(2), of d "[]"] p1(3) by auto
  show ?case using Cons.IH [OF p2(2,3)] Cons.prems(3) p1 p2 r by auto
qed simp

text \<open>
  When a second frame comes while the first write is under way, its write starts again at the
  beginning of the buffer: the client is sent the first payload twice. When the first write is done
  a third one starts, and when the second one is done the code erases more than the buffer holds.
\<close>

theorem overlapping_writes:
  assumes "linked uuid h a p" "px_recv_buffer (px_objects p ! h) = []" "c \<noteq> []" "d \<noteq> []"
    and "length c + length d \<le> 65536"
    and "handle_agent_tcp_frame now (data_frame uuid i c) p = Inr p1"
    and "handle_agent_tcp_frame now (data_frame uuid j d) p1 = Inr p2"
    and "on_client_written h (Some (length c)) p2 = Inr p3"
  shows "client_writes h p2 = client_writes h p @ [c, c @ d]
    \<and> client_writes h p3 = client_writes h p2 @ [d]
    \<and> on_client_written h (Some (length (c @ d))) p3 = Inl Out_of_bounds"
proof -
  have 1: "linked uuid h a p1" "px_recv_buffer (px_objects p1 ! h) = c" "client_writes h p1 = client_writes h p @ [c]"
    using data_frame_received [OF assms(1), of c now i "[]"] assms by auto
  have 2: "linked uuid h a p2" "px_recv_buffer (px_objects p2 ! h) = c @ d"
    "client_writes h p2 = client_writes h p1 @ [c @ d]"
    using data_frame_received [OF 1(1), of d now j "[]"] 1 assms by auto
  have 3: "px_recv_buffer (px_objects p3 ! h) = d" "client_writes h p3 = client_writes h p2 @ [d]"
    using client_write_done [OF 2(1,2) refl] assms(4,8) by auto
  then show ?thesis using 1 2 assms(3) by (simp add: on_client_written_def)
qed

section \<open>Frames of any shape\<close>

text \<open>Stored handles are valid, and every window has the size the code gives it.\<close>

definition px_wf :: "TCPProxy \<Rightarrow> bool" where
  "px_wf p \<longleftrightarrow> (\<forall>(cid, h) \<in> set (px_connections p). h < length (px_objects p))
     \<and> (\<forall>c \<in> set (px_objects p). px_send_window_size c = 65536 \<and> px_recv_window_size c = 65536)"

lemma receive_data_safe:
  assumes "px_wf p" "len \<le> 65536 \<longrightarrow> len \<le> length data"
  shows "\<exists>q. receive_data now cid data len p = Inr q"
proof (cases "map_of (px_connections p) cid")
  case None then show ?thesis by (simp add: receive_data_def)
next
  case (Some h)
  then have "h < length (px_objects p)" using assms(1) by (auto simp: px_wf_def dest: map_of_SomeD)
  then have "px_recv_window_size (px_objects p ! h) = 65536" using assms(1) by (simp add: px_wf_def)
  then show ?thesis using Some assms(2) by (simp add: receive_data_def read_range_def Let_def)
qed

lemma wrapped_length:
  assumes "unat (25 + n :: u32) \<le> m" "unat n \<le> 65536"
  shows "unat n \<le> m - 25"
proof -
  have "unat (25 + n :: u32) = 25 + unat n"
    using unat_25_plus [OF assms(2)] by simp
  then show ?thesis using assms(1) by simp
qed


section \<open>Opening connections\<close>

text \<open>
  C16. A client of a tunnel is let in exactly when the tunnel is cached, its allowlist admits the
  client's address and its agent is connected. Then the agent is sent one frame that opens the
  connection, the connection is set up and the proxy reads from the client; otherwise nothing is
  sent, no connection is added, and the client's socket is closed.
\<close>

theorem create_connection_decision:
  assumes "get_agent tid (px_registry p) = Some a" "a < length (px_agents p)" "length uuid = 16"
    and "ok \<longleftrightarrow> (\<exists>t. Cache_get now tid (px_tunnels p) = Some t \<and> validate_ip_allowlist n t ip)
               \<and> ac_state (px_agents p ! a) = CONNECTED"
    and "q = create_connection e now n full_write (Some ip) uuid cb tid sock p"
  shows "agent_frames a q = agent_frames a p @ (if ok then [open_frame e uuid] else [])
    \<and> (ok \<longrightarrow> linked uuid (length (px_objects p)) a q \<and> ac_tcp_frame_handler (px_agents q ! a)
         \<and> last (px_actions q) = Px_read (length (px_objects p))
         \<and> px_send_buffer (px_objects q ! length (px_objects p)) = []
         \<and> px_bytes_sent (px_objects q ! length (px_objects p)) = 0)
    \<and> (\<not> ok \<longrightarrow> px_connections q = px_connections p \<and> last (px_actions q) = Px_close_socket sock)"
proof (cases ok)
  case True
  then obtain t where t: "Cache_get now tid (px_tunnels p) = Some t" "validate_ip_allowlist n t ip"
    and c: "ac_state (px_agents p ! a) = CONNECTED"
    using assms(4) by blast
  have "ac_state (set_tcp_frame_handler (px_agents p ! a)) = CONNECTED"
    using c by (simp add: set_tcp_frame_handler_def)
  then show ?thesis
    using True assms(1-3,5) t c
    by (simp add: create_connection_def is_connected_def px_open_agent_def agent_send_tcp_data_def
        send_tcp_data_full px_set_def read_from_client_def px_act_def linked_def agent_frames_def
        new_connection_def map_simps Let_def nth_append set_tcp_frame_handler_def)
next
  case False
  then show ?thesis
    using assms(1-5) by (auto simp: create_connection_def is_connected_def px_refuse_def px_act_def
        agent_frames_def split: option.splits)
qed

lemma digits_no_match: "length ds = 8 \<Longrightarrow> px_generate_connection_id ds \<noteq> connection_id_to_string uuid"
  using length_connection_id_to_string [of uuid]
  by (auto simp: px_generate_connection_id_def dest: arg_cong [where f = length])

text \<open>
  A connection opened by port is stored under one id and renamed to another: what its client
  sends is never found again, so that nothing but the opening frame reaches the agent, and closing
  it leaves its entry in the map.
\<close>

theorem connection_by_port_unreachable:
  assumes "match_tunnel_by_port now ord port (px_tunnels p) = tid" "tid \<noteq> ''''"
    and "Cache_get now tid (px_tunnels p) = Some t" "validate_ip_allowlist n t ip"
    and "get_agent tid (px_registry p) = Some a" "a < length (px_agents p)" "ac_state (px_agents p ! a) = CONNECTED"
    and "length rs = 8" "map_of (px_connections p) (connection_id_to_string uuid) = None"
    and "p1 = create_connection_by_port e now ord n full_write (Some ip) (px_generate_connection_id rs) uuid sock port p"
    and "h = length (px_objects p)"
    and "q = foldl (\<lambda>p d. on_client_read now full_write h (Client_data d) p) p1 ds"
  shows "px_state (px_objects q ! h) = Established \<and> agent_frames a q = agent_frames a p @ [open_frame e uuid]
    \<and> px_connections (on_client_read now full_write h Client_eof q) = px_connections q
    \<and> map_of (px_connections q) (px_generate_connection_id rs) = Some h"
proof -
  let ?ok = "\<lambda>q. px_state (px_objects q ! h) = Established \<and> agent_frames a q = agent_frames a p @ [open_frame e uuid]
    \<and> map_of (px_connections q) (connection_id_to_string uuid) = None
    \<and> px_connection_id (px_objects q ! h) = connection_id_to_string uuid
    \<and> map_of (px_connections q) (px_generate_connection_id rs) = Some h"
  have "?ok p1"
    using assms(1-11) digits_no_match [OF assms(8), of uuid]
    by (simp add: create_connection_by_port_def is_connected_def agent_send_tcp_data_def
        send_tcp_data_full px_set_def read_from_client_def px_act_def agent_frames_def
        new_connection_def map_simps Let_def nth_append)
  moreover have "?ok (on_client_read now full_write h (Client_data d) q')" if "?ok q'" for q' d
    using that by (simp add: on_client_read_def px_send_data_def read_from_client_def px_act_def
        agent_frames_def Let_def)
  ultimately have "?ok (foldl (\<lambda>p d. on_client_read now full_write h (Client_data d) p) p1 ds)"
    by (induction ds arbitrary: p1) auto
  then show ?thesis
    using assms(12) by (simp add: on_client_read_def px_close_connection_def Let_def)
qed

section \<open>Witnesses\<close>

definition sample_proxy :: TCPProxy where
  "sample_proxy = TCPProxy_new
     (Cache_put_ttl 0 ''db'' (sample_tunnel\<lparr>tunnel_id := ''db'', protocol := TCP, target_port := 5432,
        ip_allowlist := []\<rparr>) 60 (Cache_new 60))
     (snd (register_agent ''db'' 0 (AgentRegistry_new 5)))
     [AgentConnection_from_socket 0 ''db'']"

definition sample_linked :: TCPProxy where
  "sample_linked = create_connection LittleEndian 0 sample_inet full_write (Some ''192.168.1.9'') sample_id
     True ''db'' 7 sample_proxy"

lemma sample_admits: "validate_ip_allowlist sample_inet (sample_tunnel\<lparr>tunnel_id := ''db'', protocol := TCP,
    target_port := 5432, ip_allowlist := []\<rparr>) ip"
  by (simp add: validate_ip_allowlist_def)

lemmas sample_proxy_defs = sample_proxy_def TCPProxy_new_def Cache_put_ttl_def Cache_new_def Cache_get_def
  is_expired_def seconds_def register_agent_def AgentRegistry_new_def get_agent_def
  AgentConnection_from_socket_def AgentConnection_init_def

lemma sample_linked_ok:
  "linked sample_id 0 0 sample_linked" "px_recv_buffer (px_objects sample_linked ! 0) = []"
  "px_send_buffer (px_objects sample_linked ! 0) = []" "px_bytes_sent (px_objects sample_linked ! 0) = 0"
  "px_wf sample_linked" "ac_tcp_frame_handler (px_agents sample_linked ! 0)" "agent_frames 0 sample_proxy = []"
  "px_tunnels sample_linked = px_tunnels sample_proxy"
  by (simp_all add: sample_linked_def sample_proxy_defs create_connection_def validate_ip_allowlist_def
      is_connected_def px_open_agent_def agent_send_tcp_data_def send_tcp_data_full set_tcp_frame_handler_def
      px_set_def new_connection_def read_from_client_def px_act_def Let_def linked_def px_wf_def
      agent_frames_def sample_id_def)

lemma sample_cached: "Cache_get 0 ''db'' (px_tunnels sample_proxy) = Some (sample_tunnel\<lparr>tunnel_id := ''db'',
    protocol := TCP, target_port := 5432, ip_allowlist := []\<rparr>)"
  by (simp add: sample_proxy_defs)

lemma create_connection_decision_witness:
  "agent_frames 0 sample_linked = [open_frame LittleEndian sample_id]"
  using create_connection_decision [of "''db''" sample_proxy 0 sample_id True 0 sample_inet "''192.168.1.9''"
      sample_linked LittleEndian True 7] sample_admits sample_cached sample_linked_ok(7)
  by (simp add: sample_linked_def sample_proxy_defs sample_id_def)

lemma client_stream_first_window_witness:
  "agent_frames 0 (foldl (\<lambda>p (now, d). on_client_read now full_write 0 (Client_data d) p) sample_linked [(1, [1, 2]), (2, [3])])
   = agent_frames 0 sample_linked @ [data_frame sample_id 0 [1, 2], data_frame sample_id 2 [3]]"
  using client_stream_first_window [OF sample_linked_ok(1) sample_linked_ok(3), of 0 _ "[(1, [1, 2]), (2, [3])]"]
    sample_linked_ok(4) by (simp add: numeral_2_eq_2)

lemma agent_frames_to_client_witness:
  "\<exists>q. agent_rounds sample_id 0 [(1, 0, [9]), (2, 1, [8, 7])] sample_linked = Inr q
     \<and> client_writes 0 q = client_writes 0 sample_linked @ [[9], [8, 7]]"
  using agent_frames_to_client [OF sample_linked_ok(1,2), of "[(1, 0, [9]), (2, 1, [8, 7])]"] by auto

lemma overlapping_writes_witness:
  "\<exists>p1 p2 p3. handle_agent_tcp_frame 1 (data_frame sample_id 0 [9]) sample_linked = Inr p1
     \<and> handle_agent_tcp_frame 1 (data_frame sample_id 1 [8]) p1 = Inr p2
     \<and> on_client_written 0 (Some 1) p2 = Inr p3
     \<and> client_writes 0 p2 = client_writes 0 sample_linked @ [[9], [9, 8]]
     \<and> on_client_written 0 (Some 2) p3 = Inl Out_of_bounds"
proof -
  obtain p1 where 1: "handle_agent_tcp_frame 1 (data_frame sample_id 0 [9]) sample_linked = Inr p1"
    "linked sample_id 0 0 p1" "px_recv_buffer (px_objects p1 ! 0) = [9]"
    using data_frame_received [OF sample_linked_ok(1), of "[9]" 1 0 "[]"] sample_linked_ok(2) by auto
  obtain p2 where 2: "handle_agent_tcp_frame 1 (data_frame sample_id 1 [8]) p1 = Inr p2"
    "linked sample_id 0 0 p2" "px_recv_buffer (px_objects p2 ! 0) = [9] @ [8]"
    using data_frame_received [OF 1(2), of "[8]" 1 1 "[]"] 1(3) by auto
  obtain p3 where 3: "on_client_written 0 (Some 1) p2 = Inr p3"
    using client_write_done [OF 2(2,3)] by auto
  show ?thesis
    using overlapping_writes [OF sample_linked_ok(1,2) _ _ _ 1(1) 2(1), of p3] 1(1) 2(1) 3 by (simp add: numeral_2_eq_2)
qed


lemma connection_by_port_unreachable_witness:
  "\<exists>q. agent_frames 0 q = [open_frame LittleEndian sample_id]
     \<and> q = foldl (\<lambda>p d. on_client_read 0 full_write 0 (Client_data d) p)
         (create_connection_by_port LittleEndian 0 [''db''] sample_inet full_write (Some ''192.168.1.9'')
            (px_generate_connection_id [1, 2, 3, 4, 5, 6, 7, 8]) sample_id 7 5432 sample_proxy) [[1], [2]]"
proof -
  have "match_tunnel_by_port 0 [''db''] 5432 (px_tunnels sample_proxy) = ''db''"
    by (simp add: match_tunnel_by_port_def Cache_for_each_def Cache_live_def sample_cached)
  then show ?thesis
    using connection_by_port_unreachable [of 0 "[''db'']" 5432 sample_proxy "''db''" _ sample_inet "''192.168.1.9''" 0
        "[1, 2, 3, 4, 5, 6, 7, 8]" sample_id _ LittleEndian 7 0 _ "[[1], [2]]"]
      sample_cached sample_admits sample_linked_ok(7)
    by (simp add: sample_proxy_defs)
qed

end
