(* ===== verification/Agent_Server.thy ===== *)
theory Agent_Server
  imports Http_Text Token_Validator Agent_Registry
begin

text \<open>
  \<open>src/server/agent_server.{h,cpp}\<close>: the listener for agents. A handshake object reads the request of
  an agent, checks its token, registers the TCP ports the agent asks for and hands the socket over
  to an \<open>AgentConnection\<close>, whose disconnect callback keeps a raw pointer to the handshake. The
  handshake itself is kept alive by its handlers only, the last of them the completion of the
  write of the response. Steady-clock times are nanoseconds, as in the cache.
\<close>

section \<open>State\<close>

datatype hk_action = Hk_tls_handshake | Hk_read | Hk_response string

record AgentHandshake =
  hk_agent_ip :: string
  hk_auth_buffer :: string
  hk_alive :: bool
  hk_actions :: "hk_action list"

record AgentServer =
  as_running :: bool
  as_registry :: AgentRegistry
  as_conns :: "AgentConnection list"
  as_owner :: "nat list"
  as_tunnels :: "(string, Tunnel) Cache"
  as_tokens :: token_cache
  as_handshakes :: "AgentHandshake list"
  as_actions :: "string list"

definition AgentServer_new :: "AgentRegistry \<Rightarrow> (string, Tunnel) Cache \<Rightarrow> token_cache \<Rightarrow> AgentServer" where
  "AgentServer_new registry tunnels tokens = \<lparr>as_running = False, as_registry = registry, as_conns = [],
     as_owner = [], as_tunnels = tunnels, as_tokens = tokens, as_handshakes = [], as_actions = []\<rparr>"

definition hk_act :: "nat \<Rightarrow> hk_action \<Rightarrow> AgentServer \<Rightarrow> AgentServer" where
  "hk_act k a s = s\<lparr>as_handshakes := (as_handshakes s)[k :=
     (as_handshakes s ! k)\<lparr>hk_actions := hk_actions (as_handshakes s ! k) @ [a]\<rparr>]\<rparr>"

definition hk_free :: "nat \<Rightarrow> AgentServer \<Rightarrow> AgentServer" where
  "hk_free k s = s\<lparr>as_handshakes := (as_handshakes s)[k := (as_handshakes s ! k)\<lparr>hk_alive := False\<rparr>]\<rparr>"

section \<open>Accepting\<close>

definition capacity_response :: string where
  "capacity_response = ''HTTP/1.1 503 Service Unavailable'' @ CRLF @ ''Content-Type: text/plain'' @ CRLF
     @ ''Connection: close'' @ CRLF @ CRLF
     @ ''Server at capacity. Maximum concurrent agents reached (50).'' @ CRLF"

text \<open>
  What an accept does with the next connection, decided when the accept is started: a full registry
  turns it away, otherwise it gets a handshake. \<open>ip\<close> is the agent's address, \<open>None\<close> when asking for
  it throws.
\<close>

definition do_accept :: "AgentServer \<Rightarrow> bool option" where
  "do_accept s = (if \<not> as_running s then None else Some (\<not> is_full (as_registry s)))"

definition on_accept :: "bool \<Rightarrow> bool \<Rightarrow> string option \<Rightarrow> AgentServer \<Rightarrow> AgentServer" where
  "on_accept admitted ec ip s =
    (if ec then s
     else if \<not> admitted then s\<lparr>as_actions := as_actions s @ [capacity_response]\<rparr>
     else s\<lparr>as_handshakes := as_handshakes s @ [\<lparr>hk_agent_ip = (case ip of Some i \<Rightarrow> i | None \<Rightarrow> ''unknown''),
              hk_auth_buffer = '''', hk_alive = True, hk_actions = [Hk_tls_handshake]\<rparr>]\<rparr>)"

definition as_start :: "AgentServer \<Rightarrow> AgentServer" where
  "as_start s = (if as_running s then s else s\<lparr>as_running := True\<rparr>)"

definition as_stop :: "AgentServer \<Rightarrow> AgentServer" where
  "as_stop s = (if \<not> as_running s then s else s\<lparr>as_running := False\<rparr>)"

section \<open>Authentication\<close>

definition response_line :: "nat \<Rightarrow> string \<Rightarrow> string" where
  "response_line code message = ''HTTP/1.1 '' @ nat_string code @ '' '' @ message @ CRLF
     @ ''Content-Length: 0'' @ CRLF @ CRLF"

definition hk_send_response :: "nat \<Rightarrow> nat \<Rightarrow> string \<Rightarrow> AgentServer \<Rightarrow> AgentServer" where
  "hk_send_response k code message s = hk_act k (Hk_response (response_line code message)) s"

text \<open>The three headers it looks for, matched with their case and one blank; the last one counts.\<close>

definition auth_header :: "string \<times> string \<times> string \<Rightarrow> string \<Rightarrow> string \<times> string \<times> string" where
  "auth_header h line = (case h of (authorization, tunnel_id_header, tcp_ports) \<Rightarrow>
     if starts_with ''Authorization: '' line then (drop 15 line, tunnel_id_header, tcp_ports)
     else if starts_with ''X-Tunnel-ID: '' line then (authorization, drop 13 line, tcp_ports)
     else if starts_with ''X-TCP-Ports: '' line then (authorization, tunnel_id_header, drop 13 line)
     else h)"

definition auth_headers :: "string \<Rightarrow> string \<times> string \<times> string" where
  "auth_headers auth_data = foldl auth_header ('''', '''', '''') (fst (header_lines auth_data))"

definition tcp_tunnel_key :: "string \<Rightarrow> u16 \<Rightarrow> string" where
  "tcp_tunnel_key tid port = tid @ '':tcp:'' @ nat_string (unat port)"

definition tcp_tunnel :: "int \<Rightarrow> string \<Rightarrow> Tunnel \<Rightarrow> Tunnel" where
  "tcp_tunnel now tid existing = \<lparr>tunnel_id = tid, protocol = TCP, target_host = target_host existing,
     target_port = target_port existing, ip_allowlist = [], rate_limit_rpm = 0, created_at = now,
     updated_at = now, status = ACTIVE\<rparr>"

text \<open>
  The loop over the comma-separated ports. \<open>std::stoi\<close> may throw, which nothing catches: the tunnels
  stored before stay stored, and the exception is returned beside them.
\<close>

function register_ports ::
  "int \<Rightarrow> int \<Rightarrow> string \<Rightarrow> Tunnel \<Rightarrow> string \<Rightarrow> (string, Tunnel) Cache \<Rightarrow> cpp_error option \<times> (string, Tunnel) Cache" where
  "register_ports steady now tid existing text c =
    (case getline (CHR '','') text of
       None \<Rightarrow> (None, c)
     | Some (field, rest) \<Rightarrow>
       let port_str = trim blanks field
       in if port_str = '''' then register_ports steady now tid existing rest c
          else case stoi 10 port_str of
            Inl e \<Rightarrow> (Some e, c)
          | Inr v \<Rightarrow> register_ports steady now tid existing rest
              (Cache_put_ttl steady (tcp_tunnel_key tid (word_of_int v)) (tcp_tunnel now tid existing)
                 (24 * 3600) c))"
  by pat_completeness auto
termination
  by (relation "measure (\<lambda>(steady, now, tid, existing, text, c). length text)") (auto dest: getline_shorter)

declare register_ports.simps [simp del]

text \<open>
  Hands an operation on connection \<open>h\<close> the disconnect callback: every disconnect it reports calls
  \<open>unregister_agent\<close> through the handshake that installed it.
\<close>

definition run_agent :: "nat \<Rightarrow> (AgentConnection \<Rightarrow> AgentConnection) \<Rightarrow> AgentServer \<Rightarrow> AgentServer result" where
  "run_agent h f s =
    (let c = as_conns s ! h; c' = f c;
         s1 = s\<lparr>as_conns := (as_conns s)[h := c']\<rparr>;
         gone = concat (map (\<lambda>a. case a of Ac_disconnect tid \<Rightarrow> [tid] | _ \<Rightarrow> [])
                  (drop (length (ac_actions c)) (ac_actions c')))
     in if gone = [] then Inr s1
        else if \<not> hk_alive (as_handshakes s1 ! (as_owner s1 ! h)) then Inl Use_after_free
        else Inr (s1\<lparr>as_registry := foldl (\<lambda>r tid. unregister_agent tid r) (as_registry s1) gone\<rparr>))"

text \<open>
  \<open>authenticate\<close>: \<open>sha\<close> and \<open>ord\<close> as in the validator, \<open>rv\<close> the result of the first send of the
  session. The result of \<open>register_agent\<close> is not looked at.
\<close>

definition authenticate ::
  "(string \<Rightarrow> bytes) \<Rightarrow> int \<Rightarrow> int \<Rightarrow> string list \<Rightarrow> int \<Rightarrow> nat \<Rightarrow> string \<Rightarrow> AgentServer
   \<Rightarrow> cpp_error option \<times> AgentServer" where
  "authenticate sha steady now ord rv k auth_data s =
    (let (authorization, tunnel_id_header, tcp_ports_str) = auth_headers auth_data;
         r = validate sha steady now ord (as_tokens s) authorization
     in if \<not> vr_valid r then (None, hk_send_response k 401 (vr_error_message r) s)
        else let tid = vr_tunnel_id r
          in if is_connected (as_conns s) tid (as_registry s)
             then (None, hk_send_response k 409 ''Tunnel already connected'' s)
             else let (ex, tunnels) =
                    (if tcp_ports_str = '''' then (None, as_tunnels s)
                     else case Cache_get steady tid (as_tunnels s) of
                       None \<Rightarrow> (None, as_tunnels s)
                     | Some existing \<Rightarrow> register_ports steady now tid existing tcp_ports_str (as_tunnels s));
                    s1 = s\<lparr>as_tunnels := tunnels\<rparr>
               in case ex of
                    Some e \<Rightarrow> (Some e, s1)
                  | None \<Rightarrow>
                    (let s2 = hk_send_response k 200 ''Connection established'' s1;
                         h = length (as_conns s2);
                         s3 = s2\<lparr>as_conns := as_conns s2 @ [AgentConnection_from_socket now tid],
                                 as_owner := as_owner s2 @ [k],
                                 as_registry := snd (register_agent tid h (as_registry s2))\<rparr>
                     in case run_agent h (ac_start (steady div 1000000000) rv) s3 of
                          Inl e \<Rightarrow> (Some e, s3)
                        | Inr s4 \<Rightarrow> (None, s4)))"

definition do_read_auth :: "nat \<Rightarrow> AgentServer \<Rightarrow> AgentServer" where
  "do_read_auth k s = hk_act k Hk_read s"

text \<open>Handlers: an error ends the handshake, and with it the object.\<close>

definition on_tls_handshake :: "nat \<Rightarrow> bool \<Rightarrow> AgentServer \<Rightarrow> AgentServer" where
  "on_tls_handshake k ec s = (if ec then hk_free k s else do_read_auth k s)"

definition on_auth_read ::
  "(string \<Rightarrow> bytes) \<Rightarrow> int \<Rightarrow> int \<Rightarrow> string list \<Rightarrow> int \<Rightarrow> nat \<Rightarrow> string option \<Rightarrow> AgentServer
   \<Rightarrow> cpp_error option \<times> AgentServer" where
  "on_auth_read sha steady now ord rv k r s = (case r of
     None \<Rightarrow> (None, hk_free k s)
   | Some text \<Rightarrow>
     let buffer = hk_auth_buffer (as_handshakes s ! k) @ text;
         s1 = s\<lparr>as_handshakes := (as_handshakes s)[k := (as_handshakes s ! k)\<lparr>hk_auth_buffer := buffer\<rparr>]\<rparr>
     in if find_string (CRLF @ CRLF) buffer \<noteq> None
        then authenticate sha steady now ord rv k buffer s1
        else (None, do_read_auth k s1))"

definition on_response_written :: "nat \<Rightarrow> bool \<Rightarrow> AgentServer \<Rightarrow> AgentServer" where
  "on_response_written k ec s = hk_free k s"

section \<open>A successful handshake\<close>

definition started_connection :: "int \<Rightarrow> int \<Rightarrow> string \<Rightarrow> AgentConnection" where
  "started_connection steady now tid = ac_start (steady div 1000000000) 0 (AgentConnection_from_socket now tid)"

lemma started_connection_simps [simp]:
  "ac_state (started_connection steady now tid) = CONNECTED"
  "ac_session (started_connection steady now tid)" "ac_on_disconnect (started_connection steady now tid)"
  "ac_tunnel_id (started_connection steady now tid) = tid"
  "ac_pending_requests (started_connection steady now tid) = []"
  "ac_actions (started_connection steady now tid) = [Ac_submit_settings, Ac_session_send, Ac_arm_heartbeat, Ac_start_read]"
  by (simp_all add: started_connection_def ac_start_def AgentConnection_from_socket_def
      AgentConnection_init_def start_session_def initialize_nghttp2_def send_pending_data_def
      start_heartbeat_def send_heartbeat_def ac_start_read_def ac_act_def Let_def)

text \<open>The tunnels after the port loop, and its exception.\<close>

definition ports_outcome ::
  "int \<Rightarrow> int \<Rightarrow> string \<Rightarrow> string \<Rightarrow> (string, Tunnel) Cache \<Rightarrow> cpp_error option \<times> (string, Tunnel) Cache" where
  "ports_outcome steady now tid ports c = (if ports = '''' then (None, c)
     else case Cache_get steady tid c of None \<Rightarrow> (None, c)
        | Some existing \<Rightarrow> register_ports steady now tid existing ports c)"

lemma authenticate_accepts:
  assumes "auth_headers text = (authz, th, ports)" "k < length (as_handshakes s)"
    and "r = validate sha steady now ord (as_tokens s) authz" "vr_valid r" "tid = vr_tunnel_id r"
    and "\<not> is_connected (as_conns s) tid (as_registry s)"
    and "ports_outcome steady now tid ports (as_tunnels s) = (None, tunnels)"
    and "length (as_owner s) = length (as_conns s)"
  shows "authenticate sha steady now ord 0 k text s = (None, (hk_send_response k 200 ''Connection established''
      (s\<lparr>as_tunnels := tunnels\<rparr>))\<lparr>as_conns := as_conns s @ [started_connection steady now tid],
        as_owner := as_owner s @ [k], as_registry := snd (register_agent tid (length (as_conns s)) (as_registry s))\<rparr>)"
proof -
  have run: "run_agent (length (as_conns s)) (ac_start (steady div 1000000000) 0) t
      = Inr (t\<lparr>as_conns := as_conns s @ [started_connection steady now tid]\<rparr>)"
    if "as_conns t = as_conns s @ [AgentConnection_from_socket now tid]" for t
    using that by (simp add: run_agent_def started_connection_def [symmetric] Let_def)
      (simp add: AgentConnection_from_socket_def AgentConnection_init_def)
  show ?thesis
    using assms
    by (simp add: authenticate_def ports_outcome_def [symmetric] run hk_send_response_def hk_act_def Let_def)
qed

lemma authenticate_rejects:
  assumes "auth_headers text = (authz, th, ports)" "r = validate sha steady now ord (as_tokens s) authz"
  shows "\<not> vr_valid r \<Longrightarrow> authenticate sha steady now ord rv k text s = (None, hk_send_response k 401 (vr_error_message r) s)"
    and "vr_valid r \<Longrightarrow> is_connected (as_conns s) (vr_tunnel_id r) (as_registry s)
      \<Longrightarrow> authenticate sha steady now ord rv k text s = (None, hk_send_response k 409 ''Tunnel already connected'' s)"
  using assms by (simp_all add: authenticate_def)

text \<open>
  An accepted agent is told 200 and gets a session, whatever \<open>register_agent\<close> answered. It becomes
  its tunnel's agent exactly when the registry had room and no entry for the tunnel; in a registry
  that filled up while the handshake was under way the agent stays connected, but no request will
  ever be routed to it.
\<close>

theorem accepted_agent_may_be_unregistered:
  assumes "auth_headers text = (authz, th, ports)" "k < length (as_handshakes s)"
    and "vr_valid (validate sha steady now ord (as_tokens s) authz)"
    and "tid = vr_tunnel_id (validate sha steady now ord (as_tokens s) authz)"
    and "\<not> is_connected (as_conns s) tid (as_registry s)"
    and "fst (ports_outcome steady now tid ports (as_tunnels s)) = None"
    and "length (as_owner s) = length (as_conns s)" "h = length (as_conns s)"
    and "(ex, t) = authenticate sha steady now ord 0 k text s"
  shows "ex = None
    \<and> last (hk_actions (as_handshakes t ! k)) = Hk_response (response_line 200 ''Connection established'')
    \<and> ac_state (as_conns t ! h) = CONNECTED \<and> ac_session (as_conns t ! h)
    \<and> (get_agent tid (as_registry t) = Some h \<longleftrightarrow>
         get_agent tid (as_registry s) = Some h \<or> get_agent tid (as_registry s) = None \<and> \<not> is_full (as_registry s))"
proof -
  obtain tunnels where p: "ports_outcome steady now tid ports (as_tunnels s) = (None, tunnels)"
    using assms(6) by (cases "ports_outcome steady now tid ports (as_tunnels s)") simp
  note a = authenticate_accepts [OF assms(1,2) refl assms(3,4,5) p assms(7)]
  then show ?thesis
    using assms(2,8,9)
    by (auto simp: hk_send_response_def hk_act_def nth_append register_agent_def is_full_def get_agent_def map_simps)
qed

text \<open>
  C38. The disconnect callback of an agent is a raw pointer to its handshake, and the handshake is
  gone once its response has been written: whatever then closes the connection uses freed memory
  instead of removing the agent from the registry.
\<close>

theorem disconnect_uses_freed_handshake:
  assumes "auth_headers text = (authz, th, ports)" "k < length (as_handshakes s)"
    and "vr_valid (validate sha steady now ord (as_tokens s) authz)"
    and "tid = vr_tunnel_id (validate sha steady now ord (as_tokens s) authz)"
    and "\<not> is_connected (as_conns s) tid (as_registry s)"
    and "fst (ports_outcome steady now tid ports (as_tunnels s)) = None"
    and "length (as_owner s) = length (as_conns s)" "h = length (as_conns s)"
    and "(ex, t) = authenticate sha steady now ord 0 k text s"
  shows "run_agent h ac_close (on_response_written k ec t) = Inl Use_after_free
    \<and> (hk_alive (as_handshakes s ! k) \<longrightarrow>
         (\<exists>u. run_agent h ac_close t = Inr u \<and> get_agent tid (as_registry u) = None))"
proof -
  obtain tunnels where p: "ports_outcome steady now tid ports (as_tunnels s) = (None, tunnels)"
    using assms(6) by (cases "ports_outcome steady now tid ports (as_tunnels s)") simp
  have t: "t = (hk_send_response k 200 ''Connection established'' (s\<lparr>as_tunnels := tunnels\<rparr>))
      \<lparr>as_conns := as_conns s @ [started_connection steady now tid], as_owner := as_owner s @ [k],
       as_registry := snd (register_agent tid (length (as_conns s)) (as_registry s))\<rparr>"
    using authenticate_accepts [OF assms(1,2) refl assms(3,4,5) p assms(7)] assms(9) by simp
  have c: "ac_actions (ac_close (started_connection steady now tid)) = ac_actions (started_connection steady now tid)
      @ [Ac_cancel_heartbeat, Ac_shutdown, Ac_disconnect tid]"
    by (simp add: ac_close_def ac_act_def handle_disconnect_def Let_def)
  have u: "get_agent tid (unregister_agent tid r) = None" for r
    by (auto simp: get_agent_def unregister_agent_def map_simps split: option.splits)
  show ?thesis
    using assms(2,7,8) c u
    by (simp add: t run_agent_def on_response_written_def hk_free_def hk_send_response_def hk_act_def
        nth_append Let_def)
qed

section \<open>Ports\<close>

lemma register_ports_Nil [simp]: "register_ports steady now tid existing [] c = (None, c)"
  by (subst register_ports.simps) (simp add: getline_def)

lemma register_ports_single:
  assumes "CHR '','' \<notin> set text" "text \<noteq> []" "trim blanks text \<noteq> ''''"
  shows "register_ports steady now tid existing text c = (case stoi 10 (trim blanks text) of
      Inl e \<Rightarrow> (Some e, c)
    | Inr v \<Rightarrow> (None, Cache_put_ttl steady (tcp_tunnel_key tid (word_of_int v)) (tcp_tunnel now tid existing) (24 * 3600) c))"
  using assms by (subst register_ports.simps) (simp add: getline_last Let_def split: sum.splits)

section \<open>Witnesses\<close>

definition sample_auth :: string where
  "sample_auth = ''Authorization: Bearer tnl_a'' @ CRLF @ ''X-TCP-Ports: 9100'' @ CRLF @ CRLF"

definition sample_server :: AgentServer where
  "sample_server = (AgentServer_new (AgentRegistry_new 1) (Cache_new 60) sample_tokens)
     \<lparr>as_handshakes := [\<lparr>hk_agent_ip = '''', hk_auth_buffer = '''', hk_alive = True, hk_actions = []\<rparr>]\<rparr>"

lemma sample_auth_headers: "auth_headers sample_auth = (''Bearer tnl_a'', '''', ''9100'')"
proof -
  have "header_lines (concat (map (\<lambda>l. l @ CRLF) [''Authorization: Bearer tnl_a'', ''X-TCP-Ports: 9100'']) @ CRLF @ [])
      = ([''Authorization: Bearer tnl_a'', ''X-TCP-Ports: 9100''], [])"
    by (rule header_lines_concat) simp
  then show ?thesis
    by (simp add: auth_headers_def sample_auth_def auth_header_def starts_with_def)
qed

lemma sample_valid: "validate sample_sha 5 5 [''t1''] sample_tokens ''Bearer tnl_a'' = vr_success ''t1''"
proof -
  have "extract_token (''Bearer '' @ ''tnl_a'') = ''tnl_a''"
    by (rule extract_token_bearer) (simp_all add: starts_with_def white_def)
  then have "extract_token ''Bearer tnl_a'' = ''tnl_a''" by simp
  moreover have "Cache_live 5 [''t1''] sample_tokens = [(''t1'', sample_token ''tnl_a'')]"
    by (simp add: Cache_live_def sample_tokens_get)
  moreover have "at_token_hash (sample_token ''tnl_a'') = compute_token_hash sample_sha ''tnl_a''"
    "\<not> token_expired 5 (sample_token ''tnl_a'')"
    by (simp_all add: sample_token_def token_expired_def)
  ultimately show ?thesis
    by (simp add: validate_def validate_token_def Cache_for_each_def Let_def)
qed

lemma sample_server_simps:
  "as_conns sample_server = []" "as_owner sample_server = []" "as_tokens sample_server = sample_tokens"
  "as_tunnels sample_server = Cache_new 60" "as_registry sample_server = AgentRegistry_new 1"
  "length (as_handshakes sample_server) = 1"
  "hk_alive (as_handshakes sample_server ! 0)" "\<not> is_connected [] tid (AgentRegistry_new 1)"
  "ports_outcome st now tid ports (Cache_new 60) = (None, Cache_new 60)"
  by (simp_all add: sample_server_def AgentServer_new_def is_connected_def AgentRegistry_new_def get_agent_def
      ports_outcome_def Cache_get_def Cache_new_def)

lemma sample_authentication:
  assumes "n \<le> 1"
  shows "\<exists>t. authenticate sample_sha 5 5 [''t1''] 0 0 sample_auth (sample_server\<lparr>as_registry := AgentRegistry_new n\<rparr>) = (None, t)"
  using authenticate_accepts [OF sample_auth_headers, of 0 "sample_server\<lparr>as_registry := AgentRegistry_new n\<rparr>" _
      sample_sha 5 5 "[''t1'']", OF _ refl] sample_server_simps
  by (simp add: sample_valid vr_success_def AgentRegistry_new_def is_connected_def get_agent_def)

lemma accepted_agent_may_be_unregistered_witness:
  "\<exists>t. authenticate sample_sha 5 5 [''t1''] 0 0 sample_auth (sample_server\<lparr>as_registry := AgentRegistry_new 0\<rparr>) = (None, t)
     \<and> ac_state (as_conns t ! 0) = CONNECTED \<and> get_agent ''t1'' (as_registry t) \<noteq> Some 0"
proof -
  let ?s = "sample_server\<lparr>as_registry := AgentRegistry_new 0\<rparr>"
  obtain t where t: "authenticate sample_sha 5 5 [''t1''] 0 0 sample_auth ?s = (None, t)"
    using sample_authentication [of 0] by auto
  show ?thesis
    using accepted_agent_may_be_unregistered [OF sample_auth_headers, of 0 ?s sample_sha 5 5 "[''t1'']" _ 0 None t]
      sample_server_simps
    by (simp add: sample_valid vr_success_def t) (simp add: AgentRegistry_new_def is_connected_def get_agent_def is_full_def t)
qed

lemma disconnect_uses_freed_handshake_witness:
  "\<exists>t. authenticate sample_sha 5 5 [''t1''] 0 0 sample_auth sample_server = (None, t)
     \<and> run_agent 0 ac_close (on_response_written 0 False t) = Inl Use_after_free"
proof -
  have s: "sample_server\<lparr>as_registry := AgentRegistry_new 1\<rparr> = sample_server"
    by (simp add: sample_server_def AgentServer_new_def)
  obtain t where t: "authenticate sample_sha 5 5 [''t1''] 0 0 sample_auth sample_server = (None, t)"
    using sample_authentication [of 1] unfolding s by auto
  show ?thesis
    using disconnect_uses_freed_handshake [OF sample_auth_headers, of 0 sample_server sample_sha 5 5 "[''t1'']" _ 0 None t]
      sample_server_simps
    by (simp add: sample_valid vr_success_def t on_response_written_def)
qed

end
