(* ===== verification/Tcp_Server.thy ===== *)
theory Tcp_Server
  imports Tcp_Proxy
begin

text \<open>
  \<open>src/server/tcp_server.{h,cpp}\<close>: the listeners for raw TCP clients. The tunnel of a port is looked up
  among the keys \<open><tunnel>:tcp:<port>\<close> that the agent server stores, and remembered for ever. The
  server counts its connections: up when one is accepted, down when the proxy calls the close
  callback, which it does only when it refuses a connection.
\<close>

section \<open>State\<close>

record PortListener =
  pl_port :: u16
  pl_connection_count :: nat

datatype ts_action = Ts_accept nat | Ts_close_acceptor nat | Ts_close_socket nat

record TCPServer =
  ts_listeners :: "PortListener list"
  ts_port_to_tunnel :: "(u16, string) umap"
  ts_running :: bool
  ts_active_connection_count :: nat
  ts_proxy :: TCPProxy
  ts_actions :: "ts_action list"

definition TCPServer_new :: "TCPProxy \<Rightarrow> u16 list \<Rightarrow> TCPServer" where
  "TCPServer_new proxy tcp_ports = \<lparr>ts_listeners = map (\<lambda>port. \<lparr>pl_port = port, pl_connection_count = 0\<rparr>) tcp_ports,
     ts_port_to_tunnel = [], ts_running = False, ts_active_connection_count = 0, ts_proxy = proxy,
     ts_actions = []\<rparr>"

definition ts_act :: "ts_action \<Rightarrow> TCPServer \<Rightarrow> TCPServer" where
  "ts_act a s = s\<lparr>ts_actions := ts_actions s @ [a]\<rparr>"

section \<open>Starting and stopping\<close>

definition start_accept :: "nat \<Rightarrow> TCPServer \<Rightarrow> TCPServer" where
  "start_accept i s = ts_act (Ts_accept i) s"

text \<open>
  \<open>bound\<close> tells for each port whether opening, binding and listening succeed; the first failure is
  thrown on, with the listeners before it already accepting.
\<close>

fun start_listeners :: "(u16 \<Rightarrow> string option) \<Rightarrow> nat \<Rightarrow> PortListener list \<Rightarrow> TCPServer \<Rightarrow> cpp_error option \<times> TCPServer" where
  "start_listeners bound i [] s = (None, s)"
| "start_listeners bound i (l # ls) s = (case bound (pl_port l) of
     Some e \<Rightarrow> (Some (Runtime_error e), s)
   | None \<Rightarrow> start_listeners bound (Suc i) ls (start_accept i s))"

definition ts_start :: "(u16 \<Rightarrow> string option) \<Rightarrow> TCPServer \<Rightarrow> cpp_error option \<times> TCPServer" where
  "ts_start bound s =
    (if ts_running s then (None, s)
     else case start_listeners bound 0 (ts_listeners s) s of
       (Some e, s1) \<Rightarrow> (Some e, s1)
     | (None, s1) \<Rightarrow> (None, s1\<lparr>ts_running := True\<rparr>))"

definition ts_stop :: "TCPServer \<Rightarrow> TCPServer" where
  "ts_stop s =
    (if \<not> ts_running s then s
     else s\<lparr>ts_actions := ts_actions s @ map Ts_close_acceptor [0..<length (ts_listeners s)], ts_running := False\<rparr>)"

section \<open>Connections\<close>

text \<open>The port of a key: what \<open>std::stoi\<close> reads after the first \<open>:tcp:\<close>, cut to 16 bits.\<close>

definition key_port :: "string \<Rightarrow> u16 option" where
  "key_port key = (case find_string '':tcp:'' key of
     None \<Rightarrow> None
   | Some tcp_pos \<Rightarrow> (case stoi 10 (drop (tcp_pos + 5) key) of Inl _ \<Rightarrow> None | Inr v \<Rightarrow> Some (word_of_int v)))"

definition find_tunnel_for_port :: "int \<Rightarrow> string list \<Rightarrow> u16 \<Rightarrow> TCPServer \<Rightarrow> string \<times> TCPServer" where
  "find_tunnel_for_port now ord port s = (case map_of (ts_port_to_tunnel s) port of
     Some tid \<Rightarrow> (tid, s)
   | None \<Rightarrow>
     let matched = Cache_for_each now ord (\<lambda>matched key t.
           if key_port key = Some port \<and> protocol t = TCP then tunnel_id t else matched)
           (px_tunnels (ts_proxy s)) ''''
     in if matched \<noteq> ''''
        then (matched, s\<lparr>ts_port_to_tunnel := AList.update port matched (ts_port_to_tunnel s)\<rparr>)
        else ('''', s))"

definition handle_connection_closed :: "nat \<Rightarrow> TCPServer \<Rightarrow> TCPServer" where
  "handle_connection_closed i s =
    (let l = ts_listeners s ! i;
         s1 = (if pl_connection_count l > 0
               then s\<lparr>ts_listeners := (ts_listeners s)[i := l\<lparr>pl_connection_count := pl_connection_count l - 1\<rparr>]\<rparr>
               else s)
     in if ts_active_connection_count s1 > 0
        then s1\<lparr>ts_active_connection_count := ts_active_connection_count s1 - 1\<rparr> else s1)"

text \<open>
  Calls the proxy and runs the close callbacks it makes. The proxy keeps no callback, so that there
  are none later.
\<close>

definition call_proxy :: "nat \<Rightarrow> (TCPProxy \<Rightarrow> TCPProxy) \<Rightarrow> TCPServer \<Rightarrow> TCPServer" where
  "call_proxy i f s =
    (let p = ts_proxy s; p' = f p;
         calls = filter (\<lambda>a. case a of Px_close_callback _ _ \<Rightarrow> True | _ \<Rightarrow> False)
                   (drop (length (px_actions p)) (px_actions p'))
     in foldl (\<lambda>s _. handle_connection_closed i s) (s\<lparr>ts_proxy := p'\<rparr>) calls)"

definition count_connection :: "nat \<Rightarrow> TCPServer \<Rightarrow> TCPServer" where
  "count_connection i s = s\<lparr>ts_listeners := (ts_listeners s)[i := (ts_listeners s ! i)
       \<lparr>pl_connection_count := pl_connection_count (ts_listeners s ! i) + 1\<rparr>],
     ts_active_connection_count := ts_active_connection_count s + 1\<rparr>"

text \<open>
  \<open>handle_accept\<close>: \<open>endpoint\<close> is the address of the client's end, asked for outside of any handler for
  exceptions; later the proxy asks again (\<open>endpoint2\<close>).
\<close>

definition handle_accept ::
  "endian \<Rightarrow> int \<Rightarrow> string list \<Rightarrow> inet \<Rightarrow> (bytes \<Rightarrow> nat option) \<Rightarrow> nat \<Rightarrow> bool \<Rightarrow> string option \<Rightarrow> string option
   \<Rightarrow> bytes \<Rightarrow> nat \<Rightarrow> TCPServer \<Rightarrow> TCPServer result" where
  "handle_accept e now ord n w i ec endpoint endpoint2 uuid sock s =
    (let again = (\<lambda>s. if ts_running s then start_accept i s else s)
     in if ec then Inr (again s)
        else case endpoint of
          None \<Rightarrow> Inl (Runtime_error ''remote_endpoint'')
        | Some client_ip \<Rightarrow>
          let (tid, s1) = find_tunnel_for_port now ord (pl_port (ts_listeners s ! i)) s
          in if tid = '''' then Inr (again (ts_act (Ts_close_socket sock) s1))
             else Inr (again (call_proxy i (create_connection e now n w endpoint2 uuid True tid sock)
                    (count_connection i s1))))"

section \<open>Runs of the server\<close>

text \<open>
  The states of a server over agents whose sockets take every frame: it starts and stops, accepts
  clients, and its proxy handles reads and writes of clients and frames of agents.
\<close>

inductive ts_reach :: "TCPServer \<Rightarrow> bool" where
  init: "px_objects p = [] \<Longrightarrow> ts_reach (TCPServer_new p ports)"
| start: "ts_reach s \<Longrightarrow> ts_reach (snd (ts_start bound s))"
| stop: "ts_reach s \<Longrightarrow> ts_reach (ts_stop s)"
| accept: "ts_reach s \<Longrightarrow> i < length (ts_listeners s) \<Longrightarrow>
    handle_accept e now ord n full_write i ec ep ep2 uuid sock s = Inr t \<Longrightarrow> ts_reach t"
| client_read: "ts_reach s \<Longrightarrow> ts_reach (s\<lparr>ts_proxy := on_client_read now w h r (ts_proxy s)\<rparr>)"
| client_written: "ts_reach s \<Longrightarrow> on_client_written h k (ts_proxy s) = Inr p \<Longrightarrow> ts_reach (s\<lparr>ts_proxy := p\<rparr>)"
| agent_frame: "ts_reach s \<Longrightarrow> handle_agent_tcp_frame now fd (ts_proxy s) = Inr p \<Longrightarrow> ts_reach (s\<lparr>ts_proxy := p\<rparr>)"

lemma length_objects [simp]:
  "length (px_objects (px_set h f p)) = length (px_objects p)"
  "px_objects (px_act x p) = px_objects p"
  "length (px_objects (px_close_connection cid g p)) = length (px_objects p)"
  "px_objects (snd (agent_send_tcp_data now w a fr p)) = px_objects p"
  by (auto simp: px_set_def px_act_def px_close_connection_def cleanup_connection_def Let_def
      agent_send_tcp_data_def split: option.splits prod.splits)

lemma objects_write [simp]: "px_objects (write_to_client h p) = px_objects p"
  by (simp add: write_to_client_def)

lemma length_objects_read [simp]: "length (px_objects (on_client_read now w h r p)) = length (px_objects p)"
  by (auto simp: on_client_read_def px_send_data_def read_from_client_def px_handle_error_def Let_def
      split: option.splits client_read.splits sum.splits if_splits)

lemma length_objects_written: "on_client_written h k p = Inr q \<Longrightarrow> length (px_objects q) = length (px_objects p)"
  by (auto simp: on_client_written_def px_handle_error_def Let_def
      split: option.splits if_splits)

lemma length_objects_received: "receive_data now cid d n p = Inr q \<Longrightarrow> length (px_objects q) = length (px_objects p)"
  by (auto simp: receive_data_def Let_def split: option.splits if_splits)

lemma length_objects_frame:
  assumes "handle_agent_tcp_frame now fd p = Inr q"
  shows "length (px_objects q) = length (px_objects p)"
proof -
  have "length (px_objects (case get_connection cid r of None \<Rightarrow> r | Some h \<Rightarrow> write_to_client h r)) = length (px_objects r)"
    for cid r by (simp split: option.splits)
  then show ?thesis
    using assms length_objects_received
    by (fastforce simp: handle_agent_tcp_frame_def px_handle_error_def Let_def split: if_splits)
qed

text \<open>Opening adds one object and calls no callback, or refuses and calls it once.\<close>

lemma create_connection_counts:
  assumes "q = create_connection e now n full_write ep uuid True tid sock p"
  shows "length (px_objects q) = length (px_objects p) + 1 \<and> px_actions q = px_actions p @ [Px_read (length (px_objects p))]
    \<or> length (px_objects q) = length (px_objects p)
      \<and> (\<exists>pre cid. px_actions q = px_actions p @ pre @ [Px_close_callback '''' cid, Px_close_socket sock]
           \<and> (\<forall>a \<in> set pre. \<exists>t ip. a = Px_ip_blocked t ip))"
proof (cases "\<exists>t ip a. Cache_get now tid (px_tunnels p) = Some t \<and> ep = Some ip \<and> validate_ip_allowlist n t ip
    \<and> get_agent tid (px_registry p) = Some a \<and> ac_state (px_agents p ! a) = CONNECTED")
  case True
  then obtain t ip a where a: "Cache_get now tid (px_tunnels p) = Some t" "ep = Some ip" "validate_ip_allowlist n t ip"
    "get_agent tid (px_registry p) = Some a" "ac_state (px_agents p ! a) = CONNECTED"
    by blast
  have "ac_state ((px_agents p)[a := set_tcp_frame_handler (px_agents p ! a)] ! a) = CONNECTED"
    using a(5) by (cases "a < length (px_agents p)") (simp_all add: set_tcp_frame_handler_def list_update_beyond not_less)
  then show ?thesis
    using a by (simp add: assms create_connection_def is_connected_def px_open_agent_def agent_send_tcp_data_def
        send_tcp_data_full px_set_def read_from_client_def px_act_def Let_def)
next
  case False
  then have "length (px_objects q) = length (px_objects p)
      \<and> (\<exists>pre cid. px_actions q = px_actions p @ pre @ [Px_close_callback '''' cid, Px_close_socket sock]
           \<and> (\<forall>a \<in> set pre. \<exists>t ip. a = Px_ip_blocked t ip))"
    by (auto simp: assms create_connection_def is_connected_def px_refuse_def px_act_def Let_def
        split: option.splits intro: exI [of _ "[]"] exI [of _ "[Px_ip_blocked tid ip]" for ip])
  then show ?thesis ..
qed

lemma closed_count:
  "ts_active_connection_count (handle_connection_closed i s) = ts_active_connection_count s - 1"
  "ts_proxy (handle_connection_closed i s) = ts_proxy s"
  "ts_running (handle_connection_closed i s) = ts_running s"
  "ts_port_to_tunnel (handle_connection_closed i s) = ts_port_to_tunnel s"
  by (simp_all add: handle_connection_closed_def Let_def)

lemma ts_start_accept [simp]:
  "ts_active_connection_count (start_accept i s) = ts_active_connection_count s"
  "ts_proxy (start_accept i s) = ts_proxy s" "ts_port_to_tunnel (start_accept i s) = ts_port_to_tunnel s"
  by (simp_all add: start_accept_def ts_act_def)

lemma start_listeners_keeps:
  "ts_active_connection_count (snd (start_listeners bound i ls s)) = ts_active_connection_count s
   \<and> ts_proxy (snd (start_listeners bound i ls s)) = ts_proxy s"
  by (induction bound i ls s rule: start_listeners.induct) (auto split: option.splits)

lemma find_tunnel_keeps:
  "ts_active_connection_count (snd (find_tunnel_for_port now ord port s)) = ts_active_connection_count s"
  "ts_proxy (snd (find_tunnel_for_port now ord port s)) = ts_proxy s"
  by (simp_all add: find_tunnel_for_port_def Let_def split: option.splits)

lemma call_create_counts:
  assumes "s' = call_proxy i (create_connection e now n full_write ep uuid True tid sock) s"
    and "0 < ts_active_connection_count s"
  shows "ts_active_connection_count s' + length (px_objects (ts_proxy s)) + 1
    = ts_active_connection_count s + length (px_objects (ts_proxy s'))"
proof -
  define q where "q = create_connection e now n full_write ep uuid True tid sock (ts_proxy s)"
  from create_connection_counts [OF q_def] show ?thesis
  proof
    assume "length (px_objects q) = length (px_objects (ts_proxy s)) + 1
      \<and> px_actions q = px_actions (ts_proxy s) @ [Px_read (length (px_objects (ts_proxy s)))]"
    then show ?thesis using assms(1) by (simp add: call_proxy_def q_def [symmetric] Let_def)
  next
    assume "length (px_objects q) = length (px_objects (ts_proxy s)) \<and> (\<exists>pre cid. px_actions q
      = px_actions (ts_proxy s) @ pre @ [Px_close_callback [] cid, Px_close_socket sock]
      \<and> (\<forall>a \<in> set pre. \<exists>t ip. a = Px_ip_blocked t ip))"
    then obtain pre cid where q: "length (px_objects q) = length (px_objects (ts_proxy s))"
      "px_actions q = px_actions (ts_proxy s) @ pre @ [Px_close_callback [] cid, Px_close_socket sock]"
      "\<forall>a \<in> set pre. \<exists>t ip. a = Px_ip_blocked t ip" by blast
    have "filter (\<lambda>a. case a of Px_close_callback _ _ \<Rightarrow> True | _ \<Rightarrow> False) pre = []"
      using q(3) by (auto simp: filter_empty_conv)
    then show ?thesis using assms q(1,2) by (simp add: call_proxy_def q_def [symmetric] closed_count Let_def)
  qed
qed

text \<open>
  The server's count of active connections is the number of connections it has ever opened:
  whatever clients and agents do in between, closing a connection never lowers it.
\<close>

theorem active_connections_never_decrease:
  assumes "ts_reach s"
  shows "ts_active_connection_count s = length (px_objects (ts_proxy s))"
  using assms
proof (induction rule: ts_reach.induct)
  case (start s bound)
  then show ?case using start_listeners_keeps [of bound 0 "ts_listeners s" s]
    by (auto simp: ts_start_def split: prod.splits option.splits)
next
  case (accept s i e now ord n ec ep ep2 uuid sock t)
  have c: "ts_active_connection_count s' = length (px_objects (ts_proxy s'))"
    if "s' = call_proxy i (create_connection e now n full_write ep2 uuid True tid sock)
             (count_connection i (snd (find_tunnel_for_port now ord port s)))" for s' tid port
    using call_create_counts [OF that] accept.IH by (simp add: count_connection_def find_tunnel_keeps)
  obtain tid s1 where f: "find_tunnel_for_port now ord (pl_port (ts_listeners s ! i)) s = (tid, s1)"
    by fastforce
  then have s1: "ts_active_connection_count s1 = length (px_objects (ts_proxy s1))"
    using accept.IH find_tunnel_keeps [of now ord "pl_port (ts_listeners s ! i)" s] by simp
  have "ts_active_connection_count s' = length (px_objects (ts_proxy s'))"
    if "s' = call_proxy i (create_connection e now n full_write ep2 uuid True tid sock) (count_connection i s1)" for s'
    using c [of s' tid "pl_port (ts_listeners s ! i)"] that f by simp
  then show ?case
    using accept.hyps(3) accept.IH s1 f
    by (auto simp: handle_accept_def Let_def ts_act_def split: option.splits if_splits)
qed (auto simp: TCPServer_new_def ts_stop_def length_objects_written length_objects_frame)

text \<open>
  The tunnel of a port is never looked up again: once remembered, a tunnel that has expired or
  been deleted keeps the port, and every client of it is turned away without the agents hearing of
  it, even if another tunnel has registered the port since.
\<close>

theorem stale_port_mapping:
  assumes "map_of (ts_port_to_tunnel s) (pl_port (ts_listeners s ! i)) = Some tid" "tid \<noteq> ''''"
    and "Cache_get now tid (px_tunnels (ts_proxy s)) = None"
    and "handle_accept e now ord n w i False (Some ip) ep uuid sock s = Inr t"
  shows "map_of (ts_port_to_tunnel t) (pl_port (ts_listeners s ! i)) = Some tid
    \<and> last (px_actions (ts_proxy t)) = Px_close_socket sock
    \<and> px_objects (ts_proxy t) = px_objects (ts_proxy s) \<and> px_agents (ts_proxy t) = px_agents (ts_proxy s)
    \<and> ts_active_connection_count t = ts_active_connection_count s"
proof -
  have "find_tunnel_for_port now ord (pl_port (ts_listeners s ! i)) s = (tid, s)"
    using assms(1) by (simp add: find_tunnel_for_port_def)
  then have t: "t = (let s' = call_proxy i (create_connection e now n w ep uuid True tid sock) (count_connection i s)
      in if ts_running s' then start_accept i s' else s')"
    using assms(2,4) by (simp add: handle_accept_def Let_def)
  have "create_connection e now n w ep uuid True tid sock (ts_proxy s)
      = px_act (Px_close_socket sock) (px_act (Px_close_callback '''' ''not_found'') (ts_proxy s))"
    using assms(3) by (simp add: create_connection_def px_refuse_def)
  then have "call_proxy i (create_connection e now n w ep uuid True tid sock) (count_connection i s)
      = handle_connection_closed i ((count_connection i s)\<lparr>ts_proxy := px_act (Px_close_socket sock)
          (px_act (Px_close_callback '''' ''not_found'') (ts_proxy s))\<rparr>)"
    by (simp add: call_proxy_def count_connection_def px_act_def Let_def)
  then show ?thesis
    using assms(1) by (simp add: t closed_count count_connection_def px_act_def Let_def)
qed

section \<open>Keys\<close>

lemma key_port_tcp_tunnel:
  assumes "CHR '':'' \<notin> set tid"
  shows "key_port (tid @ '':tcp:'' @ nat_string (unat port)) = Some port"
proof -
  have "find_string '':tcp:'' (tid @ '':tcp:'' @ nat_string (unat port)) = Some (length tid)"
  proof (rule find_string_append)
    fix i assume i: "i < length tid"
    then have "take (length '':tcp:'') (drop i (tid @ '':tcp:'' @ nat_string (unat port))) ! 0 = tid ! i"
      by (simp add: nth_append)
    moreover have "tid ! i \<noteq> CHR '':''" using assms i by (metis nth_mem)
    ultimately show "take (length '':tcp:'') (drop i (tid @ '':tcp:'' @ nat_string (unat port))) \<noteq> '':tcp:''"
      by auto
  qed
  moreover have "unat port < 2 ^ LENGTH(16)" by (rule unsigned_less)
  ultimately show ?thesis
    by (simp add: key_port_def stoi_nat_string)
qed

section \<open>Witnesses\<close>

definition sample_listener :: TCPServer where
  "sample_listener = (TCPServer_new (sample_proxy\<lparr>px_objects := []\<rparr>) [5432])\<lparr>ts_port_to_tunnel := [(5432, ''gone'')]\<rparr>"

lemma active_connections_never_decrease_witness:
  "ts_active_connection_count (snd (ts_start (\<lambda>p. None) (TCPServer_new sample_proxy [5432]))) = 0"
proof -
  have "ts_reach (snd (ts_start (\<lambda>p. None) (TCPServer_new sample_proxy [5432])))"
    by (intro ts_reach.start ts_reach.init) (simp add: sample_proxy_defs)
  from active_connections_never_decrease [OF this] show ?thesis
    by (simp add: ts_start_def TCPServer_new_def sample_proxy_defs)
qed

lemma stale_port_mapping_witness:
  "\<exists>t. handle_accept LittleEndian 0 [] sample_inet full_write 0 False (Some ''1.2.3.4'') (Some ''1.2.3.4'') sample_id 7
       sample_listener = Inr t \<and> last (px_actions (ts_proxy t)) = Px_close_socket 7"
proof -
  have m: "map_of (ts_port_to_tunnel sample_listener) (pl_port (ts_listeners sample_listener ! 0)) = Some ''gone''"
    "Cache_get 0 ''gone'' (px_tunnels (ts_proxy sample_listener)) = None"
    by (simp_all add: sample_listener_def TCPServer_new_def sample_proxy_defs)
  then obtain t where "handle_accept LittleEndian 0 [] sample_inet full_write 0 False (Some ''1.2.3.4'')
      (Some ''1.2.3.4'') sample_id 7 sample_listener = Inr t"
    by (simp add: handle_accept_def find_tunnel_for_port_def Let_def)
  then show ?thesis using stale_port_mapping [OF m(1) _ m(2)] by auto
qed

end
