(* ===== verification/Http_Proxy.thy ===== *)
theory Http_Proxy
  imports Agent_Registry Ip_Allowlist Cache
begin

text \<open>
  \<open>src/proxy/http_proxy.{h,cpp}\<close>: requests of HTTP clients. They are parsed, matched to a tunnel by the
  host, checked against the tunnel's allowlist, and sent to the tunnel's agent as text. A client
  is a number, and answering it is an action; the callbacks handed to an agent are remembered by
  the agent's handle and the number it gave them. The health page is an argument, as is the
  printing of JSON (\<open>dump\<close>, of the JSON library). Header maps are unordered: the order in which they are
  printed is the argument \<open>walk\<close>.
\<close>

section \<open>Requests and responses\<close>

record HTTPRequest =
  hp_method :: string
  hp_path :: string
  hp_version :: string
  hp_host :: string
  hp_client_ip :: string
  hp_headers :: "(string, string) umap"
  hp_body :: string

record HTTPResponse =
  hp_status_code :: int
  hp_status_message :: string
  hp_resp_headers :: "(string, string) umap"
  hp_resp_body :: string


definition HTTPRequest_to_string :: "(string \<times> string) list \<Rightarrow> HTTPRequest \<Rightarrow> string" where
  "HTTPRequest_to_string walk r =
     hp_method r @ '' '' @ hp_path r @ '' '' @ hp_version r @ CRLF @ header_text walk @ CRLF @ hp_body r"

text \<open>A length is added where the (case-sensitive) name is missing and there is a body.\<close>

definition HTTPResponse_to_string :: "(string \<times> string) list \<Rightarrow> HTTPResponse \<Rightarrow> string" where
  "HTTPResponse_to_string walk r =
     ''HTTP/1.1 '' @ int_string (hp_status_code r) @ '' '' @ hp_status_message r @ CRLF @ header_text walk
     @ (if map_of (hp_resp_headers r) ''content-length'' = None \<and> hp_resp_body r \<noteq> []
        then ''Content-Length: '' @ nat_string (length (hp_resp_body r)) @ CRLF else [])
     @ CRLF @ hp_resp_body r"

definition error_response :: "int \<Rightarrow> string \<Rightarrow> HTTPResponse" where
  "error_response code message = \<lparr>hp_status_code = code, hp_status_message = message,
     hp_resp_headers = [(''Content-Type'', ''text/plain'')], hp_resp_body = message @ [CHR 0x0A]\<rparr>"

definition forbidden_response :: "(json \<Rightarrow> string) \<Rightarrow> string \<Rightarrow> HTTPResponse" where
  "forbidden_response dump reason = \<lparr>hp_status_code = 403, hp_status_message = ''Forbidden'',
     hp_resp_headers = [(''Content-Type'', ''application/json'')],
     hp_resp_body = dump (jset ''error'' (jset ''reason'' (J_str reason) (jset ''message'' (J_str ''Forbidden'')
       (jset ''code'' (J_int 403) J_null))) J_null) @ [CHR 0x0A]\<rparr>"

definition health_response :: "string \<Rightarrow> int \<Rightarrow> HTTPResponse" where
  "health_response health_json status_code = \<lparr>hp_status_code = status_code,
     hp_status_message = (if status_code = 200 then ''OK'' else ''Service Unavailable''),
     hp_resp_headers = [(''Content-Type'', ''application/json''), (''Content-Length'', nat_string (length health_json))],
     hp_resp_body = health_json\<rparr>"

section \<open>Parsing\<close>

definition parse_header :: "(string, string) umap \<times> string \<Rightarrow> string \<Rightarrow> (string, string) umap \<times> string" where
  "parse_header hh line = (case split_header line of
     None \<Rightarrow> hh
   | Some (n, v) \<Rightarrow> (AList.update (to_lower n) v (fst hh), if to_lower n = ''host'' then v else snd hh))"

definition parse_request :: "string \<Rightarrow> HTTPRequest option" where
  "parse_request buffer = (case getline (CHR 0x0A) buffer of
     None \<Rightarrow> None
   | Some (line, s1) \<Rightarrow>
     let (rmethod, r1) = read_word (pop_cr line); (rpath, r2) = read_word r1; (rversion, r3) = read_word r2;
         (lines, body) = header_lines s1;
         (headers, host) = foldl parse_header ([], '''') lines
     in Some \<lparr>hp_method = rmethod, hp_path = rpath, hp_version = rversion, hp_host = host,
          hp_client_ip = '''', hp_headers = headers, hp_body = body\<rparr>)"

section \<open>Routing\<close>

datatype hp_action =
  Hp_respond nat string bool
| Hp_ip_blocked string string
| Hp_log string int nat

record HTTPProxy =
  hp_tunnels :: "(string, Tunnel) Cache"
  hp_agents :: "AgentConnection list"
  hp_registry :: AgentRegistry
  hp_waiting :: "(nat \<times> nat, nat \<times> string) umap"
  hp_actions :: "hp_action list"

definition HTTPProxy_new :: "(string, Tunnel) Cache \<Rightarrow> AgentRegistry \<Rightarrow> AgentConnection list \<Rightarrow> HTTPProxy" where
  "HTTPProxy_new tunnels registry conns = \<lparr>hp_tunnels = tunnels, hp_agents = conns, hp_registry = registry,
     hp_waiting = [], hp_actions = []\<rparr>"

definition hp_act :: "hp_action \<Rightarrow> HTTPProxy \<Rightarrow> HTTPProxy" where
  "hp_act a p = p\<lparr>hp_actions := hp_actions p @ [a]\<rparr>"

text \<open>The last live tunnel that is the host or its first labels wins, in the order of the walk.\<close>

definition match_step :: "string \<Rightarrow> string \<Rightarrow> string \<Rightarrow> Tunnel \<Rightarrow> string" where
  "match_step hostname matched tid t =
    (if starts_with (tid @ ''.'') hostname then tid else if tid = hostname then tid else matched)"

definition match_tunnel :: "int \<Rightarrow> string list \<Rightarrow> string \<Rightarrow> (string, Tunnel) Cache \<Rightarrow> string" where
  "match_tunnel now ord hostname tunnels = Cache_for_each now ord (match_step hostname) tunnels ''''"

definition log_request :: "string \<Rightarrow> int \<Rightarrow> nat \<Rightarrow> HTTPProxy \<Rightarrow> HTTPProxy" where
  "log_request tid code bytes p = hp_act (Hp_log tid code bytes) p"

definition respond_error :: "nat \<Rightarrow> int \<Rightarrow> string \<Rightarrow> HTTPProxy \<Rightarrow> HTTPProxy" where
  "respond_error cb code message p =
     hp_act (Hp_respond cb (HTTPResponse_to_string (hp_resp_headers (error_response code message))
       (error_response code message)) False) p"

text \<open>The callback that \<open>route_to_agent\<close> gives to the agent.\<close>

definition on_agent_response :: "nat \<Rightarrow> string \<Rightarrow> string \<Rightarrow> bool \<Rightarrow> HTTPProxy \<Rightarrow> HTTPProxy" where
  "on_agent_response cb tid response err p =
    (if err then log_request tid 502 0 (respond_error cb 502 ''Bad Gateway'' p)
     else log_request tid 200 (length response) (hp_act (Hp_respond cb response False) p))"

text \<open>Runs an operation of agent \<open>h\<close> and the callbacks of the proxy that it invokes.\<close>

definition hp_run_agent :: "nat \<Rightarrow> (AgentConnection \<Rightarrow> AgentConnection) \<Rightarrow> HTTPProxy \<Rightarrow> HTTPProxy" where
  "hp_run_agent h f p =
    (let c = hp_agents p ! h; c' = f c
     in foldl (\<lambda>p a. case a of
          Ac_callback n response err \<Rightarrow>
            (case map_of (hp_waiting p) (h, n) of
               None \<Rightarrow> p | Some (cb, tid) \<Rightarrow> on_agent_response cb tid response err p)
        | _ \<Rightarrow> p) (p\<lparr>hp_agents := (hp_agents p)[h := c']\<rparr>) (drop (length (ac_actions c)) (ac_actions c')))"

text \<open>The id of a request is the wall clock in seconds; the timeout is the default of 30 minutes.\<close>

definition request_id :: "nat \<Rightarrow> string" where
  "request_id time = ''req_'' @ nat_string time"

definition route_to_agent ::
  "nat \<Rightarrow> int \<Rightarrow> int \<Rightarrow> (string \<times> string) list \<Rightarrow> nat \<Rightarrow> string \<Rightarrow> HTTPRequest \<Rightarrow> HTTPProxy \<Rightarrow> HTTPProxy" where
  "route_to_agent time stream_id rv walk cb tid r p =
    (if \<not> is_connected (hp_agents p) tid (hp_registry p)
     then log_request tid 503 0 (respond_error cb 503 ''Agent not connected'' p)
     else case get_agent tid (hp_registry p) of
       None \<Rightarrow> respond_error cb 500 ''Agent connection error'' p
     | Some h \<Rightarrow>
       hp_run_agent h (send_http_request stream_id rv (request_id time) (HTTPRequest_to_string walk r) 1800)
         (p\<lparr>hp_waiting := AList.update (h, ac_next_callback (hp_agents p ! h)) (cb, tid) (hp_waiting p)\<rparr>))"

text \<open>\<open>now\<close> is the time of the walk over the tunnels, \<open>now'\<close> that of the lookup after it.\<close>

definition hp_handle_request ::
  "int \<Rightarrow> string list \<Rightarrow> int \<Rightarrow> inet \<Rightarrow> (json \<Rightarrow> string) \<Rightarrow> string \<times> int \<Rightarrow> nat \<Rightarrow> int \<Rightarrow> int
   \<Rightarrow> (string \<times> string) list \<Rightarrow> nat \<Rightarrow> HTTPRequest \<Rightarrow> HTTPProxy \<Rightarrow> HTTPProxy" where
  "hp_handle_request now ord now' n dump health time stream_id rv walk cb r p =
    (if hp_path r = ''/health'' then
       let resp = health_response (fst health) (snd health)
       in hp_act (Hp_respond cb (HTTPResponse_to_string (hp_resp_headers resp) resp) False) p
     else let tid = match_tunnel now ord (hp_host r) (hp_tunnels p)
       in if tid = '''' then respond_error cb 404 ''Tunnel not found'' p
          else case Cache_get now' tid (hp_tunnels p) of
            None \<Rightarrow> respond_error cb 500 ''Tunnel configuration error'' p
          | Some t \<Rightarrow>
            if \<not> validate_ip_allowlist n t (hp_client_ip r) then
              let resp = forbidden_response dump ''IP address not allowed''
              in log_request tid 403 0 (hp_act (Hp_respond cb (HTTPResponse_to_string (hp_resp_headers resp) resp) False)
                   (hp_act (Hp_ip_blocked tid (hp_client_ip r)) p))
            else route_to_agent time stream_id rv walk cb tid r p)"

section \<open>Which tunnel a host belongs to\<close>

definition host_matches :: "string \<Rightarrow> string \<Rightarrow> bool" where
  "host_matches hostname tid \<longleftrightarrow> tid = hostname \<or> (\<exists>rest. hostname = tid @ ''.'' @ rest)"

definition live_matches :: "int \<Rightarrow> string \<Rightarrow> (string, Tunnel) Cache \<Rightarrow> string set" where
  "live_matches now hostname c = {tid. host_matches hostname tid \<and> Cache_get now tid c \<noteq> None}"

lemma match_step_eq: "match_step hostname m tid t = (if host_matches hostname tid then tid else m)"
  by (auto simp: match_step_def host_matches_def starts_with_iff)

lemma fold_match:
  "foldl (\<lambda>m (tid, t). match_step hostname m tid t) m0 kvs
    = last (m0 # filter (host_matches hostname) (map fst kvs))"
  by (induction kvs arbitrary: m0) (auto simp: match_step_eq)

lemma Cache_live_keys: "map fst (Cache_live now ord c) = filter (\<lambda>k. Cache_get now k c \<noteq> None) ord"
  by (induction ord) (auto simp: Cache_live_def split: option.splits)

lemma match_tunnel_last:
  "match_tunnel now ord hostname c
    = last ('''' # filter (\<lambda>k. host_matches hostname k \<and> Cache_get now k c \<noteq> None) ord)"
  unfolding match_tunnel_def Cache_for_each_def fold_match Cache_live_keys filter_filter
  by (simp only: conj_commute)

lemma match_tunnel_live:
  "match_tunnel now ord hostname c \<noteq> '''' \<Longrightarrow> match_tunnel now ord hostname c \<in> live_matches now hostname c"
proof -
  let ?f = "filter (\<lambda>k. host_matches hostname k \<and> Cache_get now k c \<noteq> None) ord"
  assume "match_tunnel now ord hostname c \<noteq> ''''"
  then have "?f \<noteq> []" "match_tunnel now ord hostname c = last ?f"
    by (auto simp: match_tunnel_last split: if_splits)
  then have "match_tunnel now ord hostname c \<in> set ?f" by (metis last_in_set)
  then show ?thesis by (simp add: live_matches_def)
qed

lemma walk_of_exists_last:
  assumes "Cache_wf c" "k \<in> keys_of (cache c)"
  shows "\<exists>ord. walk_of (ord @ [k]) c"
proof -
  let ?o = "filter (\<lambda>x. x \<noteq> k) (map fst (cache c))"
  have "walk_of (?o @ [k]) c" using assms by (auto simp: walk_of_def Cache_wf_def umap_wf_def)
  then show ?thesis by blast
qed

lemma live_matches_keys: "tid \<in> live_matches now hostname c \<Longrightarrow> tid \<in> keys_of (cache c)"
  by (auto simp: live_matches_def Cache_get_def keys_lookup split: option.splits)

lemma match_tunnel_empty:
  assumes "walk_of ord c" "Cache_get now '''' c = None"
  shows "match_tunnel now ord hostname c = '''' \<longleftrightarrow> live_matches now hostname c = {}"
proof -
  define P where "P = (\<lambda>k. host_matches hostname k \<and> Cache_get now k c \<noteq> None)"
  have M: "live_matches now hostname c = {k. P k}" by (simp only: live_matches_def P_def)
  have "set ord = keys_of (cache c)" using assms(1) by (simp add: walk_of_def)
  then have "filter P ord = [] \<longleftrightarrow> {k. P k} = {}"
    using live_matches_keys [of _ now hostname c] unfolding M filter_empty_conv by blast
  moreover have "last (filter P ord) \<noteq> ''''" if "filter P ord \<noteq> []"
  proof
    assume e: "last (filter P ord) = ''''"
    have "P (last (filter P ord))" using last_in_set [OF that] by (simp only: set_filter mem_Collect_eq)
    then show False unfolding e using assms(2) by (simp add: P_def)
  qed
  ultimately show ?thesis unfolding match_tunnel_last M P_def [symmetric] by (auto split: if_splits)
qed

text \<open>
  Which tunnels a host can be routed to: over all orders in which the hash table may be walked,
  exactly the live tunnels that are the host itself or a prefix of it that ends at a dot. Where two
  tunnels match (\<open>api\<close> and \<open>api.eu\<close>), the choice between them is that of the hash table, not the
  longer name.
\<close>

theorem match_tunnel_range:
  assumes "Cache_wf c" "Cache_get now '''' c = None"
  shows "{match_tunnel now ord hostname c |ord. walk_of ord c}
    = (if live_matches now hostname c = {} then {''''} else live_matches now hostname c)"
proof -
  let ?M = "live_matches now hostname c" and ?m = "\<lambda>ord. match_tunnel now ord hostname c"
  note empty = match_tunnel_empty [OF _ assms(2)]
  have "\<exists>ord. walk_of ord c \<and> ?m ord = tid" if "tid \<in> ?M" for tid
  proof -
    have "tid \<in> keys_of (cache c)" using that by (rule live_matches_keys)
    then obtain ord where "walk_of (ord @ [tid]) c"
      using walk_of_exists_last [OF assms(1)] by blast
    moreover have "?m (ord @ [tid]) = tid" using that by (simp add: match_tunnel_last live_matches_def)
    ultimately show ?thesis by blast
  qed
  moreover have "\<exists>ord. walk_of ord c"
    using assms(1) by (intro exI [of _ "map fst (cache c)"]) (simp add: walk_of_def Cache_wf_def umap_wf_def)
  ultimately obtain ord0 where some: "\<forall>tid \<in> ?M. \<exists>ord. walk_of ord c \<and> ?m ord = tid" "walk_of ord0 c"
    by blast
  show ?thesis
  proof (cases "?M = {}")
    case True
    then have "\<forall>ord. walk_of ord c \<longrightarrow> ?m ord = ''''" using empty by blast
    with True some(2) show ?thesis by (auto intro!: exI [of _ ord0])
  next
    case False
    then have "\<forall>ord. walk_of ord c \<longrightarrow> ?m ord \<in> ?M" using empty match_tunnel_live by blast
    with False some(1) show ?thesis by auto
  qed
qed

section \<open>Requests reach the right agent\<close>

definition answers :: "nat \<Rightarrow> HTTPProxy \<Rightarrow> string list" where
  "answers cb p = concat (map (\<lambda>a. case a of Hp_respond c text _ \<Rightarrow> if c = cb then [text] else []
     | _ \<Rightarrow> []) (hp_actions p))"

lemma hp_act_simps [simp]:
  "hp_agents (hp_act a p) = hp_agents p" "hp_waiting (hp_act a p) = hp_waiting p"
  "hp_registry (hp_act a p) = hp_registry p" "hp_tunnels (hp_act a p) = hp_tunnels p"
  "hp_actions (hp_act a p) = hp_actions p @ [a]"
  by (simp_all add: hp_act_def)

lemma answers_act [simp]:
  "answers cb (hp_act a p) = answers cb p
    @ (case a of Hp_respond c text _ \<Rightarrow> if c = cb then [text] else [] | _ \<Rightarrow> [])"
  by (simp add: answers_def)

lemma respond_error_simps [simp]:
  "hp_agents (respond_error cb code m p) = hp_agents p" "hp_waiting (respond_error cb code m p) = hp_waiting p"
  "hp_agents (log_request tid code' b p) = hp_agents p" "hp_waiting (log_request tid code' b p) = hp_waiting p"
  "answers cb' (log_request tid code' b p) = answers cb' p"
  by (simp_all add: respond_error_def log_request_def)

lemma on_agent_response_simps [simp]:
  "hp_agents (on_agent_response cb tid resp err p) = hp_agents p"
  "hp_waiting (on_agent_response cb tid resp err p) = hp_waiting p"
  by (simp_all add: on_agent_response_def)

definition agent_callback :: "nat \<Rightarrow> HTTPProxy \<Rightarrow> ac_action \<Rightarrow> HTTPProxy" where
  "agent_callback h p a = (case a of
     Ac_callback m response err \<Rightarrow> (case map_of (hp_waiting p) (h, m) of
        None \<Rightarrow> p | Some (cb, tid) \<Rightarrow> on_agent_response cb tid response err p)
   | _ \<Rightarrow> p)"

lemma hp_run_agent_callbacks:
  "hp_run_agent h f p = foldl (agent_callback h) (p\<lparr>hp_agents := (hp_agents p)[h := f (hp_agents p ! h)]\<rparr>)
    (drop (length (ac_actions (hp_agents p ! h))) (ac_actions (f (hp_agents p ! h))))"
  unfolding hp_run_agent_def Let_def agent_callback_def by (rule refl)

lemma agent_callback_simps [simp]:
  "hp_agents (agent_callback h p a) = hp_agents p" "hp_waiting (agent_callback h p a) = hp_waiting p"
  by (auto simp: agent_callback_def split: ac_action.splits option.splits)

lemma agent_callbacks_simps [simp]:
  "hp_agents (foldl (agent_callback h) p as) = hp_agents p"
  "hp_waiting (foldl (agent_callback h) p as) = hp_waiting p"
  by (induction as arbitrary: p) simp_all

lemma hp_run_agent_agents [simp]:
  "hp_agents (hp_run_agent h f p) = (hp_agents p)[h := f (hp_agents p ! h)]"
  "hp_waiting (hp_run_agent h f p) = hp_waiting p"
  by (simp_all add: hp_run_agent_callbacks)

lemma route_to_agent_agents:
  assumes "hp_agents (route_to_agent time sid rv walk cb tid r p) \<noteq> hp_agents p"
  shows "\<exists>h. get_agent tid (hp_registry p) = Some h \<and> ac_state (hp_agents p ! h) = CONNECTED
    \<and> hp_agents (route_to_agent time sid rv walk cb tid r p) = (hp_agents p)
        [h := send_http_request sid rv (request_id time) (HTTPRequest_to_string walk r) 1800 (hp_agents p ! h)]"
  using assms by (auto simp: route_to_agent_def is_connected_def split: option.splits if_splits)

text \<open>
  C5. A request reaches only the agent of a tunnel that the host names, whose configuration is live at
  the time of the lookup, whose allowlist admits the address of the client, and whose agent is
  registered and connected; no other agent is touched.
\<close>

theorem request_isolation:
  assumes "q = hp_handle_request now ord now' n dump health time sid rv walk cb r p"
    and "hp_agents q \<noteq> hp_agents p"
  shows "hp_path r \<noteq> ''/health'' \<and> (\<exists>tid t h. host_matches (hp_host r) tid
    \<and> Cache_get now' tid (hp_tunnels p) = Some t \<and> validate_ip_allowlist n t (hp_client_ip r)
    \<and> get_agent tid (hp_registry p) = Some h \<and> ac_state (hp_agents p ! h) = CONNECTED
    \<and> hp_agents q = (hp_agents p)
        [h := send_http_request sid rv (request_id time) (HTTPRequest_to_string walk r) 1800 (hp_agents p ! h)])"
proof -
  let ?tid = "match_tunnel now ord (hp_host r) (hp_tunnels p)"
  note q = assms [unfolded hp_handle_request_def Let_def]
  have path: "hp_path r \<noteq> ''/health''" using q by auto
  have tid: "?tid \<noteq> ''''" using q path by auto
  obtain t where t: "Cache_get now' ?tid (hp_tunnels p) = Some t"
    using q path tid by (auto split: option.splits)
  have ok: "validate_ip_allowlist n t (hp_client_ip r)" using q path tid t by (auto split: if_splits)
  have "q = route_to_agent time sid rv walk cb ?tid r p" using q(1) path tid t ok by simp
  from route_to_agent_agents [OF assms(2) [unfolded this]] this
  obtain h where "get_agent ?tid (hp_registry p) = Some h" "ac_state (hp_agents p ! h) = CONNECTED"
    "hp_agents q = (hp_agents p)
        [h := send_http_request sid rv (request_id time) (HTTPRequest_to_string walk r) 1800 (hp_agents p ! h)]"
    by blast
  moreover have "host_matches (hp_host r) ?tid" using match_tunnel_live [OF tid] by (simp add: live_matches_def)
  ultimately show ?thesis using path t ok by blast
qed

section \<open>The text handed to the agent\<close>

lemma parse_header_ok:
  assumes "CHR 0x0A \<notin> set line" "\<forall>h \<in> set (fst hh). header_ok h \<and> to_lower (fst h) = fst h" "umap_wf (fst hh)"
    and "snd hh = (case map_of (fst hh) ''host'' of None \<Rightarrow> '''' | Some v \<Rightarrow> v)"
  shows "(\<forall>h \<in> set (fst (parse_header hh line)). header_ok h \<and> to_lower (fst h) = fst h)
    \<and> umap_wf (fst (parse_header hh line))
    \<and> snd (parse_header hh line) = (case map_of (fst (parse_header hh line)) ''host'' of None \<Rightarrow> '''' | Some v \<Rightarrow> v)"
proof (cases "split_header line")
  case None
  then show ?thesis using assms by (simp add: parse_header_def)
next
  case (Some nv)
  obtain n v where nv: "nv = (n, v)" by (cases nv)
  have "header_ok (to_lower n, v)" using Some assms(1) by (simp add: nv split_header_ok)
  moreover have "set (AList.update k x m) \<subseteq> insert (k, x) (set m)" for k m and x :: string
    by (induction m) auto
  ultimately have "\<forall>h \<in> set (AList.update (to_lower n) v (fst hh)). header_ok h \<and> to_lower (fst h) = fst h"
    using assms(2) by fastforce
  then show ?thesis using assms(3,4) Some by (simp add: parse_header_def nv map_simps)
qed

lemma parse_headers_ok:
  assumes "\<forall>l \<in> set ls. CHR 0x0A \<notin> set l" "\<forall>h \<in> set (fst hh). header_ok h \<and> to_lower (fst h) = fst h"
    and "umap_wf (fst hh)" "snd hh = (case map_of (fst hh) ''host'' of None \<Rightarrow> '''' | Some v \<Rightarrow> v)"
    and "hh' = foldl parse_header hh ls"
  shows "(\<forall>h \<in> set (fst hh'). header_ok h \<and> to_lower (fst h) = fst h) \<and> umap_wf (fst hh')
    \<and> snd hh' = (case map_of (fst hh') ''host'' of None \<Rightarrow> '''' | Some v \<Rightarrow> v)"
  using assms
proof (induction ls arbitrary: hh)
  case (Cons l ls)
  have "CHR 0x0A \<notin> set l" using Cons.prems(1) by simp
  from parse_header_ok [OF this Cons.prems(2-4)] show ?case
    using Cons.prems(1,5) by (intro Cons.IH [of "parse_header hh l"]) simp_all
qed simp

definition word_text :: "string \<Rightarrow> bool" where
  "word_text w \<longleftrightarrow> (\<forall>c \<in> set w. \<not> is_space c)"

lemma parse_request_parts:
  assumes "parse_request buf = Some r"
  shows "word_text (hp_method r) \<and> word_text (hp_path r) \<and> word_text (hp_version r)
    \<and> (hp_method r = '''' \<longrightarrow> hp_path r = '''') \<and> (hp_path r = '''' \<longrightarrow> hp_version r = '''')
    \<and> (\<forall>h \<in> set (hp_headers r). header_ok h \<and> to_lower (fst h) = fst h) \<and> umap_wf (hp_headers r)
    \<and> hp_host r = (case map_of (hp_headers r) ''host'' of None \<Rightarrow> '''' | Some v \<Rightarrow> v)"
proof -
  obtain line s1 where g: "getline (CHR 0x0A) buf = Some (line, s1)"
    using assms by (auto simp: parse_request_def split: option.splits)
  obtain m r1 where m: "read_word (pop_cr line) = (m, r1)" by (cases "read_word (pop_cr line)")
  obtain pa r2 where p: "read_word r1 = (pa, r2)" by (cases "read_word r1")
  obtain ve r3 where v: "read_word r2 = (ve, r3)" by (cases "read_word r2")
  obtain ls body where l: "header_lines s1 = (ls, body)" by (cases "header_lines s1")
  obtain hs host where h: "foldl parse_header ([], '''') ls = (hs, host)"
    by (cases "foldl parse_header ([], '''') ls")
  have r: "hp_method r = m" "hp_path r = pa" "hp_version r = ve" "hp_headers r = hs" "hp_host r = host"
    using assms by (auto simp: parse_request_def g m p v l h)
  have "\<forall>l \<in> set ls. CHR 0x0A \<notin> set l" using header_lines_no_newline [of _ s1] l by auto
  from parse_headers_ok [OF this, of "([], '''')" "(hs, host)"] h
  have H: "(\<forall>h \<in> set hs. header_ok h \<and> to_lower (fst h) = fst h) \<and> umap_wf hs
      \<and> host = (case map_of hs ''host'' of None \<Rightarrow> '''' | Some v \<Rightarrow> v)" by simp
  have e: "read_word [] = ([], [])" by (simp add: read_word_def)
  have "m = '''' \<longrightarrow> pa = ''''" using read_word_result [OF m] p e by auto
  moreover have "pa = '''' \<longrightarrow> ve = ''''" using read_word_result [OF p] v e by auto
  ultimately show ?thesis
    using H read_word_result [OF m] read_word_result [OF p] read_word_result [OF v]
    unfolding r word_text_def by simp
qed

lemma read_word_blank: "word_text w \<Longrightarrow> w = '''' \<longrightarrow> list_all is_space s \<Longrightarrow> s = [] \<or> is_space (hd s)
    \<Longrightarrow> read_word (w @ s) = (w, if w = '''' then '''' else s)"
proof (cases "w = ''''")
  case True
  moreover assume "w = '''' \<longrightarrow> list_all is_space s"
  ultimately have "\<forall>c \<in> set s. is_space c" by (simp add: list_all_iff)
  then have "dropWhile is_space s = []" by (simp add: dropWhile_eq_Nil_conv)
  then have "read_word s = ('''', '''')" by (simp add: read_word_def Let_def del: dropWhile_eq_Nil_conv)
  then show ?thesis using True by simp
next
  case False
  moreover assume "word_text w" "s = [] \<or> is_space (hd s)"
  ultimately show ?thesis by (simp add: word_text_def read_word_append)
qed

lemma add_header_line:
  "header_ok h \<Longrightarrow> to_lower (fst h) = fst h \<Longrightarrow> add_header (header_line h) m = AList.update (fst h) (snd h) m"
  by (cases h) (simp add: add_header_def split_header_line)

lemma fold_update_lookup:
  "map_of (foldl (\<lambda>m h. AList.update (fst h) (snd h) m) m0 hs) k
    = (case map_of (rev hs) k of None \<Rightarrow> map_of m0 k | Some v \<Rightarrow> Some v)"
  by (induction hs arbitrary: m0) (auto simp: map_simps map_add_def split: option.splits)

lemma fold_add_headers:
  "\<forall>h \<in> set hs. header_ok h \<and> to_lower (fst h) = fst h \<Longrightarrow>
    foldl (\<lambda>m l. add_header l m) m0 (map header_line hs) = foldl (\<lambda>m h. AList.update (fst h) (snd h) m) m0 hs"
  by (induction hs arbitrary: m0) (simp_all add: add_header_line)

lemma parse_request_text_written:
  assumes "word_text m" "word_text pa" "word_text ve" "m = '''' \<longrightarrow> pa = ''''" "pa = '''' \<longrightarrow> ve = ''''"
    and "\<forall>h \<in> set hs. header_ok h \<and> to_lower (fst h) = fst h"
  shows "parse_request_text (m @ '' '' @ pa @ '' '' @ ve @ CRLF @ header_text hs @ CRLF @ body)
    = (m, pa, foldl (\<lambda>m h. AList.update (fst h) (snd h) m) [] hs, body)"
proof -
  let ?l2 = "'' '' @ ve @ [CHR 0x0D]" and ?t = "header_text hs @ CRLF @ body"
  let ?l1 = "'' '' @ pa @ ?l2"
  have sp: "is_space (CHR '' '')" "is_space (CHR 0x0D)" "is_space (CHR 0x0A)" by (simp_all add: is_space_def)
  have nl: "CHR 0x0A \<notin> set w" if "word_text w" for w
    using that sp(3) unfolding word_text_def by blast
  have "CHR 0x0A \<notin> set (m @ ?l1)" using nl [OF assms(1)] nl [OF assms(2)] nl [OF assms(3)] by simp
  then have g: "getline (CHR 0x0A) ((m @ ?l1) @ CHR 0x0A # ?t) = Some (m @ ?l1, ?t)"
    by (rule getline_append)
  have "m = '''' \<longrightarrow> list_all is_space ?l1" using assms(4,5) by (simp add: sp)
  then have r1: "read_word (m @ ?l1) = (m, if m = '''' then '''' else ?l1)"
    using assms(1) by (intro read_word_blank) (simp_all only: append_Cons append_Nil list.sel sp simp_thms)
  have "pa = '''' \<longrightarrow> list_all is_space ?l2" using assms(5) by (simp add: sp)
  then have r2: "read_word (pa @ ?l2) = (pa, if pa = '''' then '''' else ?l2)"
    using assms(2) by (intro read_word_blank) (simp_all only: append_Cons append_Nil list.sel sp simp_thms)
  have r3: "read_word (if m = '''' then '''' else ?l1) = (pa, if pa = '''' then '''' else ?l2)"
  proof (cases "m = ''''")
    case True
    then show ?thesis using assms(4) by (simp add: read_word_def)
  next
    case False
    moreover have "read_word ?l1 = read_word (pa @ ?l2)"
      unfolding append_Cons append_Nil by (rule read_word_space [OF sp(1)])
    ultimately show ?thesis using r2 by (simp only: if_False)
  qed
  have hl: "header_lines ?t = (map header_line hs, body)"
    using assms(6) by (intro header_lines_written) simp
  have e: "m @ '' '' @ pa @ '' '' @ ve @ CRLF @ ?t = (m @ ?l1) @ CHR 0x0A # ?t" by simp
  show ?thesis unfolding parse_request_text_def e g option.case Let_def prod.case r1 r3 hl
    by (simp only: fold_add_headers [OF assms(6)])
qed

lemma fold_update_wf: "umap_wf m0 \<Longrightarrow> umap_wf (foldl (\<lambda>m h. AList.update (fst h) (snd h) m) m0 hs)"
  by (induction hs arbitrary: m0) simp_all

lemma same_headers:
  assumes "mset walk = mset hs" "umap_wf hs" "hs' = foldl (\<lambda>m h. AList.update (fst h) (snd h) m) [] walk"
  shows "map_of hs' = map_of hs \<and> sort_key fst hs' = sort_key fst hs"
proof -
  have wf: "umap_wf hs'" unfolding assms(3)
    by (rule fold_update_wf) simp
  have "mset (map fst walk) = mset (map fst hs)" using assms(1) by (simp only: mset_map)
  then have "distinct (map fst walk)"
    using assms(2) mset_eq_imp_distinct_iff unfolding umap_wf_def by blast
  then have d: "distinct (map fst (rev walk))" by (simp add: rev_map [symmetric])
  have "set (rev walk) = set hs" using assms(1) by (metis set_mset_mset set_rev)
  then have "map_of (rev walk) = map_of hs" using d assms(2) by (simp add: map_of_inject_set umap_wf_def)
  then have m: "map_of hs' = map_of hs"
    unfolding assms(3) fun_eq_iff fold_update_lookup by (auto split: option.splits)
  then have s: "set hs' = set hs" using wf assms(2) by (simp add: map_of_inject_set umap_wf_def)
  moreover have "inj_on fst (set hs)" using assms(2) by (simp add: umap_wf_def distinct_map)
  ultimately have "sort_key fst hs' = sort_key fst hs"
    using wf assms(2) by (intro map_sorted_distinct_set_unique [where f = fst])
      (simp_all add: umap_wf_def distinct_map distinct_sort)
  with m show ?thesis by simp
qed

text \<open>
  The request that the proxy writes out for an agent, in whatever order the header map is walked, is
  read by the agent connection as the request that was parsed from the client: the same method, path
  and body, and the same fields for HTTP/2, names in lower case. A request line with fewer than
  three words and headers without a value are no exception.
\<close>

theorem forwarded_request_text:
  assumes "parse_request buf = Some r" "mset walk = mset (hp_headers r)"
  shows "\<exists>hs. parse_request_text (HTTPRequest_to_string walk r) = (hp_method r, hp_path r, hs, hp_body r)
    \<and> map_of hs = map_of (hp_headers r)
    \<and> header_pairs rid (hp_method r) (hp_path r) hs = header_pairs rid (hp_method r) (hp_path r) (hp_headers r)"
proof -
  note r = parse_request_parts [OF assms(1)]
  have "set walk = set (hp_headers r)" using assms(2) by (metis set_mset_mset)
  then have "\<forall>h \<in> set walk. header_ok h \<and> to_lower (fst h) = fst h" using r by simp
  then have "parse_request_text (HTTPRequest_to_string walk r)
      = (hp_method r, hp_path r, foldl (\<lambda>m h. AList.update (fst h) (snd h) m) [] walk, hp_body r)"
    unfolding HTTPRequest_to_string_def using r by (intro parse_request_text_written) simp_all
  moreover have "map_of (foldl (\<lambda>m h. AList.update (fst h) (snd h) m) [] walk) = map_of (hp_headers r)"
    and "sort_key fst (foldl (\<lambda>m h. AList.update (fst h) (snd h) m) [] walk) = sort_key fst (hp_headers r)"
    using same_headers [OF assms(2) _ refl] r by blast+
  ultimately show ?thesis by (simp add: header_pairs_def)
qed

section \<open>Every request is answered\<close>

lemma on_agent_response_answers:
  "answers cb' (on_agent_response cb tid response err p) = answers cb' p @ (if cb' = cb
     then [if err then HTTPResponse_to_string (hp_resp_headers (error_response 502 ''Bad Gateway''))
             (error_response 502 ''Bad Gateway'') else response] else [])"
  by (simp add: on_agent_response_def respond_error_def)

definition new_calls :: "ac_action list \<Rightarrow> nat list" where
  "new_calls as = concat (map (\<lambda>a. case a of Ac_callback m r e \<Rightarrow> [m] | _ \<Rightarrow> []) as)"

lemma called_new: "ac_actions s' = ac_actions s @ new \<Longrightarrow> called s' = called s @ new_calls new"
  by (simp add: called_def new_calls_def)

lemma agent_callbacks_answers:
  assumes "\<forall>k. (\<exists>tid. map_of (hp_waiting p) (h, k) = Some (cb, tid)) \<longleftrightarrow> k = m"
  shows "length (answers cb (foldl (agent_callback h) p as)) = length (answers cb p) + count_list (new_calls as) m"
  using assms
proof (induction as arbitrary: p)
  case (Cons a as)
  have "length (answers cb (agent_callback h p a)) = length (answers cb p) + count_list (new_calls [a]) m"
  proof (cases a)
    case (Ac_callback k response err)
    then show ?thesis using Cons.prems [rule_format, of k]
      by (auto simp: agent_callback_def new_calls_def on_agent_response_answers split: option.splits)
  qed (simp_all add: agent_callback_def new_calls_def)
  moreover have "count_list (new_calls (a # as)) m = count_list (new_calls [a]) m + count_list (new_calls as) m"
    by (simp add: new_calls_def)
  ultimately show ?case using Cons.IH [of "agent_callback h p a"] Cons.prems by simp
qed (simp add: new_calls_def)

lemma new_calls_none: "new_calls as = [] \<Longrightarrow> foldl (agent_callback h) p as = p"
proof (induction as arbitrary: p)
  case (Cons a as)
  then show ?case by (cases a) (auto simp: new_calls_def agent_callback_def)
qed simp

lemma ac_close_actions: "\<exists>new. ac_actions (ac_close s) = ac_actions s @ new"
  by (simp add: ac_close_def handle_disconnect_def Let_def ac_act_def)

lemma send_pending_actions: "\<exists>new. ac_actions (send_pending_data rv s) = ac_actions s @ new"
  using ac_close_actions [of "ac_act Ac_session_send s"]
  by (auto simp: send_pending_data_def Let_def ac_act_def)

lemma send_request_actions: "\<exists>new. ac_actions (send_http_request i rv rid req timeout s) = ac_actions s @ new"
proof -
  obtain m path headers body where p: "parse_request_text req = (m, path, headers, body)"
    by (cases "parse_request_text req") auto
  let ?s = "s\<lparr>ac_next_callback := Suc (ac_next_callback s)\<rparr>"
  let ?s1 = "ac_act (Ac_submit_headers (header_pairs rid m path headers) (body = [])) ?s"
  let ?s2 = "if body \<noteq> [] then ac_act (Ac_submit_data i body)
       (?s1\<lparr>ac_stream_bodies := AList.update rid body (ac_stream_bodies ?s1)\<rparr>)
     else ac_act (Ac_submit_headers [] True) ?s1"
  let ?s3 = "?s2\<lparr>ac_pending_requests := AList.update rid (ac_next_callback s) (ac_pending_requests ?s2),
                 ac_stream_to_request := AList.update i rid (ac_stream_to_request ?s2)\<rparr>"
  have "\<exists>new. ac_actions ?s3 = ac_actions s @ new" by (simp add: ac_act_def)
  then have "\<exists>new. ac_actions (ac_act (Ac_arm_timeout rid i timeout) (send_pending_data rv ?s3)) = ac_actions s @ new"
    using send_pending_actions [of rv ?s3] by (auto simp: ac_act_def)
  then show ?thesis by (simp add: send_http_request_def p Let_def) (simp add: ac_act_def)
qed

lemma send_request_next [simp]:
  "ac_next_callback (send_http_request i rv rid req timeout s) = Suc (ac_next_callback s)"
proof -
  obtain m path headers body where "parse_request_text req = (m, path, headers, body)"
    by (cases "parse_request_text req") auto
  then show ?thesis
    by (simp add: send_http_request_def Let_def send_pending_data_def ac_close_def handle_disconnect_def)
qed

text \<open>The number of a new request is either called at once or pending, and not twice.\<close>

lemma send_request_accounted:
  assumes "ac_inv f s"
  shows "ac_next_callback s \<in># accounted (send_http_request i rv rid req timeout s)"
proof -
  obtain m path headers body where p: "parse_request_text req = (m, path, headers, body)"
    by (cases "parse_request_text req") auto
  let ?s = "s\<lparr>ac_next_callback := Suc (ac_next_callback s)\<rparr>"
  let ?s1 = "ac_act (Ac_submit_headers (header_pairs rid m path headers) (body = [])) ?s"
  let ?s2 = "if body \<noteq> [] then ac_act (Ac_submit_data i body)
       (?s1\<lparr>ac_stream_bodies := AList.update rid body (ac_stream_bodies ?s1)\<rparr>)
     else ac_act (Ac_submit_headers [] True) ?s1"
  let ?s3 = "?s2\<lparr>ac_pending_requests := AList.update rid (ac_next_callback s) (ac_pending_requests ?s2),
                 ac_stream_to_request := AList.update i rid (ac_stream_to_request ?s2)\<rparr>"
  show ?thesis
  proof (cases "ac_state s \<noteq> CONNECTED \<or> \<not> ac_session s \<or> i < 0")
    case True
    then have "ac_next_callback s \<in> set (called (send_http_request i rv rid req timeout s))"
      by (auto simp: send_http_request_def p Let_def called_act)
    then show ?thesis by (simp add: accounted_def)
  next
    case False
    have "ac_inv (f \<and> rid \<notin> keys_of (ac_pending_requests s)) ?s3"
      using False by (intro ac_inv_register [OF assms]) (auto simp: called_def ac_act_def)
    moreover have "map_of (ac_pending_requests ?s3) rid = Some (ac_next_callback s)" by (simp add: map_simps)
    then have "(rid, ac_next_callback s) \<in> set (ac_pending_requests ?s3)" by (rule map_of_SomeD)
    then have "ac_next_callback s \<in># accounted ?s3" by (force simp: accounted_def)
    moreover have "quiet ?s3 (ac_act (Ac_arm_timeout rid i timeout) (send_pending_data rv ?s3))"
      by (rule quiet_trans [OF quiet_send_pending quiet_act]) simp
    moreover have "send_http_request i rv rid req timeout s
        = ac_act (Ac_arm_timeout rid i timeout) (send_pending_data rv ?s3)"
      using False by (simp add: send_http_request_def p Let_def)
    ultimately show ?thesis by (simp only: ac_inv_def quiet_def)
  qed
qed

lemma send_request_once:
  assumes "ac_inv f s" "s' = send_http_request i rv rid req timeout s" "ac_actions s' = ac_actions s @ new"
  shows "count_list (new_calls new) (ac_next_callback s) = 1
    \<or> (count_list (new_calls new) (ac_next_callback s) = 0
       \<and> ac_next_callback s \<in> snd ` set (ac_pending_requests s'))"
proof -
  let ?m = "ac_next_callback s"
  have next': "ac_next_callback s' = Suc ?m" by (simp add: assms(2))
  have sub: "accounted s' \<subseteq># mset [0..<Suc ?m]"
    using ac_inv_request [OF assms(1), of rid i rv req timeout, folded assms(2)] unfolding ac_inv_def next' by blast
  have c: "accounted s' = mset (called s @ new_calls new) + mset (map snd (ac_pending_requests s'))"
    by (simp add: accounted_def called_new [OF assms(3)])
  have "count (mset (new_calls new)) ?m \<le> count (accounted s') ?m" by (simp add: c)
  also have "\<dots> \<le> count (mset [0..<Suc ?m]) ?m" using sub by (rule mset_subset_eq_count)
  finally have le: "count_list (new_calls new) ?m \<le> 1" by (simp add: count_mset count_list_eq_length_filter)
  have "accounted s \<subseteq># mset [0..<?m]" using assms(1) by (simp add: ac_inv_def)
  then have "?m \<notin> set (called s)" by (auto simp: accounted_def dest!: mset_subset_eqD)
  moreover have "?m \<in># accounted s'" unfolding assms(2) using assms(1) by (rule send_request_accounted)
  ultimately have "?m \<in> set (new_calls new) \<or> ?m \<in> snd ` set (ac_pending_requests s')" by (simp add: c)
  then show ?thesis using le count_list_0_iff [of "new_calls new" ?m] by linarith
qed

definition unanswered :: "nat \<Rightarrow> HTTPProxy \<Rightarrow> bool" where
  "unanswered cb p \<longleftrightarrow> (\<exists>h m tid. map_of (hp_waiting p) (h, m) = Some (cb, tid)
     \<and> m \<in> snd ` set (ac_pending_requests (hp_agents p ! h)))"

text \<open>
  C12. Each request gets an answer once: exactly one text is sent to the client before the handler
  returns, or none and its callback is in the table of the agent it was sent to. This holds whatever
  HTTP/2 reports, whichever branch is taken, and also when the agent is closed during the call.
\<close>

theorem request_answered_once:
  assumes "\<forall>tid h. get_agent tid (hp_registry p) = Some h \<longrightarrow>
      h < length (hp_agents p) \<and> (\<exists>f. ac_reach f (hp_agents p ! h))"
    and "\<forall>k tid. map_of (hp_waiting p) k \<noteq> Some (cb, tid)"
    and "q = hp_handle_request now ord now' n dump health time sid rv walk cb r p"
  shows "length (answers cb q) = Suc (length (answers cb p))
    \<or> (length (answers cb q) = length (answers cb p) \<and> unanswered cb q)"
proof -
  let ?A = "length (answers cb q) = Suc (length (answers cb p))"
  have route: ?thesis if q: "q = route_to_agent time sid rv walk cb tid r p" for tid
  proof (cases "is_connected (hp_agents p) tid (hp_registry p)")
    case False
    then have ?A by (simp add: q route_to_agent_def respond_error_def)
    then show ?thesis ..
  next
    case True
    then obtain h where h: "get_agent tid (hp_registry p) = Some h"
      by (auto simp: is_connected_def split: option.splits)
    then obtain f where lt: "h < length (hp_agents p)" and inv: "ac_inv f (hp_agents p ! h)"
      using assms(1) ac_reach_inv by blast
    let ?s = "hp_agents p ! h" and ?m = "ac_next_callback (hp_agents p ! h)"
    let ?s' = "send_http_request sid rv (request_id time) (HTTPRequest_to_string walk r) 1800 ?s"
    let ?p = "p\<lparr>hp_waiting := AList.update (h, ?m) (cb, tid) (hp_waiting p)\<rparr>"
    let ?p1 = "?p\<lparr>hp_agents := (hp_agents p)[h := ?s']\<rparr>"
    obtain new where new: "ac_actions ?s' = ac_actions ?s @ new" using send_request_actions by blast
    have q': "q = foldl (agent_callback h) ?p1 new"
      using True h new by (simp add: q route_to_agent_def hp_run_agent_callbacks)
    have "\<forall>k. (\<exists>t. map_of (hp_waiting ?p1) (h, k) = Some (cb, t)) \<longleftrightarrow> k = ?m"
      using assms(2) by (auto simp: map_simps)
    then have "length (answers cb q) = length (answers cb p) + count_list (new_calls new) ?m"
      unfolding q' by (subst agent_callbacks_answers) (auto simp: answers_def)
    moreover have "map_of (hp_waiting q) (h, ?m) = Some (cb, tid)" by (simp add: q' map_simps)
    moreover have "hp_agents q ! h = ?s'" using lt by (simp add: q')
    ultimately show ?thesis using send_request_once [OF inv refl new] unfolding unanswered_def
      by (metis add_0_right plus_1_eq_Suc add.commute)
  qed
  show ?thesis
    using assms(3) route by (auto simp: hp_handle_request_def Let_def respond_error_def log_request_def split: if_splits option.splits)
qed

section \<open>Requests of the same second\<close>

lemma send_request_state:
  "ac_state s = CONNECTED \<Longrightarrow> ac_session s \<Longrightarrow>
    ac_state (send_http_request i 0 rid req timeout s) = CONNECTED \<and> ac_session (send_http_request i 0 rid req timeout s)"
proof -
  obtain m path headers body where "parse_request_text req = (m, path, headers, body)"
    by (cases "parse_request_text req") auto
  then show "ac_state s = CONNECTED \<Longrightarrow> ac_session s \<Longrightarrow> ?thesis"
    by (simp add: send_http_request_def Let_def send_pending_data_def)
qed

lemma route_to_agent_sends:
  assumes "get_agent tid (hp_registry p) = Some h" "ac_state (hp_agents p ! h) = CONNECTED"
    and "ac_session (hp_agents p ! h)" "0 \<le> i"
  shows "route_to_agent time i 0 walk cb tid r p = p\<lparr>
      hp_waiting := AList.update (h, ac_next_callback (hp_agents p ! h)) (cb, tid) (hp_waiting p),
      hp_agents := (hp_agents p)[h :=
        send_http_request i 0 (request_id time) (HTTPRequest_to_string walk r) 1800 (hp_agents p ! h)]\<rparr>"
proof -
  let ?s = "hp_agents p ! h"
  let ?s' = "send_http_request i 0 (request_id time) (HTTPRequest_to_string walk r) 1800 ?s"
  obtain new where new: "ac_actions ?s' = ac_actions ?s @ new" using send_request_actions by blast
  have "called ?s' = called ?s" using send_http_request_ok [OF assms(2-4)] by blast
  then have "new_calls new = []" using called_new [OF new] by simp
  from new_calls_none [OF this] show ?thesis
    using assms(1,2) new by (simp add: route_to_agent_def is_connected_def hp_run_agent_callbacks)
qed

lemma pending_below:
  "ac_inv f s \<Longrightarrow> c \<in> snd ` set (ac_pending_requests s) \<Longrightarrow> c < ac_next_callback s"
proof -
  assume "ac_inv f s" "c \<in> snd ` set (ac_pending_requests s)"
  then have "accounted s \<subseteq># mset [0..<ac_next_callback s]" "c \<in># accounted s"
    by (simp_all add: ac_inv_def accounted_def)
  then have "c \<in># mset [0..<ac_next_callback s]" by (rule mset_subset_eqD)
  then show ?thesis by simp
qed

text \<open>
  The id of a request is the wall clock in seconds. Two requests to the same tunnel within a second
  share it, and when the response to the first arrives it is given to the second client; the first
  client has had no answer and no table holds its callback any more.
\<close>

theorem same_second_requests_cross:
  assumes "get_agent tid (hp_registry p) = Some h" "h < length (hp_agents p)" "ac_reach f (hp_agents p ! h)"
    and "ac_state (hp_agents p ! h) = CONNECTED" "ac_session (hp_agents p ! h)"
    and "\<forall>k tid. map_of (hp_waiting p) k \<noteq> Some (cb, tid)" "cb \<noteq> cb'" "0 \<le> i" "0 \<le> j" "i \<noteq> j"
    and "p1 = route_to_agent time i 0 walk cb tid r p" "p2 = route_to_agent time j 0 walk' cb' tid r' p1"
    and "p3 = hp_run_agent h (complete_request i) p2"
  shows "answers cb' p3 = answers cb' p @ [response_text i (hp_agents p2 ! h)]
    \<and> answers cb p3 = answers cb p \<and> \<not> unanswered cb p3"
proof -
  let ?s = "hp_agents p ! h"
  define s1 where "s1 = send_http_request i 0 (request_id time) (HTTPRequest_to_string walk r) 1800 ?s"
  define s2 where "s2 = send_http_request j 0 (request_id time) (HTTPRequest_to_string walk' r') 1800 s1"
  define m where "m = ac_next_callback ?s"
  let ?w = "AList.update (h, Suc m) (cb', tid) (AList.update (h, m) (cb, tid) (hp_waiting p))"
  have "p1 = p\<lparr>hp_waiting := AList.update (h, m) (cb, tid) (hp_waiting p), hp_agents := (hp_agents p)[h := s1]\<rparr>"
    unfolding assms(11) s1_def m_def by (rule route_to_agent_sends [OF assms(1,4,5,8)])
  then have p1: "hp_registry p1 = hp_registry p" "hp_agents p1 = (hp_agents p)[h := s1]"
    "hp_waiting p1 = AList.update (h, m) (cb, tid) (hp_waiting p)" "hp_actions p1 = hp_actions p" by simp_all
  have st: "ac_state s1 = CONNECTED" "ac_session s1" "ac_next_callback s1 = Suc m"
    using send_request_state [OF assms(4,5)] by (simp_all add: s1_def m_def)
  have "p2 = p1\<lparr>hp_waiting := ?w, hp_agents := (hp_agents p1)[h := s2]\<rparr>"
    unfolding assms(12) using route_to_agent_sends [of tid p1 h j time walk' cb' r'] assms(1,2,9) st p1 by (simp add: s2_def)
  then have p2: "hp_agents p2 = (hp_agents p)[h := s2]" "hp_waiting p2 = ?w" "hp_actions p2 = hp_actions p"
    using p1 by simp_all
  note ok1 = send_http_request_ok [OF assms(4,5,8), of "request_id time" "HTTPRequest_to_string walk r" 1800 i, folded s1_def m_def]
  note ok2 = send_http_request_ok [OF st(1,2) assms(9), of "request_id time" "HTTPRequest_to_string walk' r'" 1800 i, folded s2_def]
  have look: "map_of (ac_stream_to_request s2) i = Some (request_id time)"
    "map_of (ac_pending_requests s2) (request_id time) = Some (Suc m)"
    using ok1 ok2 assms(10) st(3) by (simp_all add: map_simps)
  then have fin: "ac_actions (complete_request i s2) = ac_actions s2 @ [Ac_callback (Suc m) (response_text i s2) False]"
    "ac_pending_requests (complete_request i s2) = AList.delete (request_id time) (ac_pending_requests s2)"
    by (simp_all add: complete_request_def ac_act_def)
  have p3: "p3 = on_agent_response cb' tid (response_text i s2) False
      (p2\<lparr>hp_agents := (hp_agents p)[h := complete_request i s2]\<rparr>)"
    using assms(2,13) fin(1) by (simp add: hp_run_agent_callbacks p2 agent_callback_def map_simps)
  have wf: "umap_wf (ac_pending_requests ?s)" "ac_inv f ?s"
    using ac_reach_inv [OF assms(3)] by (simp_all add: ac_inv_def ac_ok_def)
  have "ac_pending_requests (complete_request i s2) = AList.delete (request_id time) (ac_pending_requests ?s)"
    unfolding fin(2) ok2 [THEN conjunct1] ok1 [THEN conjunct1] by (simp only: delete_update_same)
  then have "snd ` set (ac_pending_requests (complete_request i s2)) \<subseteq> snd ` set (ac_pending_requests ?s)"
    by (auto simp: AList.delete_eq)
  moreover have "m \<notin> snd ` set (ac_pending_requests ?s)"
    using pending_below [OF wf(2), of m] unfolding m_def [symmetric] by (metis less_irrefl)
  ultimately have "m \<notin> snd ` set (ac_pending_requests (complete_request i s2))" by blast
  then have gone: "m \<notin> snd ` set (ac_pending_requests (hp_agents p3 ! h))" using assms(2) by (simp add: p3)
  have only: "k = (h, m)" if "map_of (hp_waiting p3) k = Some (cb, t)" for k t
  proof (rule ccontr)
    assume "k \<noteq> (h, m)"
    moreover have "hp_waiting p3 = ?w" by (simp add: p3 p2)
    moreover have "k \<noteq> (h, Suc m)" using that calculation(2) assms(7) by (auto simp: lookup_update)
    ultimately have "map_of (hp_waiting p) k = Some (cb, t)" using that by (simp only: lookup_update if_False)
    then show False using assms(6) by blast
  qed
  have "\<not> unanswered cb p3"
  proof
    assume "unanswered cb p3"
    then obtain h' m' t where "map_of (hp_waiting p3) (h', m') = Some (cb, t)"
      "m' \<in> snd ` set (ac_pending_requests (hp_agents p3 ! h'))" unfolding unanswered_def by blast
    with only gone show False by (metis prod.inject)
  qed
  moreover have "answers c (p2\<lparr>hp_agents := A\<rparr>) = answers c p" for c A by (simp add: answers_def p2(3))
  then have "answers cb' p3 = answers cb' p @ [response_text i s2] \<and> answers cb p3 = answers cb p"
    unfolding p3 on_agent_response_answers using assms(7) by simp
  moreover have "hp_agents p2 ! h = s2" using assms(2) by (simp add: p2(1))
  ultimately show ?thesis by simp
qed

section \<open>Witnesses\<close>

definition sample_http :: HTTPProxy where
  "sample_http = HTTPProxy_new
     (Cache_put_ttl 0 ''t1'' (sample_tunnel\<lparr>tunnel_id := ''t1'', ip_allowlist := []\<rparr>) 60 (Cache_new 60))
     (snd (register_agent ''t1'' 0 (AgentRegistry_new 5)))
     [ac_start 100 0 (AgentConnection_from_socket 100 ''t1'')]"

definition sample_request_text :: string where
  "sample_request_text = ''GET / HTTP/1.1'' @ CRLF @ ''Host: t1.x'' @ CRLF @ ''A:'' @ CRLF @ CRLF @ ''body''"

definition sample_request :: HTTPRequest where
  "sample_request = \<lparr>hp_method = ''GET'', hp_path = ''/'', hp_version = ''HTTP/1.1'', hp_host = ''t1.x'',
     hp_client_ip = '''', hp_headers = [(''host'', ''t1.x''), (''a'', '''')], hp_body = ''body''\<rparr>"

lemma sample_request_parsed: "parse_request sample_request_text = Some sample_request"
  by code_simp

lemmas sample_http_simps = sample_http_def HTTPProxy_new_def Cache_put_ttl_def Cache_new_def register_agent_def
  AgentRegistry_new_def Cache_get_def is_expired_def get_agent_def started_agent AgentConnection_from_socket_def
  AgentConnection_init_def

lemma sample_http_facts:
  "Cache_wf (hp_tunnels sample_http)" "get_agent ''t1'' (hp_registry sample_http) = Some 0"
  "hp_agents sample_http = [ac_start 100 0 (AgentConnection_from_socket 100 ''t1'')]"
  "Cache_get 0 ''t1'' (hp_tunnels sample_http) = Some (sample_tunnel\<lparr>tunnel_id := ''t1'', ip_allowlist := []\<rparr>)"
  "k \<noteq> ''t1'' \<Longrightarrow> Cache_get 0 k (hp_tunnels sample_http) = None" "hp_waiting sample_http = []"
  "walk_of [''t1''] (hp_tunnels sample_http)"
  "get_agent k (hp_registry sample_http) = Some h \<Longrightarrow> h = 0"
  by (simp_all add: sample_http_simps Cache_wf_def walk_of_def umap_wf_def seconds_def split: if_splits)

lemma sample_http_agent:
  "ac_reach True (hp_agents sample_http ! 0)" "ac_state (hp_agents sample_http ! 0) = CONNECTED"
  "ac_session (hp_agents sample_http ! 0)" "0 < length (hp_agents sample_http)"
proof -
  show "ac_reach True (hp_agents sample_http ! 0)"
    unfolding sample_http_facts(3) nth_Cons_0 by (rule ac_reach.intros(3), rule ac_reach.intros(2))
qed (simp_all add: sample_http_facts(3) started_agent, simp_all add: AgentConnection_from_socket_def AgentConnection_init_def)

lemma match_tunnel_range_witness:
  "{match_tunnel 0 ord ''t1.x'' (hp_tunnels sample_http) |ord. walk_of ord (hp_tunnels sample_http)} = {''t1''}"
proof -
  have "Cache_get 0 k (hp_tunnels sample_http) \<noteq> None \<longleftrightarrow> k = ''t1''" for k
    using sample_http_facts(4,5) by (cases "k = ''t1''") simp_all
  moreover have "host_matches ''t1.x'' ''t1''" by (simp add: host_matches_def)
  ultimately have "live_matches 0 ''t1.x'' (hp_tunnels sample_http) = {''t1''}"
    unfolding live_matches_def by blast
  then show ?thesis using match_tunnel_range [OF sample_http_facts(1,5), of "''t1.x''"] by simp
qed

lemma sample_http_match: "match_tunnel 0 [''t1''] ''t1.x'' (hp_tunnels sample_http) = ''t1''"
  by (simp add: match_tunnel_last sample_http_facts host_matches_def)

definition sample_handled :: HTTPProxy where
  "sample_handled = hp_handle_request 0 [''t1''] 0 sample_inet (\<lambda>_. '''') ('''', 200) 7 1 0 (hp_headers sample_request)
     3 sample_request sample_http"

lemma sample_handled_routed:
  "sample_handled = route_to_agent 7 1 0 (hp_headers sample_request) 3 ''t1'' sample_request sample_http"
  unfolding sample_handled_def hp_handle_request_def Let_def
  by (simp add: sample_request_def sample_http_match sample_http_facts validate_ip_allowlist_def)

lemma sample_handled_agents: "hp_agents sample_handled \<noteq> hp_agents sample_http"
proof
  assume "hp_agents sample_handled = hp_agents sample_http"
  then have "ac_next_callback (hp_agents sample_handled ! 0) = ac_next_callback (hp_agents sample_http ! 0)" by simp
  then show False
    unfolding sample_handled_routed using route_to_agent_sends [OF sample_http_facts(2) sample_http_agent(2,3), of 1]
      sample_http_agent(4) by simp
qed

lemma request_isolation_witness:
  "\<exists>tid t h. host_matches ''t1.x'' tid \<and> get_agent tid (hp_registry sample_http) = Some h
     \<and> Cache_get 0 tid (hp_tunnels sample_http) = Some t"
  using request_isolation [OF sample_handled_def sample_handled_agents] by (auto simp: sample_request_def)

lemma forwarded_request_text_witness:
  "\<exists>hs. parse_request_text (HTTPRequest_to_string [(''a'', ''''), (''host'', ''t1.x'')] sample_request)
      = (''GET'', ''/'', hs, ''body'') \<and> map_of hs ''host'' = Some ''t1.x''"
proof -
  have "mset [(''a'', ''''), (''host'', ''t1.x'')] = mset (hp_headers sample_request)"
    by (simp add: sample_request_def)
  from forwarded_request_text [OF sample_request_parsed this, where rid = "''r''"] show ?thesis
    by (auto simp: sample_request_def)
qed

lemma request_answered_once_witness:
  "length (answers 3 sample_handled) = Suc (length (answers 3 sample_http)) \<or> unanswered 3 sample_handled"
proof -
  have "\<forall>tid h. get_agent tid (hp_registry sample_http) = Some h \<longrightarrow>
      h < length (hp_agents sample_http) \<and> (\<exists>f. ac_reach f (hp_agents sample_http ! h))"
    using sample_http_facts(8) sample_http_agent(1,4) by blast
  from request_answered_once [OF this _ sample_handled_def] show ?thesis by (auto simp: sample_http_facts(6))
qed

lemma same_second_requests_cross_witness:
  "\<exists>p1 p2 p3. p1 = route_to_agent 7 1 0 [] 3 ''t1'' sample_request sample_http
     \<and> p2 = route_to_agent 7 3 0 [] 4 ''t1'' sample_request p1
     \<and> p3 = hp_run_agent 0 (complete_request 1) p2 \<and> answers 3 p3 = answers 3 sample_http \<and> \<not> unanswered 3 p3"
  using same_second_requests_cross [OF sample_http_facts(2) sample_http_agent(4,1,2,3), of 3 4 1 3 _ 7 "[]" sample_request
      _ "[]" sample_request] by (simp add: sample_http_facts(6))

end
