(* ===== verification/Tunnel_Registry.thy ===== *)
theory Tunnel_Registry
  imports Cache Tunnel_Model
begin

text \<open>
  \<open>src/storage/tunnel_registry.{h,cpp}\<close>: the registry of tunnels with its periodic backup. A backup is
  a JSON value; that its text can be parsed is the environment's outcome (\<open>None\<close>: it cannot), as is
  whether the file opens. What is written and what the callback is told are actions. The backup
  thread is a loop over the seconds it has slept; \<open>stop\<close> says from which second on its flag is set.
\<close>

section \<open>Operations\<close>

datatype rg_action =
  Rg_write json
| Rg_backup bool nat

record TunnelRegistry =
  rg_cache :: "(string, Tunnel) Cache"
  rg_storage_account :: string
  rg_container :: string
  rg_persistence :: bool
  rg_backup_interval :: int
  rg_timer_running :: bool
  rg_stop_flag :: bool
  rg_callback :: bool
  rg_actions :: "rg_action list"

definition TunnelRegistry_new :: "string \<Rightarrow> string \<Rightarrow> int \<Rightarrow> TunnelRegistry" where
  "TunnelRegistry_new account container interval =
    \<lparr>rg_cache = Cache_new 0, rg_storage_account = account, rg_container = container,
     rg_persistence = (account \<noteq> []), rg_backup_interval = interval, rg_timer_running = False,
     rg_stop_flag = False, rg_callback = False, rg_actions = []\<rparr>"

definition register_tunnel :: "int \<Rightarrow> Tunnel \<Rightarrow> TunnelRegistry \<Rightarrow> TunnelRegistry result" where
  "register_tunnel now t r = bind_result (Tunnel_validate t) (\<lambda>_.
     Inr (r\<lparr>rg_cache := Cache_put now (tunnel_id t) t (rg_cache r)\<rparr>))"

definition get_tunnel :: "int \<Rightarrow> string \<Rightarrow> TunnelRegistry \<Rightarrow> Tunnel option" where
  "get_tunnel now tid r = Cache_get now tid (rg_cache r)"

definition update_tunnel :: "int \<Rightarrow> Tunnel \<Rightarrow> TunnelRegistry \<Rightarrow> (bool \<times> TunnelRegistry) result" where
  "update_tunnel now t r = bind_result (Tunnel_validate t) (\<lambda>_. Inr
     (if \<not> Cache_contains now (tunnel_id t) (rg_cache r) then (False, r)
      else (True, r\<lparr>rg_cache := Cache_put now (tunnel_id t) t (rg_cache r)\<rparr>)))"

definition remove_tunnel :: "string \<Rightarrow> TunnelRegistry \<Rightarrow> bool \<times> TunnelRegistry" where
  "remove_tunnel tid r =
    (fst (Cache_remove tid (rg_cache r)), r\<lparr>rg_cache := snd (Cache_remove tid (rg_cache r))\<rparr>)"

definition has_tunnel :: "int \<Rightarrow> string \<Rightarrow> TunnelRegistry \<Rightarrow> bool" where
  "has_tunnel now tid r = Cache_contains now tid (rg_cache r)"

definition get_all_tunnels :: "int \<Rightarrow> string list \<Rightarrow> TunnelRegistry \<Rightarrow> Tunnel list" where
  "get_all_tunnels now ord r = Cache_for_each now ord (\<lambda>ts k t. ts @ [t]) (rg_cache r) []"

definition rg_size :: "TunnelRegistry \<Rightarrow> nat" where
  "rg_size r = Cache_size (rg_cache r)"

definition rg_clear :: "TunnelRegistry \<Rightarrow> TunnelRegistry" where
  "rg_clear r = r\<lparr>rg_cache := Cache_clear (rg_cache r)\<rparr>"

definition set_backup_callback :: "TunnelRegistry \<Rightarrow> TunnelRegistry" where
  "set_backup_callback r = r\<lparr>rg_callback := True\<rparr>"

definition serialize_tunnels :: "int \<Rightarrow> string list \<Rightarrow> TunnelRegistry \<Rightarrow> json" where
  "serialize_tunnels now ord r =
    J_arr (Cache_for_each now ord (\<lambda>js k t. js @ [Tunnel_to_json t]) (rg_cache r) [])"

text \<open>An element that is no tunnel is logged and skipped.\<close>

fun load_elements :: "int \<Rightarrow> json list \<Rightarrow> (string, Tunnel) Cache \<Rightarrow> (string, Tunnel) Cache" where
  "load_elements now [] c = c"
| "load_elements now (j # js) c = load_elements now js (case Tunnel_from_json j of
     Inl e \<Rightarrow> c | Inr t \<Rightarrow> Cache_put now (tunnel_id t) t c)"

definition deserialize_tunnels :: "int \<Rightarrow> json option \<Rightarrow> TunnelRegistry \<Rightarrow> bool \<times> TunnelRegistry" where
  "deserialize_tunnels now parsed r = (case parsed of
     Some (J_arr js) \<Rightarrow> (True, r\<lparr>rg_cache := load_elements now js (rg_cache r)\<rparr>)
   | _ \<Rightarrow> (False, r))"

text \<open>\<open>file\<close>: \<open>None\<close> when there is no file, otherwise what parsing its text gives.\<close>

definition load_from_storage :: "int \<Rightarrow> json option option \<Rightarrow> TunnelRegistry \<Rightarrow> nat \<times> TunnelRegistry" where
  "load_from_storage now file r =
    (if \<not> rg_persistence r then (0, r)
     else case file of None \<Rightarrow> (0, r)
     | Some parsed \<Rightarrow> (case deserialize_tunnels now parsed r of
         (True, r') \<Rightarrow> (rg_size r', r') | (False, r') \<Rightarrow> (0, r')))"

definition rg_act :: "rg_action list \<Rightarrow> TunnelRegistry \<Rightarrow> TunnelRegistry" where
  "rg_act as r = r\<lparr>rg_actions := rg_actions r @ as\<rparr>"

definition save_to_storage :: "int \<Rightarrow> string list \<Rightarrow> bool \<Rightarrow> TunnelRegistry \<Rightarrow> bool \<times> TunnelRegistry" where
  "save_to_storage now ord opens r =
    (if \<not> rg_persistence r then (True, r)
     else let r1 = (if opens then rg_act [Rg_write (serialize_tunnels now ord r)] r else r)
          in (opens, if rg_callback r then rg_act [Rg_backup opens (rg_size r)] r1 else r1))"

section \<open>The file\<close>

text \<open>
  The file that stands in for blob storage. \<open>w\<close> is what becomes of writing it: \<open>None\<close> when it does not
  open, otherwise how many characters the system takes, since neither \<open><<\<close> nor \<open>close\<close> is checked.
  Opening truncates the file.
\<close>

definition fallback_path :: string where
  "fallback_path = ''/tmp/protogate-tunnels-backup.json''"

definition upload_to_blob :: "nat option \<Rightarrow> string \<Rightarrow> string option \<Rightarrow> bool \<times> string option" where
  "upload_to_blob w data old = (case w of None \<Rightarrow> (False, old) | Some n \<Rightarrow> (True, Some (take n data)))"

definition download_from_blob :: "bool \<Rightarrow> string option \<Rightarrow> string option" where
  "download_from_blob readable content = (if readable then content else None)"

text \<open>\<open>save_to_storage\<close> and \<open>load_from_storage\<close> on the content of the file; \<open>dump\<close> and \<open>parse\<close> are those of the JSON library.\<close>

definition save_file ::
  "int \<Rightarrow> string list \<Rightarrow> (json \<Rightarrow> string) \<Rightarrow> nat option \<Rightarrow> TunnelRegistry \<Rightarrow> string option \<Rightarrow> bool \<times> TunnelRegistry \<times> string option" where
  "save_file now ord dump w r content =
    (let (ok, content') = (if rg_persistence r then upload_to_blob w (dump (serialize_tunnels now ord r)) content else (True, content));
         (ok', r') = save_to_storage now ord ok r
     in (ok', r', content'))"

definition load_file :: "int \<Rightarrow> (string \<Rightarrow> json option) \<Rightarrow> bool \<Rightarrow> string option \<Rightarrow> TunnelRegistry \<Rightarrow> nat \<times> TunnelRegistry" where
  "load_file now parse readable content r =
     load_from_storage now (map_option parse (download_from_blob readable content)) r"

text \<open>A backup is reported as a success also when the disk takes only a part of it, and the old one is gone.\<close>

lemma partial_backup_reported:
  assumes "rg_persistence r"
  shows "fst (save_file now ord dump (Some n) r content)
    \<and> snd (snd (save_file now ord dump (Some n) r content)) = Some (take n (dump (serialize_tunnels now ord r)))"
  using assms by (simp add: save_file_def upload_to_blob_def save_to_storage_def Let_def)

text \<open>What was written whole is what the next start reads.\<close>

lemma backup_is_read:
  assumes "rg_persistence r" "\<And>j. parse (dump j) = Some j" "j = serialize_tunnels now ord r" "length (dump j) \<le> n"
    and "save_file now ord dump (Some n) r content = (ok, r', content')"
  shows "load_file t parse True content' r0 = load_from_storage t (Some (Some j)) r0"
  using assms by (auto simp: save_file_def upload_to_blob_def load_file_def download_from_blob_def Let_def split: prod.splits)

section \<open>The backup thread\<close>

definition start_backup_timer :: "TunnelRegistry \<Rightarrow> TunnelRegistry" where
  "start_backup_timer r =
    (if \<not> rg_persistence r then r else if rg_timer_running r then r
     else r\<lparr>rg_stop_flag := False, rg_timer_running := True\<rparr>)"

definition stop_backup_timer :: "TunnelRegistry \<Rightarrow> TunnelRegistry" where
  "stop_backup_timer r =
    (if \<not> rg_timer_running r then r else r\<lparr>rg_stop_flag := True, rg_timer_running := False\<rparr>)"

fun backup_sleep :: "nat \<Rightarrow> (nat \<Rightarrow> bool) \<Rightarrow> nat \<Rightarrow> nat" where
  "backup_sleep 0 stop t = t"
| "backup_sleep (Suc n) stop t = (if stop t then t else backup_sleep n stop (Suc t))"

text \<open>The seconds at which the thread saves, once it has ended.\<close>

partial_function (option) backup_loop :: "nat \<Rightarrow> (nat \<Rightarrow> bool) \<Rightarrow> nat \<Rightarrow> nat list option" where
  "backup_loop interval stop t =
    (if stop t then Some []
     else let t' = backup_sleep interval stop t
          in Option.bind (backup_loop interval stop t')
               (\<lambda>saves. Some (if stop t' then saves else t' # saves)))"

section \<open>Stopping the thread\<close>

lemma backup_sleep_full: "\<lbrakk>\<And>s. t \<le> s \<Longrightarrow> s < t + n \<Longrightarrow> \<not> stop s\<rbrakk> \<Longrightarrow> backup_sleep n stop t = t + n"
proof (induction n arbitrary: t)
  case (Suc n)
  have "\<not> stop t" using Suc.prems [of t] by simp
  moreover have "backup_sleep n stop (Suc t) = Suc t + n"
    using Suc.prems by (intro Suc.IH) simp
  ultimately show ?case by simp
qed simp

lemma backup_sleep_cut:
  "\<lbrakk>\<And>s. t \<le> s \<Longrightarrow> s < T \<Longrightarrow> \<not> stop s; stop T; t \<le> T; T \<le> t + n\<rbrakk> \<Longrightarrow> backup_sleep n stop t = T"
proof (induction n arbitrary: t)
  case (Suc n)
  show ?case
  proof (cases "t = T")
    case False
    then have "\<not> stop t" using Suc.prems(1) [of t] Suc.prems(3) by simp
    moreover have "backup_sleep n stop (Suc t) = T"
      using Suc.prems False by (intro Suc.IH) simp_all
    ultimately show ?thesis by simp
  qed (simp add: Suc.prems(2))
qed simp

lemma backup_loop_from:
  assumes "0 < interval" "stop = (\<lambda>s. T \<le> s)" "t \<le> T"
  shows "backup_loop interval stop t = Some (map (\<lambda>k. t + Suc k * interval) [0..<(T - t - 1) div interval])"
  using assms(3)
proof (induction "T - t" arbitrary: t rule: less_induct)
  case less
  show ?case
  proof (cases "t = T")
    case True
    then show ?thesis by (subst backup_loop.simps) (simp add: assms(2))
  next
    case False
    show ?thesis
    proof (cases "t + interval < T")
      case True
      then have s: "backup_sleep interval stop t = t + interval"
        by (intro backup_sleep_full) (simp add: assms(2))
      have IH: "backup_loop interval stop (t + interval)
          = Some (map (\<lambda>k. t + interval + Suc k * interval) [0..<(T - (t + interval) - 1) div interval])"
        using True assms(1) by (intro less.hyps) simp_all
      have n: "(T - t - 1) div interval = Suc ((T - (t + interval) - 1) div interval)"
        using True assms(1) by (subst div_if) (simp add: diff_diff_add add.commute)
      have "map (\<lambda>k. t + Suc k * interval) [0..<Suc m]
          = (t + interval) # map (\<lambda>k. t + interval + Suc k * interval) [0..<m]" for m
        by (simp add: map_Suc_upt [symmetric] upt_conv_Cons comp_def del: upt_Suc)
      then show ?thesis unfolding n
        using s IH True False less.prems by (subst backup_loop.simps) (simp add: assms(2) Let_def del: upt_Suc)
    next
      case False': False
      then have "backup_sleep interval stop t = T"
        using less.prems by (intro backup_sleep_cut) (simp_all add: assms(2))
      moreover have "backup_loop interval stop T = Some []"
        by (subst backup_loop.simps) (simp add: assms(2))
      ultimately have "backup_loop interval stop t = Some []"
        using False less.prems by (subst backup_loop.simps) (simp add: assms(2) Let_def)
      moreover have "(T - t - 1) div interval = 0" using False' False less.prems by simp
      ultimately show ?thesis by simp
    qed
  qed
qed

text \<open>
  C36. The backup thread ends: when its flag is set after \<open>T\<close> seconds, it returns, having saved at every
  multiple of the interval before \<open>T\<close> and at no other time.
\<close>

theorem backup_loop_stops:
  assumes "0 < interval"
  shows "backup_loop interval (\<lambda>s. T \<le> s) 0 = Some (map (\<lambda>k. Suc k * interval) [0..<(T - 1) div interval])"
  using backup_loop_from [OF assms refl, of 0 T] by simp

section \<open>What the registry finds again\<close>

text \<open>The operations that store a tunnel, at their times.\<close>

datatype rg_op =
  Rg_register Tunnel
| Rg_update Tunnel
| Rg_load "json option option"
| Rg_remove string

definition rg_step :: "TunnelRegistry \<Rightarrow> int \<times> rg_op \<Rightarrow> TunnelRegistry" where
  "rg_step r ev = (case ev of (now, op) \<Rightarrow> (case op of
     Rg_register t \<Rightarrow> (case register_tunnel now t r of Inr r' \<Rightarrow> r' | Inl e \<Rightarrow> r)
   | Rg_update t \<Rightarrow> (case update_tunnel now t r of Inr (b, r') \<Rightarrow> r' | Inl e \<Rightarrow> r)
   | Rg_load file \<Rightarrow> snd (load_from_storage now file r)
   | Rg_remove tid \<Rightarrow> snd (remove_tunnel tid r)))"

text \<open>Everything in the table has expired by the time \<open>now\<close>.\<close>

definition all_expired :: "int \<Rightarrow> TunnelRegistry \<Rightarrow> bool" where
  "all_expired now r \<longleftrightarrow> default_ttl (rg_cache r) = 0 \<and> (\<forall>(k, en) \<in> set (cache (rg_cache r)). expires_at en \<le> now)"

lemma expired_update:
  "\<forall>(k, en) \<in> set m. expires_at en \<le> now \<Longrightarrow> expires_at en' \<le> now \<Longrightarrow>
    \<forall>(k, en) \<in> set (AList.update k' en' m). expires_at en \<le> now"
  by (induction m) (auto split: if_splits)

lemma all_expired_put:
  "all_expired now r \<Longrightarrow> t \<le> now \<Longrightarrow> all_expired now (r\<lparr>rg_cache := Cache_put t k v (rg_cache r)\<rparr>)"
proof -
  assume e: "all_expired now r" and t: "t \<le> now"
  let ?en = "\<lparr>entry_value = v, expires_at = t\<rparr>"
  have "\<forall>(k, en) \<in> set (AList.update k ?en (cache (rg_cache r))). expires_at en \<le> now"
    using e t by (intro expired_update) (simp_all add: all_expired_def)
  moreover have "default_ttl (rg_cache r) = 0" using e by (simp only: all_expired_def)
  ultimately show ?thesis by (simp only: all_expired_def Cache_put_def Cache_put_ttl_def) (simp add: seconds_def)
qed

lemma all_expired_load:
  "all_expired now r \<Longrightarrow> t \<le> now \<Longrightarrow> all_expired now (r\<lparr>rg_cache := load_elements t js (rg_cache r)\<rparr>)"
proof (induction js arbitrary: r)
  case (Cons j js)
  show ?case
  proof (cases "Tunnel_from_json j")
    case (Inr x)
    have "all_expired now (r\<lparr>rg_cache := Cache_put t (tunnel_id x) x (rg_cache r)\<rparr>)"
      using Cons.prems by (rule all_expired_put)
    from Cons.IH [OF this Cons.prems(2)] show ?thesis by (simp add: Inr)
  qed (use Cons in simp)
qed simp

lemma all_expired_step:
  assumes "all_expired now r" "fst ev \<le> now"
  shows "all_expired now (rg_step r ev)"
proof -
  obtain t op where ev: "ev = (t, op)" by (cases ev)
  have t: "t \<le> now" using assms(2) by (simp add: ev)
  have rm: "all_expired now (snd (remove_tunnel tid r))" for tid
    using assms(1) by (auto simp: all_expired_def remove_tunnel_def Cache_remove_def AList.delete_eq)
  show ?thesis
  proof (cases op)
    case (Rg_register x)
    then show ?thesis using all_expired_put [OF assms(1) t] assms(1)
      by (cases "Tunnel_validate x") (simp_all add: rg_step_def ev register_tunnel_def)
  next
    case (Rg_update x)
    then show ?thesis using all_expired_put [OF assms(1) t] assms(1)
      by (cases "Tunnel_validate x") (simp_all add: rg_step_def ev update_tunnel_def)
  next
    case (Rg_load stored)
    have "all_expired now (snd (deserialize_tunnels t parsed r))" for parsed
      using all_expired_load [OF assms(1) t] assms(1)
      by (auto simp: deserialize_tunnels_def split: option.splits json.splits)
    then have "all_expired now r'" if "deserialize_tunnels t parsed r = (b, r')" for parsed b r'
      using that by (metis snd_conv)
    then show ?thesis using assms(1)
      by (auto simp: rg_step_def ev Rg_load load_from_storage_def split: option.splits prod.splits bool.splits)
  qed (simp add: rg_step_def ev rm)
qed

interpretation registry_expiry: step_machine "\<lambda>r ev. if fst ev \<le> now then rg_step r ev else r" "all_expired now"
  for now by unfold_locales (auto intro: all_expired_step)

lemma all_expired_run:
  assumes "all_expired now r" "\<forall>ev \<in> set ops. fst ev \<le> now"
  shows "all_expired now (foldl rg_step r ops)"
proof -
  have "foldl rg_step r ops = foldl (\<lambda>r ev. if fst ev \<le> now then rg_step r ev else r) r ops"
    using assms(2) by (induction ops arbitrary: r) simp_all
  then show ?thesis using registry_expiry.run_inv [OF assms(1), of ops] by simp
qed

lemma all_expired_get: "all_expired now r \<Longrightarrow> Cache_get now k (rg_cache r) = None"
  by (fastforce simp: all_expired_def Cache_get_def is_expired_def dest: map_of_SomeD split: option.splits)

lemma all_expired_fold: "all_expired now r \<Longrightarrow> Cache_for_each now ord f (rg_cache r) x = x"
proof -
  assume "all_expired now r"
  then have "Cache_live now ord (rg_cache r) = []" by (simp add: Cache_live_def all_expired_get)
  then show ?thesis by (simp add: Cache_for_each_def)
qed

text \<open>
  C39. The cache is created with a time to live of 0 seconds, which is meant to be none but is none left:
  whatever has been registered, updated or loaded up to now, the registry finds no tunnel, refuses
  every update, lists nothing, and the next backup overwrites the file with an empty array.
\<close>

theorem registered_tunnels_are_lost:
  assumes "r = foldl rg_step (TunnelRegistry_new account container interval) ops"
    and "\<forall>ev \<in> set ops. fst ev \<le> now"
  shows "get_tunnel now tid r = None \<and> \<not> has_tunnel now tid r \<and> get_all_tunnels now ord r = []
    \<and> (Tunnel_validate t = Inr () \<longrightarrow> update_tunnel now t r = Inr (False, r))
    \<and> (account \<noteq> [] \<longrightarrow> rg_actions (snd (save_to_storage now ord True (r\<lparr>rg_callback := False\<rparr>)))
         = rg_actions r @ [Rg_write (J_arr [])])"
proof -
  have "all_expired now (TunnelRegistry_new account container interval)"
    by (simp add: all_expired_def TunnelRegistry_new_def Cache_new_def)
  then have e: "all_expired now r" unfolding assms(1) using assms(2) by (rule all_expired_run)
  have keep: "rg_persistence (rg_step r ev) = rg_persistence r" for r ev
    by (cases ev) (auto simp: rg_step_def register_tunnel_def update_tunnel_def load_from_storage_def
        deserialize_tunnels_def remove_tunnel_def split: rg_op.splits sum.splits option.splits json.splits prod.splits)
  have "rg_persistence (foldl rg_step r ops) = rg_persistence r" for r
    by (induction ops arbitrary: r) (simp_all add: keep)
  then have p: "rg_persistence r = (account \<noteq> [])" by (simp add: assms(1) TunnelRegistry_new_def)
  have "all_expired now (r\<lparr>rg_callback := False\<rparr>)" using e by (simp add: all_expired_def)
  then show ?thesis using e p
    by (simp add: get_tunnel_def has_tunnel_def get_all_tunnels_def update_tunnel_def save_to_storage_def
        serialize_tunnels_def rg_act_def all_expired_get all_expired_fold Cache_contains_get)
qed

section \<open>Witnesses\<close>

lemma backup_loop_stops_witness: "backup_loop 5 (\<lambda>s. 17 \<le> s) 0 = Some [5, 10, 15]"
  using backup_loop_stops [of 5 17] by (simp add: upt_rec)

definition sample_registered :: Tunnel where
  "sample_registered = \<lparr>tunnel_id = ''api'', protocol = HTTP, target_host = ''h'', target_port = 80,
     ip_allowlist = [], rate_limit_rpm = 0, created_at = 0, updated_at = 0, status = ACTIVE\<rparr>"

lemma sample_registered_valid: "Tunnel_validate sample_registered = Inr ()"
proof -
  have "is_valid_tunnel_id ''api''"
    by (simp add: is_valid_tunnel_id_def tunnel_id_pattern_def lower_alnum_def)
  then show ?thesis by (simp add: Tunnel_validate_def sample_registered_def)
qed

lemma registered_tunnels_are_lost_witness:
  "get_tunnel 7 ''api'' (foldl rg_step (TunnelRegistry_new ''acc'' ''c'' 300) [(7, Rg_register sample_registered)]) = None
   \<and> rg_size (foldl rg_step (TunnelRegistry_new ''acc'' ''c'' 300) [(7, Rg_register sample_registered)]) = 1
   \<and> rg_actions (snd (save_to_storage 7 [''api''] True
        (foldl rg_step (TunnelRegistry_new ''acc'' ''c'' 300) [(7, Rg_register sample_registered)]\<lparr>rg_callback := False\<rparr>)))
      = [Rg_write (J_arr [])]"
  using registered_tunnels_are_lost [where ops = "[(7, Rg_register sample_registered)]" and now = 7
      and account = "''acc''" and container = "''c''" and interval = 300 and ord = "[''api'']" and tid = "''api''", OF refl]
  by (simp add: rg_step_def register_tunnel_def sample_registered_valid TunnelRegistry_new_def Cache_put_def
      Cache_put_ttl_def Cache_new_def rg_size_def Cache_size_def)

end
