(* ===== verification/Rate_Limiter.thy ===== *)
theory Rate_Limiter
  imports Tunnel_Model
begin

text \<open>
  \<open>src/security/rate_limiter.{h,cpp}\<close>: token buckets. Token counts, which the code keeps as \<open>double\<close>,
  are exact rationals here: rounding is left out. Every operation holds the mutex for its whole
  body; the reading of the steady clock, in nanoseconds, is an argument.
\<close>

section \<open>Buckets\<close>

record Bucket =
  bk_tokens :: rat
  bk_last_refill :: int

record RateLimiter =
  rl_requests_per_second :: rat
  rl_burst_capacity :: nat
  rl_buckets :: "(string, Bucket) umap"

definition RateLimiter_new :: "rat \<Rightarrow> nat \<Rightarrow> RateLimiter" where
  "RateLimiter_new rps burst = \<lparr>rl_requests_per_second = (if rps \<le> 0 then 100 else rps),
     rl_burst_capacity = (if burst = 0 then 200 else burst), rl_buckets = []\<rparr>"

definition Bucket_new :: "int \<Rightarrow> rat \<Rightarrow> Bucket" where
  "Bucket_new now initial_tokens = \<lparr>bk_tokens = initial_tokens, bk_last_refill = now\<rparr>"

definition refill_tokens :: "int \<Rightarrow> RateLimiter \<Rightarrow> Bucket \<Rightarrow> Bucket" where
  "refill_tokens now l b =
    (let elapsed = trunc_div (now - bk_last_refill b) 1000;
         tokens_to_add = rat_of_int elapsed / 1000000 * rl_requests_per_second l
     in if tokens_to_add > 0
        then \<lparr>bk_tokens = min (bk_tokens b + tokens_to_add) (rat_of_nat (rl_burst_capacity l)), bk_last_refill = now\<rparr>
        else b)"

definition allow_request :: "int \<Rightarrow> string \<Rightarrow> RateLimiter \<Rightarrow> bool \<times> RateLimiter" where
  "allow_request now key l =
    (let b0 = (case map_of (rl_buckets l) key of
                 None \<Rightarrow> Bucket_new now (rat_of_nat (rl_burst_capacity l)) | Some b \<Rightarrow> b);
         b = refill_tokens now l b0
     in if bk_tokens b \<ge> 1
        then (True, l\<lparr>rl_buckets := AList.update key (b\<lparr>bk_tokens := bk_tokens b - 1\<rparr>) (rl_buckets l)\<rparr>)
        else (False, l\<lparr>rl_buckets := AList.update key b (rl_buckets l)\<rparr>))"

definition check_limit :: "int \<Rightarrow> string \<Rightarrow> RateLimiter \<Rightarrow> bool" where
  "check_limit now key l = (case map_of (rl_buckets l) key of
     None \<Rightarrow> True | Some b \<Rightarrow> bk_tokens (refill_tokens now l b) \<ge> 1)"

definition rl_reset :: "string \<Rightarrow> RateLimiter \<Rightarrow> RateLimiter" where
  "rl_reset key l = l\<lparr>rl_buckets := AList.delete key (rl_buckets l)\<rparr>"

definition rl_clear :: "RateLimiter \<Rightarrow> RateLimiter" where
  "rl_clear l = l\<lparr>rl_buckets := []\<rparr>"

definition get_tokens :: "int \<Rightarrow> string \<Rightarrow> RateLimiter \<Rightarrow> rat" where
  "get_tokens now key l = (case map_of (rl_buckets l) key of
     None \<Rightarrow> rat_of_nat (rl_burst_capacity l) | Some b \<Rightarrow> bk_tokens (refill_tokens now l b))"

section \<open>Limits per tunnel\<close>

record TunnelRateLimiter =
  tl_default_requests_per_second :: rat
  tl_default_burst_capacity :: nat
  tl_limiters :: "(string, RateLimiter) umap"

definition TunnelRateLimiter_new :: "rat \<Rightarrow> nat \<Rightarrow> TunnelRateLimiter" where
  "TunnelRateLimiter_new rps burst = \<lparr>tl_default_requests_per_second = rps,
     tl_default_burst_capacity = burst, tl_limiters = []\<rparr>"

definition set_tunnel_limit :: "string \<Rightarrow> rat \<Rightarrow> nat \<Rightarrow> TunnelRateLimiter \<Rightarrow> TunnelRateLimiter" where
  "set_tunnel_limit tid rps burst s =
     s\<lparr>tl_limiters := AList.update tid (RateLimiter_new rps burst) (AList.delete tid (tl_limiters s))\<rparr>"

definition tl_allow_request :: "int \<Rightarrow> string \<Rightarrow> TunnelRateLimiter \<Rightarrow> bool \<times> TunnelRateLimiter" where
  "tl_allow_request now tid s =
    (let l = (case map_of (tl_limiters s) tid of
                None \<Rightarrow> RateLimiter_new (tl_default_requests_per_second s) (tl_default_burst_capacity s)
              | Some l \<Rightarrow> l);
         (ok, l') = allow_request now tid l
     in (ok, s\<lparr>tl_limiters := AList.update tid l' (tl_limiters s)\<rparr>))"

definition remove_tunnel_limit :: "string \<Rightarrow> TunnelRateLimiter \<Rightarrow> TunnelRateLimiter" where
  "remove_tunnel_limit tid s = s\<lparr>tl_limiters := AList.delete tid (tl_limiters s)\<rparr>"

definition tl_clear :: "TunnelRateLimiter \<Rightarrow> TunnelRateLimiter" where
  "tl_clear s = s\<lparr>tl_limiters := []\<rparr>"

section \<open>The bound\<close>

abbreviation rate_ns :: "RateLimiter \<Rightarrow> rat" where
  "rate_ns l \<equiv> rl_requests_per_second l / 1000000000"

abbreviation burst :: "RateLimiter \<Rightarrow> rat" where
  "burst l \<equiv> rat_of_nat (rl_burst_capacity l)"

definition rl_ok :: "RateLimiter \<Rightarrow> bool" where
  "rl_ok l \<longleftrightarrow> 0 < rl_requests_per_second l \<and> 1 \<le> rl_burst_capacity l"

definition bucket_ok :: "RateLimiter \<Rightarrow> Bucket \<Rightarrow> bool" where
  "bucket_ok l b \<longleftrightarrow> 0 \<le> bk_tokens b \<and> bk_tokens b \<le> burst l"

lemma trunc_div_le: "0 \<le> a \<Longrightarrow> rat_of_int (trunc_div a 1000) / 1000000 \<le> rat_of_int a / 1000000000"
proof -
  assume "0 \<le> a"
  then have "trunc_div a 1000 * 1000 \<le> a" by (simp add: trunc_div_def)
  then have "rat_of_int (trunc_div a 1000) * 1000 \<le> rat_of_int a" by (metis of_int_le_iff of_int_mult of_int_numeral)
  then show ?thesis by simp
qed

lemma refill_ok:
  assumes "rl_ok l" "bucket_ok l b" "bk_last_refill b \<le> now"
  shows "bucket_ok l (refill_tokens now l b)" "bk_last_refill (refill_tokens now l b) \<le> now"
    and "bk_tokens (refill_tokens now l b) + rate_ns l * rat_of_int (T - bk_last_refill (refill_tokens now l b))
      \<le> bk_tokens b + rate_ns l * rat_of_int (T - bk_last_refill b)"
proof -
  let ?a = "rat_of_int (trunc_div (now - bk_last_refill b) 1000) / 1000000 * rl_requests_per_second l"
  have r: "0 < rl_requests_per_second l" using assms(1) by (simp add: rl_ok_def)
  show "bucket_ok l (refill_tokens now l b)" "bk_last_refill (refill_tokens now l b) \<le> now"
    using assms by (auto simp: refill_tokens_def bucket_ok_def rl_ok_def Let_def)
  have "?a \<le> rat_of_int (now - bk_last_refill b) / 1000000000 * rl_requests_per_second l"
    using trunc_div_le [of "now - bk_last_refill b"] r assms(3) by (intro mult_right_mono) simp_all
  then have A: "?a \<le> rate_ns l * rat_of_int (now - bk_last_refill b)" by (simp add: mult.commute)
  have B: "rate_ns l * rat_of_int (T - bk_last_refill b)
      = rate_ns l * rat_of_int (now - bk_last_refill b) + rate_ns l * rat_of_int (T - now)"
    unfolding distrib_left [symmetric] of_int_add [symmetric] by simp
  have C: "min (bk_tokens b + ?a) (burst l) \<le> bk_tokens b + ?a" by simp
  show "bk_tokens (refill_tokens now l b) + rate_ns l * rat_of_int (T - bk_last_refill (refill_tokens now l b))
      \<le> bk_tokens b + rate_ns l * rat_of_int (T - bk_last_refill b)"
  proof (cases "0 < ?a")
    case True
    then have "refill_tokens now l b = \<lparr>bk_tokens = min (bk_tokens b + ?a) (burst l), bk_last_refill = now\<rparr>"
      by (simp add: refill_tokens_def Let_def)
    then show ?thesis using A B C by (simp only: Bucket.simps)
  qed (simp add: refill_tokens_def Let_def)
qed

text \<open>How many of the requests (time and key) with key \<open>k\<close> are let through.\<close>

fun let_through :: "string \<Rightarrow> RateLimiter \<Rightarrow> (int \<times> string) list \<Rightarrow> nat" where
  "let_through k l [] = 0"
| "let_through k l ((t, key) # evs) = (let (ok, l') = allow_request t key l
     in (if ok \<and> key = k then 1 else 0) + let_through k l' evs)"

lemma allow_request_frame [simp]:
  "rl_requests_per_second (snd (allow_request t key l)) = rl_requests_per_second l"
  "rl_burst_capacity (snd (allow_request t key l)) = rl_burst_capacity l"
  "key \<noteq> k \<Longrightarrow> map_of (rl_buckets (snd (allow_request t key l))) k = map_of (rl_buckets l) k"
  by (auto simp: allow_request_def Let_def map_simps)

lemma allow_request_bucket:
  assumes "b = refill_tokens t l (case map_of (rl_buckets l) k of
      None \<Rightarrow> Bucket_new t (burst l) | Some b \<Rightarrow> b)"
  shows "fst (allow_request t k l) \<longleftrightarrow> 1 \<le> bk_tokens b"
    and "map_of (rl_buckets (snd (allow_request t k l))) k
      = Some (if 1 \<le> bk_tokens b then b\<lparr>bk_tokens := bk_tokens b - 1\<rparr> else b)"
  unfolding allow_request_def Let_def assms [symmetric] by (simp_all add: map_simps)

lemma let_through_bucket:
  assumes "rl_ok l" "map_of (rl_buckets l) k = Some b" "bucket_ok l b"
    and "sorted (bk_last_refill b # map fst evs @ [T])"
  shows "rat_of_nat (let_through k l evs) \<le> bk_tokens b + rate_ns l * rat_of_int (T - bk_last_refill b)"
  using assms
proof (induction evs arbitrary: l b)
  case Nil
  then show ?case by (simp add: rl_ok_def bucket_ok_def)
next
  case (Cons ev evs)
  obtain t key where ev: "ev = (t, key)" by (cases ev)
  obtain ok l' where a: "allow_request t key l = (ok, l')" by (cases "allow_request t key l")
  have l': "rl_requests_per_second l' = rl_requests_per_second l" "rl_burst_capacity l' = rl_burst_capacity l"
    using allow_request_frame(1,2) [of t key l] by (simp_all add: a)
  then have ok': "rl_ok l'" and bok: "bucket_ok l' = bucket_ok l"
    using Cons.prems(1) by (simp_all add: rl_ok_def bucket_ok_def fun_eq_iff)
  have t: "bk_last_refill b \<le> t" and srt: "sorted (t # map fst evs @ [T])" using Cons.prems(4) by (simp_all add: ev)
  show ?case
  proof (cases "key = k")
    case False
    then have "map_of (rl_buckets l') k = Some b" using Cons.prems(2) allow_request_frame(3) [where t = t and key = key and l = l and k = k] by (simp add: a)
    moreover have "sorted (bk_last_refill b # map fst evs @ [T])" using Cons.prems(4) by (simp add: ev)
    ultimately show ?thesis using Cons.IH [of l' b] ok' Cons.prems(3) False by (simp add: ev a bok l')
  next
    case True
    let ?b = "refill_tokens t l b"
    define b' where "b' = (if 1 \<le> bk_tokens ?b then ?b\<lparr>bk_tokens := bk_tokens ?b - 1\<rparr> else ?b)"
    note r = refill_ok [OF Cons.prems(1,3) t]
    have okiff: "ok \<longleftrightarrow> 1 \<le> bk_tokens ?b" and look: "map_of (rl_buckets l') k = Some b'"
      using allow_request_bucket [of ?b t l k] Cons.prems(2) a True by (simp_all add: b'_def)
    have "bucket_ok l' b'" using r(1) unfolding bok b'_def by (simp add: bucket_ok_def)
    moreover have "sorted (bk_last_refill b' # map fst evs @ [T])"
      using srt r(2) by (force simp: b'_def)
    ultimately have "rat_of_nat (let_through k l' evs) \<le> bk_tokens b' + rate_ns l * rat_of_int (T - bk_last_refill b')"
      using Cons.IH [OF ok' look] by (simp add: l')
    moreover have "(if ok then 1 else 0) + bk_tokens b' = bk_tokens ?b" "bk_last_refill b' = bk_last_refill ?b"
      by (simp_all add: okiff b'_def)
    ultimately have "rat_of_nat ((if ok then 1 else 0) + let_through k l' evs)
        \<le> bk_tokens ?b + rate_ns l * rat_of_int (T - bk_last_refill ?b)" by (simp split: if_splits)
    also have "\<dots> \<le> bk_tokens b + rate_ns l * rat_of_int (T - bk_last_refill b)" by (rule r(3))
    finally show ?thesis using True a by (simp only: ev let_through.simps Let_def prod.case conj_commute simp_thms)
  qed
qed


text \<open>
  A request is let through exactly when \<open>check_limit\<close> says so at that time, and then costs one token; a
  refused one costs none. Different keys do not share tokens.
\<close>

lemma refill_now: "bk_last_refill b = now \<Longrightarrow> refill_tokens now l b = b"
  by (simp add: refill_tokens_def trunc_div_def)

lemma refill_frame [simp]: "refill_tokens now (l\<lparr>rl_buckets := m\<rparr>) b = refill_tokens now l b"
  by (simp add: refill_tokens_def Let_def)

lemma refill_take:
  "refill_tokens now l ((refill_tokens now l b)\<lparr>bk_tokens := x\<rparr>) = (refill_tokens now l b)\<lparr>bk_tokens := x\<rparr>"
proof (cases "0 < rat_of_int (trunc_div (now - bk_last_refill b) 1000) / 1000000 * rl_requests_per_second l")
  case True
  then have "bk_last_refill (refill_tokens now l b) = now" unfolding refill_tokens_def Let_def by (simp only: if_True Bucket.simps)
  then show ?thesis by (intro refill_now) simp
next
  case False
  then have "refill_tokens now l b = b" unfolding refill_tokens_def Let_def by (simp only: if_False)
  moreover have "refill_tokens now l (b\<lparr>bk_tokens := x\<rparr>) = b\<lparr>bk_tokens := x\<rparr>"
  proof -
    have "bk_last_refill (b\<lparr>bk_tokens := x\<rparr>) = bk_last_refill b" by simp
    then show ?thesis using False unfolding refill_tokens_def Let_def by (simp only: if_False)
  qed
  ultimately show ?thesis by simp
qed

theorem rate_limit_decision:
  assumes "rl_ok l" "allow_request now key l = (ok, l')"
  shows "(ok \<longleftrightarrow> check_limit now key l)
    \<and> get_tokens now key l' = get_tokens now key l - (if ok then 1 else 0)
    \<and> (\<forall>k t. k \<noteq> key \<longrightarrow> get_tokens t k l' = get_tokens t k l)"
proof -
  define b where "b = refill_tokens now l (case map_of (rl_buckets l) key of
      None \<Rightarrow> Bucket_new now (burst l) | Some b \<Rightarrow> b)"
  have new: "refill_tokens now l (Bucket_new now x) = Bucket_new now x" for x
    by (simp add: refill_tokens_def Bucket_new_def trunc_div_def)
  have get: "get_tokens now key l = bk_tokens b" and check: "check_limit now key l \<longleftrightarrow> 1 \<le> bk_tokens b"
    using assms(1) by (auto simp: get_tokens_def check_limit_def b_def new rl_ok_def split: option.splits)
      (simp_all add: Bucket_new_def)
  have l': "l' = l\<lparr>rl_buckets := AList.update key (if 1 \<le> bk_tokens b then b\<lparr>bk_tokens := bk_tokens b - 1\<rparr> else b) (rl_buckets l)\<rparr>"
    and ok: "ok \<longleftrightarrow> 1 \<le> bk_tokens b"
    using assms(2) unfolding allow_request_def Let_def b_def [symmetric] by (simp_all split: if_splits)
  have keep: "refill_tokens now l (b\<lparr>bk_tokens := x\<rparr>) = b\<lparr>bk_tokens := x\<rparr>" "refill_tokens now l b = b" for x
    using refill_take [where now = now and l = l and x = x and b = "case map_of (rl_buckets l) key of
        None \<Rightarrow> Bucket_new now (burst l) | Some b \<Rightarrow> b", folded b_def]
      refill_take [where now = now and l = l and x = "bk_tokens b" and b = "case map_of (rl_buckets l) key of
        None \<Rightarrow> Bucket_new now (burst l) | Some b \<Rightarrow> b", folded b_def] by simp_all
  have "get_tokens now key l' = bk_tokens b - (if ok then 1 else 0)"
    by (simp add: l' ok get_tokens_def map_simps keep)
  moreover have "get_tokens t k l' = get_tokens t k l" if "k \<noteq> key" for t k
    using that by (simp add: l' get_tokens_def map_simps split: option.splits)
  ultimately show ?thesis by (simp add: ok check get)
qed

section \<open>Witnesses\<close>

definition sample_limiter :: RateLimiter where
  "sample_limiter = RateLimiter_new 2 3"

lemma sample_limiter_ok: "rl_ok sample_limiter" "rl_buckets sample_limiter = []" "rl_burst_capacity sample_limiter = 3"
  "rl_requests_per_second sample_limiter = 2"
  by (simp_all add: sample_limiter_def RateLimiter_new_def rl_ok_def)


lemma rate_limit_decision_witness:
  "fst (allow_request 5 ''a'' sample_limiter) \<and> get_tokens 5 ''a'' (snd (allow_request 5 ''a'' sample_limiter)) = 2"
  using rate_limit_decision [OF sample_limiter_ok(1), of 5 "''a''"] sample_limiter_ok
  by (cases "allow_request 5 ''a'' sample_limiter") (auto simp: check_limit_def get_tokens_def)

end
