(* ===== verification/Router.thy ===== *)
theory Router
  imports Http_Text
begin

text \<open>
  \<open>src/api/router.{h,cpp}\<close>: the router of the management API. The regular expression compiled from a
  route pattern is a list of pieces, the literal text between parameters (taken as plain text: the
  patterns of the API hold no metacharacters) and the group \<open>([^/]+)\<close> of each parameter; the group
  is matched as \<open>std::regex_match\<close> does, longest first. A handler works on the state \<open>'s\<close> of its
  component and may throw.
\<close>

section \<open>Requests, responses and routes\<close>

record HttpRequest =
  rt_method :: string
  rt_path :: string
  rt_query_string :: string
  rt_headers :: "(string, string) umap"
  rt_path_params :: "(string, string) umap"
  rt_body :: string
  rt_remote_ip :: string

record HttpResponse =
  rs_status_code :: int
  rs_headers :: "(string, string) umap"
  rs_body :: string

definition HttpResponse_new :: HttpResponse where
  "HttpResponse_new = \<lparr>rs_status_code = 200, rs_headers = [], rs_body = ''''\<rparr>"

definition set_json :: "string \<Rightarrow> HttpResponse \<Rightarrow> HttpResponse" where
  "set_json json_body r = r\<lparr>rs_body := json_body,
     rs_headers := AList.update ''Content-Length'' (nat_string (length json_body))
       (AList.update ''Content-Type'' ''application/json'' (rs_headers r))\<rparr>"

abbreviation quote :: string where
  "quote \<equiv> [CHR 0x22]"

text \<open>The message is put between quotes as it is.\<close>

definition set_error :: "int \<Rightarrow> string \<Rightarrow> HttpResponse \<Rightarrow> HttpResponse" where
  "set_error code message r =
     set_json (''{'' @ quote @ ''error'' @ quote @ '':'' @ quote @ message @ quote @ ''}'') (r\<lparr>rs_status_code := code\<rparr>)"

datatype piece = Lit string | Group

type_synonym 's handler = "HttpRequest \<Rightarrow> HttpResponse \<Rightarrow> 's \<Rightarrow> cpp_error option \<times> HttpResponse \<times> 's"

record 's Route =
  ro_method :: string
  ro_pattern :: "piece list"
  ro_param_names :: "string list"
  ro_handler :: "'s handler"

section \<open>Patterns\<close>

lemma find_char_shorter: "find_char c s = Some n \<Longrightarrow> length (drop (Suc n) s) < length s"
  using find_char_le [of c s n] by simp

function compile_pattern :: "string \<Rightarrow> (piece list \<times> string list) result" where
  "compile_pattern s =
    (case find_char CHR ''{'' s of
       None \<Rightarrow> Inr (if s = '''' then [] else [Lit s], [])
     | Some start \<Rightarrow>
       (case find_char CHR ''}'' (drop start s) of
          None \<Rightarrow> Inl (Runtime_error ''Unclosed parameter in route pattern: '')
        | Some end \<Rightarrow> bind_result (compile_pattern (drop (start + end + 1) s)) (\<lambda>(ps, names).
            Inr (Lit (take start s) # Group # ps, take (end - 1) (drop (start + 1) s) # names))))"
  by pat_completeness auto
termination
proof (relation "measure length")
  fix s start "end" assume "find_char CHR ''{'' s = Some start" "find_char CHR ''}'' (drop start s) = Some end"
  then have "start < length s" by (rule_tac find_char_le)
  then show "(drop (start + end + 1) s, s) \<in> measure length" by simp
qed simp

declare compile_pattern.simps [simp del]

text \<open>The first run of characters other than a slash.\<close>

definition segment :: "string \<Rightarrow> string" where
  "segment s = takeWhile (\<lambda>c. c \<noteq> CHR ''/'') s"

fun first_some :: "(nat \<Rightarrow> 'a option) \<Rightarrow> nat \<Rightarrow> 'a option" where
  "first_some f 0 = None"
| "first_some f (Suc n) = (case f (Suc n) of Some x \<Rightarrow> Some x | None \<Rightarrow> first_some f n)"

text \<open>The groups of a match of the whole string.\<close>

fun regex_match :: "piece list \<Rightarrow> string \<Rightarrow> string list option" where
  "regex_match [] s = (if s = '''' then Some [] else None)"
| "regex_match (Lit l # ps) s = (if starts_with l s then regex_match ps (drop (length l) s) else None)"
| "regex_match (Group # ps) s =
     first_some (\<lambda>n. map_option (\<lambda>gs. take n s # gs) (regex_match ps (drop n s))) (length (segment s))"

definition extract_params :: "string list \<Rightarrow> string list \<Rightarrow> (string, string) umap" where
  "extract_params match param_names = foldl (\<lambda>m (n, v). AList.update n v m) [] (zip param_names match)"

section \<open>Routing\<close>

definition add_route :: "string \<Rightarrow> string \<Rightarrow> 's handler \<Rightarrow> 's Route list \<Rightarrow> 's Route list result" where
  "add_route method pattern handler routes = bind_result (compile_pattern pattern) (\<lambda>(regex, params).
     Inr (routes @ [\<lparr>ro_method = method, ro_pattern = regex, ro_param_names = params, ro_handler = handler\<rparr>]))"

fun router_route :: "'s Route list \<Rightarrow> HttpRequest \<Rightarrow> HttpResponse \<Rightarrow> 's \<Rightarrow> bool \<times> HttpResponse \<times> 's" where
  "router_route [] request response s = (False, set_error 404 ''Not found'' response, s)"
| "router_route (r # rs) request response s =
    (if ro_method r \<noteq> rt_method request then router_route rs request response s
     else case regex_match (ro_pattern r) (rt_path request) of
       None \<Rightarrow> router_route rs request response s
     | Some match \<Rightarrow>
       (case ro_handler r (request\<lparr>rt_path_params := extract_params match (ro_param_names r)\<rparr>) response s of
          (None, response', s') \<Rightarrow> (True, response', s')
        | (Some e, response', s') \<Rightarrow> (True, set_error 500 ''Internal server error'' response', s')))"

section \<open>Text\<close>

definition trim_leading :: "string \<Rightarrow> string" where
  "trim_leading v = (let w = dropWhile (\<lambda>c. c \<in> set blanks) v in if w = '''' then v else w)"

definition api_header :: "(string, string) umap \<Rightarrow> string \<Rightarrow> (string, string) umap" where
  "api_header headers line = (case find_char CHR '':'' line of
     None \<Rightarrow> headers
   | Some colon \<Rightarrow> AList.update (take colon line) (trim_leading (drop (colon + 1) line)) headers)"

definition api_parse_request :: "string \<Rightarrow> string \<Rightarrow> HttpRequest" where
  "api_parse_request raw_request remote_ip =
    (let (line, s1) = (case getline (CHR 0x0A) raw_request of None \<Rightarrow> ('''', '''') | Some r \<Rightarrow> r);
         (rmethod, r1) = read_word (pop_cr line); (full_path, r2) = read_word r1;
         (lines, body) = header_lines s1
     in \<lparr>rt_method = rmethod,
         rt_path = (case find_char CHR ''?'' full_path of None \<Rightarrow> full_path | Some q \<Rightarrow> take q full_path),
         rt_query_string = (case find_char CHR ''?'' full_path of None \<Rightarrow> '''' | Some q \<Rightarrow> drop (q + 1) full_path),
         rt_headers = foldl api_header [] lines, rt_path_params = [], rt_body = body, rt_remote_ip = remote_ip\<rparr>)"

definition status_text :: "int \<Rightarrow> string" where
  "status_text code =
    (if code = 200 then ''OK'' else if code = 201 then ''Created'' else if code = 204 then ''No Content''
     else if code = 400 then ''Bad Request'' else if code = 401 then ''Unauthorized''
     else if code = 403 then ''Forbidden'' else if code = 404 then ''Not Found''
     else if code = 409 then ''Conflict'' else if code = 429 then ''Too Many Requests''
     else if code = 500 then ''Internal Server Error'' else if code = 503 then ''Service Unavailable''
     else ''Unknown'')"

definition serialize_response :: "(string \<times> string) list \<Rightarrow> HttpResponse \<Rightarrow> string" where
  "serialize_response walk r = ''HTTP/1.1 '' @ int_string (rs_status_code r) @ '' '' @ status_text (rs_status_code r)
     @ CRLF @ header_text walk @ CRLF @ rs_body r"

section \<open>What a pattern matches\<close>

lemma first_some_iff:
  "first_some f n = Some x \<longleftrightarrow> (\<exists>k. 1 \<le> k \<and> k \<le> n \<and> f k = Some x \<and> (\<forall>j. k < j \<longrightarrow> j \<le> n \<longrightarrow> f j = None))"
proof (induction n)
  case (Suc n)
  show ?case
  proof (cases "f (Suc n)")
    case None
    then have "(\<exists>k. 1 \<le> k \<and> k \<le> Suc n \<and> f k = Some x \<and> (\<forall>j. k < j \<longrightarrow> j \<le> Suc n \<longrightarrow> f j = None))
        \<longleftrightarrow> (\<exists>k. 1 \<le> k \<and> k \<le> n \<and> f k = Some x \<and> (\<forall>j. k < j \<longrightarrow> j \<le> n \<longrightarrow> f j = None))"
      by (metis le_Suc_eq option.distinct(1))
    then show ?thesis using Suc None by simp
  next
    case (Some y)
    have "k = Suc n" if "k \<le> Suc n" "\<forall>j. k < j \<longrightarrow> j \<le> Suc n \<longrightarrow> f j = None" for k
      using that Some by (metis le_neq_implies_less le_refl option.distinct(1))
    moreover have "first_some f (Suc n) = Some y" using Some by simp
    ultimately show ?thesis using Some by (metis Suc_le_mono le0 One_nat_def le_refl not_le option.inject)
  qed
qed simp

lemma segment_append:
  "CHR ''/'' \<notin> set x \<Longrightarrow> b = '''' \<or> hd b = CHR ''/'' \<Longrightarrow> segment (x @ b) = x"
proof -
  assume x: "CHR ''/'' \<notin> set x" and b: "b = '''' \<or> hd b = CHR ''/''"
  have "takeWhile (\<lambda>c. c \<noteq> CHR ''/'') (x @ b) = x @ takeWhile (\<lambda>c. c \<noteq> CHR ''/'') b"
    using x by (intro takeWhile_append2) metis
  moreover have "takeWhile (\<lambda>c. c \<noteq> CHR ''/'') b = []" using b by (cases b) simp_all
  ultimately show ?thesis by (simp only: segment_def append_Nil2)
qed

lemma match_literal: "regex_match [Lit a] s = (if s = a then Some [] else None)"
proof (cases "starts_with a s")
  case True
  then obtain t where t: "s = a @ t" by (auto simp: starts_with_iff)
  show ?thesis unfolding t by simp
next
  case False
  then have "s \<noteq> a" by (auto simp: starts_with_def)
  then show ?thesis using False by simp
qed

lemma match_group_first:
  "regex_match [Group, Lit b] s
    = first_some (\<lambda>n. if drop n s = b then Some [take n s] else None) (length (segment s))"
proof -
  have "(\<lambda>n. map_option (\<lambda>gs. take n s # gs) (regex_match [Lit b] (drop n s)))
      = (\<lambda>n. if drop n s = b then Some [take n s] else None)"
    unfolding match_literal by (auto simp: fun_eq_iff)
  then show ?thesis by (simp only: regex_match.simps(3))
qed

text \<open>A parameter followed by the end or by a slash stands for exactly one segment of the path.\<close>

lemma match_group:
  assumes "b = '''' \<or> hd b = CHR ''/''"
  shows "regex_match [Group, Lit b] s = Some gs \<longleftrightarrow> (\<exists>x. gs = [x] \<and> s = x @ b \<and> x \<noteq> '''' \<and> CHR ''/'' \<notin> set x)"
proof
  assume "regex_match [Group, Lit b] s = Some gs"
  then obtain k where k: "1 \<le> k" "k \<le> length (segment s)"
      "(if drop k s = b then Some [take k s] else None) = Some gs"
    unfolding match_group_first first_some_iff by blast
  then have gs: "gs = [take k s]" and d: "drop k s = b" by (simp_all split: if_splits)
  have "segment s = take (length (segment s)) s" unfolding segment_def by (rule takeWhile_eq_take)
  then have "take k s = take k (segment s)" using k(2) by (metis min.absorb1 take_take)
  then have "set (take k s) \<subseteq> set (segment s)" using set_take_subset [of k "segment s"] by simp
  moreover have "CHR ''/'' \<notin> set (segment s)" unfolding segment_def using set_takeWhileD by fastforce
  ultimately have "CHR ''/'' \<notin> set (take k s)" by blast
  moreover have "length (segment s) \<le> length s" unfolding segment_def by (rule length_takeWhile_le)
  then have "length (take k s) = k" using k(2) by simp
  then have "take k s \<noteq> ''''" using k(1) by (metis list.size(3) not_one_le_zero)
  moreover have "s = take k s @ b" using d by (metis append_take_drop_id)
  ultimately show "\<exists>x. gs = [x] \<and> s = x @ b \<and> x \<noteq> '''' \<and> CHR ''/'' \<notin> set x" using gs by blast
next
  assume "\<exists>x. gs = [x] \<and> s = x @ b \<and> x \<noteq> '''' \<and> CHR ''/'' \<notin> set x"
  then obtain x where x: "gs = [x]" "s = x @ b" "x \<noteq> ''''" "CHR ''/'' \<notin> set x" by blast
  have "segment s = x" unfolding x(2) using x(4) assms by (rule segment_append)
  moreover have "1 \<le> length x" using x(3) by (cases x) simp_all
  ultimately have "1 \<le> length x \<and> length x \<le> length (segment s)
      \<and> (if drop (length x) s = b then Some [take (length x) s] else None) = Some gs
      \<and> (\<forall>j. length x < j \<longrightarrow> j \<le> length (segment s) \<longrightarrow> (if drop j s = b then Some [take j s] else None) = None)"
    using x(1,2) by simp
  then show "regex_match [Group, Lit b] s = Some gs"
    unfolding match_group_first first_some_iff by blast
qed

lemma match_one_parameter:
  assumes "b = '''' \<or> hd b = CHR ''/''"
  shows "regex_match [Lit a, Group, Lit b] s = Some gs
    \<longleftrightarrow> (\<exists>x. gs = [x] \<and> s = a @ x @ b \<and> x \<noteq> '''' \<and> CHR ''/'' \<notin> set x)"
proof (cases "starts_with a s")
  case True
  then obtain t where "s = a @ t" by (auto simp: starts_with_iff)
  then show ?thesis using match_group [OF assms, of t gs] by simp
next
  case False
  then have "s \<noteq> a @ t" for t by (auto simp: starts_with_iff)
  then show ?thesis using False by simp
qed

lemma match_end: "regex_match [Lit a, Group] s = regex_match [Lit a, Group, Lit ''''] s"
  by (simp add: starts_with_def)

lemma match_id:
  assumes "x \<noteq> ''''" "CHR ''/'' \<notin> set x" "b = '''' \<or> hd b = CHR ''/''" "b' = '''' \<or> hd b' = CHR ''/''"
  shows "regex_match [Lit a, Group, Lit b] (a @ x @ b') = (if b = b' then Some [x] else None)"
proof (cases "b = b'")
  case True
  then show ?thesis using match_one_parameter [OF assms(3), of a "a @ x @ b'" "[x]"] assms(1,2) by simp
next
  case False
  have "regex_match [Lit a, Group, Lit b] (a @ x @ b') \<noteq> Some gs" for gs
  proof
    assume "regex_match [Lit a, Group, Lit b] (a @ x @ b') = Some gs"
    then obtain y where y: "x @ b' = y @ b" "CHR ''/'' \<notin> set y"
      unfolding match_one_parameter [OF assms(3)] by auto
    then have "x = y" using segment_append [OF assms(2,4)] segment_append [OF y(2) assms(3)] by metis
    then show False using y(1) False by simp
  qed
  then show ?thesis using False by (cases "regex_match [Lit a, Group, Lit b] (a @ x @ b')") simp_all
qed

end
