(* ===== verification/Metrics.thy ===== *)
theory Metrics
  imports Tunnel_Model
begin

text \<open>
  \<open>src/observability/metrics.{h,cpp}\<close> and \<open>src/server/health_handler.{h,cpp}\<close>: counters, latencies and their
  exports, and the health page made of them. Counters are 64-bit words and wrap; what the code
  computes in \<open>double\<close> is an exact rational here, rounding left out, and its printing with two
  decimals is the argument \<open>fixed\<close>. Every operation is one step: the locks protect single tables.
\<close>

section \<open>State\<close>

record Metrics =
  mt_start_time :: int
  mt_active_tunnels :: "(string, int) umap"
  mt_active_http :: "(string, int) umap"
  mt_total_http_requests :: u64
  mt_http_errors :: u64
  mt_http_bytes_sent :: u64
  mt_http_bytes_received :: u64
  mt_active_tcp :: "(string, int) umap"
  mt_total_tcp_connections :: u64
  mt_tcp_errors :: u64
  mt_tcp_bytes_sent :: u64
  mt_tcp_bytes_received :: u64
  mt_latency_samples :: "(string, rat list) umap"

record LatencyStats =
  p50_ms :: rat
  p95_ms :: rat
  p99_ms :: rat
  mean_ms :: rat
  max_ms :: rat

record ThroughputStats =
  ts_bytes_sent :: u64
  ts_bytes_received :: u64
  ts_total_bytes :: u64
  ts_bytes_per_second :: rat

record ConnectionStats =
  cs_active_tunnels :: u32
  cs_active_http_connections :: u32
  cs_active_tcp_connections :: u32
  cs_total_http_requests :: u64
  cs_total_tcp_connections :: u64
  cs_http_errors :: u64
  cs_tcp_errors :: u64

definition Metrics_reset :: "int \<Rightarrow> Metrics" where
  "Metrics_reset now = \<lparr>mt_start_time = now, mt_active_tunnels = [], mt_active_http = [], mt_total_http_requests = 0,
     mt_http_errors = 0, mt_http_bytes_sent = 0, mt_http_bytes_received = 0, mt_active_tcp = [],
     mt_total_tcp_connections = 0, mt_tcp_errors = 0, mt_tcp_bytes_sent = 0, mt_tcp_bytes_received = 0,
     mt_latency_samples = []\<rparr>"

section \<open>Recording\<close>

definition tunnel_connected :: "int \<Rightarrow> string \<Rightarrow> Metrics \<Rightarrow> Metrics" where
  "tunnel_connected now tid m = m\<lparr>mt_active_tunnels := AList.update tid now (mt_active_tunnels m)\<rparr>"

definition tunnel_disconnected :: "string \<Rightarrow> Metrics \<Rightarrow> Metrics" where
  "tunnel_disconnected tid m = m\<lparr>mt_active_tunnels := AList.delete tid (mt_active_tunnels m)\<rparr>"

definition get_active_tunnel_count :: "Metrics \<Rightarrow> u32" where
  "get_active_tunnel_count m = of_nat (length (mt_active_tunnels m))"

definition max_latency_samples :: nat where
  "max_latency_samples = 1000"

definition record_latency :: "string \<Rightarrow> int \<Rightarrow> Metrics \<Rightarrow> Metrics" where
  "record_latency operation latency_us m =
    (let samples = (case map_of (mt_latency_samples m) operation of None \<Rightarrow> [] | Some ss \<Rightarrow> ss)
           @ [rat_of_int latency_us / 1000];
         kept = (if length samples > max_latency_samples
           then drop (length samples - max_latency_samples) samples else samples)
     in m\<lparr>mt_latency_samples := AList.update operation kept (mt_latency_samples m)\<rparr>)"

text \<open>Records how long ago \<open>start\<close> was, unless it is unknown or not after the epoch of the clock.\<close>

definition record_since :: "string \<Rightarrow> int \<Rightarrow> int option \<Rightarrow> Metrics \<Rightarrow> Metrics" where
  "record_since operation now start m = (case start of
     None \<Rightarrow> m
   | Some t \<Rightarrow> if t > 0 then record_latency operation (trunc_div (now - t) 1000) m else m)"

definition http_request_start :: "int \<Rightarrow> string \<Rightarrow> Metrics \<Rightarrow> Metrics" where
  "http_request_start now rid m = m\<lparr>mt_active_http := AList.update rid now (mt_active_http m),
     mt_total_http_requests := mt_total_http_requests m + 1\<rparr>"

definition http_request_complete :: "int \<Rightarrow> string \<Rightarrow> bool \<Rightarrow> Metrics \<Rightarrow> Metrics" where
  "http_request_complete now rid err m =
    (let start = map_of (mt_active_http m) rid;
         m1 = m\<lparr>mt_active_http := AList.delete rid (mt_active_http m)\<rparr>;
         m2 = (if err then m1\<lparr>mt_http_errors := mt_http_errors m1 + 1\<rparr> else m1)
     in record_since ''http_request'' now start m2)"

definition http_bytes_transferred :: "u64 \<Rightarrow> u64 \<Rightarrow> Metrics \<Rightarrow> Metrics" where
  "http_bytes_transferred sent received m = m\<lparr>mt_http_bytes_sent := mt_http_bytes_sent m + sent,
     mt_http_bytes_received := mt_http_bytes_received m + received\<rparr>"

definition tcp_connection_start :: "int \<Rightarrow> string \<Rightarrow> Metrics \<Rightarrow> Metrics" where
  "tcp_connection_start now cid m = m\<lparr>mt_active_tcp := AList.update cid now (mt_active_tcp m),
     mt_total_tcp_connections := mt_total_tcp_connections m + 1\<rparr>"

definition tcp_connection_complete :: "int \<Rightarrow> string \<Rightarrow> bool \<Rightarrow> Metrics \<Rightarrow> Metrics" where
  "tcp_connection_complete now cid err m =
    (let start = map_of (mt_active_tcp m) cid;
         m1 = m\<lparr>mt_active_tcp := AList.delete cid (mt_active_tcp m)\<rparr>;
         m2 = (if err then m1\<lparr>mt_tcp_errors := mt_tcp_errors m1 + 1\<rparr> else m1)
     in record_since ''tcp_connection'' now start m2)"

definition tcp_bytes_transferred :: "u64 \<Rightarrow> u64 \<Rightarrow> Metrics \<Rightarrow> Metrics" where
  "tcp_bytes_transferred sent received m = m\<lparr>mt_tcp_bytes_sent := mt_tcp_bytes_sent m + sent,
     mt_tcp_bytes_received := mt_tcp_bytes_received m + received\<rparr>"

section \<open>Statistics\<close>

definition get_connection_stats :: "Metrics \<Rightarrow> ConnectionStats" where
  "get_connection_stats m = \<lparr>cs_active_tunnels = get_active_tunnel_count m,
     cs_active_http_connections = of_nat (length (mt_active_http m)),
     cs_active_tcp_connections = of_nat (length (mt_active_tcp m)),
     cs_total_http_requests = mt_total_http_requests m, cs_total_tcp_connections = mt_total_tcp_connections m,
     cs_http_errors = mt_http_errors m, cs_tcp_errors = mt_tcp_errors m\<rparr>"

definition get_throughput_stats :: "int \<Rightarrow> Metrics \<Rightarrow> ThroughputStats" where
  "get_throughput_stats now m =
    (let sent = mt_http_bytes_sent m + mt_tcp_bytes_sent m;
         received = mt_http_bytes_received m + mt_tcp_bytes_received m;
         elapsed = trunc_div (now - mt_start_time m) 1000000000
     in \<lparr>ts_bytes_sent = sent, ts_bytes_received = received, ts_total_bytes = sent + received,
         ts_bytes_per_second = (if elapsed > 0 then rat_of_int (uint (sent + received)) / rat_of_int elapsed else 0)\<rparr>)"

definition LatencyStats_new :: LatencyStats where
  "LatencyStats_new = \<lparr>p50_ms = 0, p95_ms = 0, p99_ms = 0, mean_ms = 0, max_ms = 0\<rparr>"

definition calculate_latency_stats :: "rat list \<Rightarrow> LatencyStats" where
  "calculate_latency_stats samples =
    (if samples = [] then LatencyStats_new
     else let sorted_samples = sort samples; n = length samples
          in \<lparr>p50_ms = sorted_samples ! (n * 50 div 100), p95_ms = sorted_samples ! (n * 95 div 100),
              p99_ms = sorted_samples ! (n * 99 div 100),
              mean_ms = foldl (+) 0 samples / rat_of_nat n, max_ms = last sorted_samples\<rparr>)"

definition get_latency_stats :: "string \<Rightarrow> Metrics \<Rightarrow> LatencyStats" where
  "get_latency_stats operation m = (case map_of (mt_latency_samples m) operation of
     None \<Rightarrow> LatencyStats_new | Some samples \<Rightarrow> calculate_latency_stats samples)"

section \<open>Exports\<close>

abbreviation nl :: string where
  "nl \<equiv> [CHR 0x0A]"

definition prometheus_metric :: "string \<Rightarrow> string \<Rightarrow> string \<Rightarrow> string \<Rightarrow> string" where
  "prometheus_metric name help kind value =
     ''# HELP '' @ name @ '' '' @ help @ nl @ ''# TYPE '' @ name @ '' '' @ kind @ nl @ name @ '' '' @ value @ nl @ nl"

definition quantile_line :: "string \<Rightarrow> string \<Rightarrow> string" where
  "quantile_line q value = ''protogate_http_latency_milliseconds{quantile='' @ [CHR 0x22] @ q @ [CHR 0x22] @ ''} '' @ value @ nl"

definition export_prometheus :: "(rat \<Rightarrow> string) \<Rightarrow> int \<Rightarrow> Metrics \<Rightarrow> string" where
  "export_prometheus fixed now m =
    (let c = get_connection_stats m; t = get_throughput_stats now m; l = get_latency_stats ''http_request'' m
     in prometheus_metric ''protogate_active_tunnels'' ''Number of active tunnel connections'' ''gauge''
          (nat_string (unat (cs_active_tunnels c)))
      @ prometheus_metric ''protogate_active_http_connections'' ''Number of active HTTP connections'' ''gauge''
          (nat_string (unat (cs_active_http_connections c)))
      @ prometheus_metric ''protogate_active_tcp_connections'' ''Number of active TCP connections'' ''gauge''
          (nat_string (unat (cs_active_tcp_connections c)))
      @ prometheus_metric ''protogate_http_requests_total'' ''Total HTTP requests'' ''counter''
          (nat_string (unat (cs_total_http_requests c)))
      @ prometheus_metric ''protogate_http_errors_total'' ''Total HTTP errors'' ''counter''
          (nat_string (unat (cs_http_errors c)))
      @ prometheus_metric ''protogate_bytes_sent_total'' ''Total bytes sent'' ''counter''
          (nat_string (unat (ts_bytes_sent t)))
      @ prometheus_metric ''protogate_bytes_received_total'' ''Total bytes received'' ''counter''
          (nat_string (unat (ts_bytes_received t)))
      @ prometheus_metric ''protogate_throughput_bytes_per_second'' ''Current throughput in bytes per second'' ''gauge''
          (fixed (ts_bytes_per_second t))
      @ (if p50_ms l > 0 then
           ''# HELP protogate_http_latency_milliseconds HTTP request latency'' @ nl
         @ ''# TYPE protogate_http_latency_milliseconds summary'' @ nl
         @ quantile_line ''0.5'' (fixed (p50_ms l)) @ quantile_line ''0.95'' (fixed (p95_ms l))
         @ quantile_line ''0.99'' (fixed (p99_ms l)) @ nl else []))"

definition latency_json :: "LatencyStats \<Rightarrow> json" where
  "latency_json l = J_obj [(''p50_ms'', J_num (p50_ms l)), (''p95_ms'', J_num (p95_ms l)), (''p99_ms'', J_num (p99_ms l)),
     (''mean_ms'', J_num (mean_ms l)), (''max_ms'', J_num (max_ms l))]"

definition throughput_json :: "ThroughputStats \<Rightarrow> json" where
  "throughput_json t = J_obj [(''bytes_sent'', J_int (uint (ts_bytes_sent t))),
     (''bytes_received'', J_int (uint (ts_bytes_received t))), (''total_bytes'', J_int (uint (ts_total_bytes t))),
     (''bytes_per_second'', J_num (ts_bytes_per_second t))]"

definition export_json :: "int \<Rightarrow> Metrics \<Rightarrow> json" where
  "export_json now m =
    (let c = get_connection_stats m
     in J_obj [(''connections'', J_obj [(''active_tunnels'', J_int (uint (cs_active_tunnels c))),
            (''active_http_connections'', J_int (uint (cs_active_http_connections c))),
            (''active_tcp_connections'', J_int (uint (cs_active_tcp_connections c))),
            (''total_http_requests'', J_int (uint (cs_total_http_requests c))),
            (''total_tcp_connections'', J_int (uint (cs_total_tcp_connections c))),
            (''http_errors'', J_int (uint (cs_http_errors c))), (''tcp_errors'', J_int (uint (cs_tcp_errors c)))]),
          (''throughput'', throughput_json (get_throughput_stats now m)),
          (''latency'', J_obj [(''http_request'', latency_json (get_latency_stats ''http_request'' m)),
            (''tcp_connection'', latency_json (get_latency_stats ''tcp_connection'' m))])])"

text \<open>
  The batch for Azure Monitor and the header that would authorise it. The upload itself is not
  written yet: the code only logs. \<open>hmac key text\<close> is the signature, \<open>None\<close> where the key is no base64.
\<close>

definition azure_metric :: "string \<Rightarrow> string \<Rightarrow> json \<Rightarrow> json" where
  "azure_metric date name value = J_obj [(''time'', J_str date), (''data'', J_obj [(''baseData'', J_obj
     [(''metric'', J_str name), (''namespace'', J_str ''ProtoGate''), (''dimNames'', J_arr []),
      (''series'', J_arr [J_obj [(''dimValues'', J_arr []), (''min'', value), (''max'', value), (''sum'', value),
        (''count'', J_int 1)]])])])]"

definition azure_batch :: "string \<Rightarrow> int \<Rightarrow> Metrics \<Rightarrow> json" where
  "azure_batch date now m =
    (let c = get_connection_stats m; t = get_throughput_stats now m; l = get_latency_stats ''http_request'' m
     in J_arr ([azure_metric date ''protogate_active_tunnels'' (J_int (uint (cs_active_tunnels c))),
                azure_metric date ''protogate_http_requests_total'' (J_int (uint (cs_total_http_requests c)))]
             @ (if p95_ms l > 0 then [azure_metric date ''protogate_http_latency_p95_ms'' (J_num (p95_ms l))] else [])
             @ [azure_metric date ''protogate_bytes_per_second'' (J_num (ts_bytes_per_second t))]))"

definition export_azure_monitor ::
  "(json \<Rightarrow> string) \<Rightarrow> (string \<Rightarrow> string \<Rightarrow> string option) \<Rightarrow> string \<Rightarrow> int \<Rightarrow> string \<Rightarrow> string \<Rightarrow> Metrics
   \<Rightarrow> string option" where
  "export_azure_monitor dump hmac date now workspace_id workspace_key m =
    (let json_body = dump (azure_batch date now m);
         signature_string = ''POST'' @ nl @ nat_string (length json_body) @ nl @ ''application/json'' @ nl
           @ ''x-ms-date:'' @ date @ nl @ ''/api/logs''
     in map_option (\<lambda>signature. ''SharedKey '' @ workspace_id @ '':'' @ signature) (hmac workspace_key signature_string))"

section \<open>Health\<close>

datatype HealthStatus = HEALTHY | DEGRADED | UNHEALTHY

definition memory_limit :: int where
  "memory_limit = 512 * 1024 * 1024"

text \<open>\<open>rss\<close> is what \<open>getrusage\<close> gives, \<open>None\<close> when it fails.\<close>

definition is_degraded :: "int option \<Rightarrow> Metrics \<Rightarrow> bool" where
  "is_degraded rss m =
    (let c = get_connection_stats m; total_requests = cs_total_http_requests c
     in if total_requests > 100
          \<and> rat_of_int (uint (cs_http_errors c)) / rat_of_int (uint total_requests) > 5 / 100 then True
        else case rss of Some r \<Rightarrow> r > memory_limit | None \<Rightarrow> False)"

definition get_health_status :: "int option \<Rightarrow> Metrics \<Rightarrow> HealthStatus" where
  "get_health_status rss m = (if is_degraded rss m then DEGRADED else HEALTHY)"

definition get_http_status_code :: "int option \<Rightarrow> Metrics \<Rightarrow> int" where
  "get_http_status_code rss m = (if get_health_status rss m = HEALTHY then 200 else 503)"

text \<open>
  \<open>rss_field\<close> is the value of the field \<open>ru_maxrss\<close>, which is read by the memory check even when
  \<open>getrusage\<close> has failed and not set it.
\<close>

definition get_health_json :: "int \<Rightarrow> int \<Rightarrow> int option \<Rightarrow> int \<Rightarrow> Metrics \<Rightarrow> json" where
  "get_health_json now_ms now rss rss_field m =
    (let c = get_connection_stats m; t = get_throughput_stats now m; total = cs_total_http_requests c;
         error_rate = (if total > 0 then rat_of_int (uint (cs_http_errors c)) / rat_of_int (uint total) else 0);
         status = (case get_health_status rss m of HEALTHY \<Rightarrow> ''healthy'' | DEGRADED \<Rightarrow> ''degraded'' | UNHEALTHY \<Rightarrow> ''unhealthy'')
     in J_obj ([(''status'', J_str status), (''timestamp'', J_int now_ms), (''service'', J_str ''protogate''),
          (''version'', J_str ''1.0.0''),
          (''metrics'', J_obj [(''active_tunnels'', J_int (uint (get_active_tunnel_count m))),
             (''active_http_connections'', J_int (uint (cs_active_http_connections c))),
             (''active_tcp_connections'', J_int (uint (cs_active_tcp_connections c))),
             (''total_http_requests'', J_int (uint (cs_total_http_requests c))),
             (''total_tcp_connections'', J_int (uint (cs_total_tcp_connections c))),
             (''http_errors'', J_int (uint (cs_http_errors c))), (''tcp_errors'', J_int (uint (cs_tcp_errors c))),
             (''bytes_sent'', J_int (uint (ts_bytes_sent t))), (''bytes_received'', J_int (uint (ts_bytes_received t)))])]
        @ (case rss of None \<Rightarrow> [] | Some r \<Rightarrow> [(''memory'', J_obj [(''rss_kb'', J_int (trunc_div r 1024))])])
        @ [(''checks'', J_obj
            [(''memory'', if rss_field > memory_limit
               then J_obj [(''status'', J_str ''warning''), (''message'', J_str ''Memory usage approaching limit'')]
               else J_obj [(''status'', J_str ''pass''), (''message'', J_str ''Memory usage normal'')]),
             (''error_rate'', if error_rate > 5 / 100
               then J_obj [(''status'', J_str ''warning''), (''message'', J_str ''High error rate detected''), (''rate'', J_num error_rate)]
               else J_obj [(''status'', J_str ''pass''), (''message'', J_str ''Error rate normal''), (''rate'', J_num error_rate)])])]))"

section \<open>The health server\<close>

text \<open>\<open>src/server/health_server.{h,cpp}\<close>: every connection that sends an empty line gets the same answer.\<close>

datatype hl_action = Hl_accept | Hl_response string

record HealthServer =
  hl_port :: u16
  hl_running :: bool
  hl_actions :: "hl_action list"

definition HealthServer_new :: "u16 \<Rightarrow> HealthServer" where
  "HealthServer_new port = \<lparr>hl_port = port, hl_running = False, hl_actions = []\<rparr>"

definition hl_act :: "hl_action \<Rightarrow> HealthServer \<Rightarrow> HealthServer" where
  "hl_act a s = s\<lparr>hl_actions := hl_actions s @ [a]\<rparr>"

definition hl_start :: "bool \<Rightarrow> HealthServer \<Rightarrow> HealthServer result" where
  "hl_start binds s = (if hl_running s then Inr s else if \<not> binds then Inl (Runtime_error ''bind'')
     else Inr (hl_act Hl_accept (s\<lparr>hl_running := True\<rparr>)))"

definition hl_stop :: "HealthServer \<Rightarrow> HealthServer" where
  "hl_stop s = (if \<not> hl_running s then s else s\<lparr>hl_running := False\<rparr>)"

definition health_answer :: "string \<Rightarrow> int \<Rightarrow> string" where
  "health_answer health_json status_code =
     ''HTTP/1.1 '' @ int_string status_code @ '' '' @ (if status_code = 200 then ''OK'' else ''Service Unavailable'')
     @ [CHR 0x0D, CHR 0x0A] @ ''Content-Type: application/json'' @ [CHR 0x0D, CHR 0x0A]
     @ ''Content-Length: '' @ nat_string (length health_json) @ [CHR 0x0D, CHR 0x0A]
     @ ''Connection: close'' @ [CHR 0x0D, CHR 0x0A, CHR 0x0D, CHR 0x0A] @ health_json"

text \<open>\<open>reads\<close>: the empty line was read. The read is synchronous, on a thread of the pool.\<close>

definition hl_handle_connection :: "string \<Rightarrow> int \<Rightarrow> bool \<Rightarrow> HealthServer \<Rightarrow> HealthServer" where
  "hl_handle_connection health_json status_code reads s =
    (if reads then hl_act (Hl_response (health_answer health_json status_code)) s else s)"

definition hl_on_accept :: "string \<Rightarrow> int \<Rightarrow> bool \<Rightarrow> bool \<Rightarrow> HealthServer \<Rightarrow> HealthServer" where
  "hl_on_accept health_json status_code ok reads s =
    (let s1 = (if ok \<and> hl_running s then hl_handle_connection health_json status_code reads s else s)
     in if hl_running s1 then hl_act Hl_accept s1 else s1)"

section \<open>Percentiles\<close>

lemma percentile_index: "0 < n \<Longrightarrow> q < 100 \<Longrightarrow> n * q div 100 < (n :: nat)"
proof -
  assume "0 < n" "q < 100"
  then have "n * q < n * 100" by (intro mult_strict_left_mono)
  then show ?thesis by (simp add: div_less_iff_less_mult)
qed

lemma foldl_plus_sum_list: "foldl (+) a (xs :: rat list) = a + sum_list xs"
  by (induction xs arbitrary: a) (simp_all add: algebra_simps)


text \<open>The samples kept are the last 1000 that were recorded.\<close>

lemma record_latency_samples:
  "map_of (mt_latency_samples (record_latency op us m)) op
    = (let ss = (case map_of (mt_latency_samples m) op of None \<Rightarrow> [] | Some ss \<Rightarrow> ss) @ [rat_of_int us / 1000]
       in Some (drop (length ss - max_latency_samples) ss))"
  by (simp add: record_latency_def Let_def map_simps)

theorem latency_window:
  assumes "map_of (mt_latency_samples m) op = None" "uss \<noteq> []"
    and "xs = map (\<lambda>us. rat_of_int us / 1000) uss"
  shows "map_of (mt_latency_samples (foldl (\<lambda>m us. record_latency op us m) m uss)) op = Some (drop (length xs - 1000) xs)"
  using assms(2,3)
proof (induction uss arbitrary: xs rule: rev_nonempty_induct)
  case (single u)
  then show ?case using assms(1) by (simp add: record_latency_samples Let_def max_latency_samples_def)
next
  case (snoc u uss)
  note IH = snoc.IH [OF refl]
  have n: "length uss - (length uss - 1000 + 999) + (length uss - 1000) = length uss - 999" by arith
  show ?case using IH unfolding snoc.prems foldl_append
    by (simp add: record_latency_samples Let_def max_latency_samples_def n)
qed

section \<open>Counters\<close>

datatype mt_event = Http_start string | Http_complete string bool

fun mt_step :: "Metrics \<Rightarrow> int \<times> mt_event \<Rightarrow> Metrics" where
  "mt_step m (now, Http_start rid) = http_request_start now rid m"
| "mt_step m (now, Http_complete rid err) = http_request_complete now rid err m"

lemma record_since_frame [simp]:
  "mt_total_http_requests (record_since op now st m) = mt_total_http_requests m"
  "mt_http_errors (record_since op now st m) = mt_http_errors m"
  "mt_active_http (record_since op now st m) = mt_active_http m"
  by (simp_all add: record_since_def record_latency_def Let_def split: option.splits)

definition started :: "string \<Rightarrow> (int \<times> mt_event) list \<Rightarrow> bool" where
  "started rid evs = foldl (\<lambda>b (now, e). case e of Http_start r \<Rightarrow> b \<or> r = rid | Http_complete r err \<Rightarrow> b \<and> r \<noteq> rid) False evs"

text \<open>
  The counters are exact, modulo \<open>2^64\<close>, over any sequence of starts and completions, unmatched ones
  included, and a request is active exactly when it has been started since it was last completed.
\<close>

theorem metrics_counters:
  assumes "m = foldl mt_step (Metrics_reset t0) evs"
  shows "mt_total_http_requests m = of_nat (length (filter (\<lambda>(t, e). \<exists>r. e = Http_start r) evs))
    \<and> mt_http_errors m = of_nat (length (filter (\<lambda>(t, e). \<exists>r. e = Http_complete r True) evs))
    \<and> umap_wf (mt_active_http m) \<and> (rid \<in> keys_of (mt_active_http m) \<longleftrightarrow> started rid evs)"
  unfolding assms
proof (induction evs rule: rev_induct)
  case Nil
  then show ?case by (simp add: Metrics_reset_def started_def)
next
  case (snoc ev evs)
  obtain t e where ev: "ev = (t, e)" by (cases ev)
  show ?case
  proof (cases e)
    case (Http_start r)
    then show ?thesis using snoc by (auto simp: ev http_request_start_def started_def map_simps)
  next
    case (Http_complete r err)
    then show ?thesis using snoc
      by (auto simp: ev http_request_complete_def started_def map_simps Let_def)
  qed
qed

text \<open>
  The service is reported healthy exactly when there have been at most 100 requests or at most one
  in twenty failed, and the memory field is within the limit.
\<close>

theorem health_decision:
  "get_http_status_code rss m = 200 \<longleftrightarrow>
    (mt_total_http_requests m \<le> 100 \<or> 20 * unat (mt_http_errors m) \<le> unat (mt_total_http_requests m))
    \<and> (case rss of None \<Rightarrow> True | Some r \<Rightarrow> r \<le> 536870912)"
proof -
  have "rat_of_int (uint e) / rat_of_int (uint n) > 5 / 100 \<longleftrightarrow> 20 * unat e > unat n" if "n > 100" for e n :: u64
  proof -
    have "(0 :: int) < uint n" using that by (simp add: word_less_def)
    then have p: "(0 :: rat) < rat_of_int (uint n)" by (simp only: of_int_0_less_iff)
    have "rat_of_int (uint e) / rat_of_int (uint n) > 5 / 100 \<longleftrightarrow> rat_of_int (uint n) < 20 * rat_of_int (uint e)"
      unfolding pos_less_divide_eq [OF p] by linarith
    also have "\<dots> \<longleftrightarrow> uint n < 20 * uint e"
      by (metis of_int_less_iff of_int_mult of_int_numeral)
    also have "\<dots> \<longleftrightarrow> int (unat n) < int (20 * unat e)" unfolding uint_nat of_nat_mult of_nat_numeral ..
    also have "\<dots> \<longleftrightarrow> unat n < 20 * unat e" by (rule of_nat_less_iff)
    finally show ?thesis .
  qed
  note rate = this [of "mt_total_http_requests m" "mt_http_errors m"]
  have "is_degraded rss m \<longleftrightarrow> (mt_total_http_requests m > 100
        \<and> rat_of_int (uint (mt_http_errors m)) / rat_of_int (uint (mt_total_http_requests m)) > 5 / 100)
      \<or> (case rss of None \<Rightarrow> False | Some r \<Rightarrow> r > memory_limit)"
    unfolding is_degraded_def get_connection_stats_def Let_def ConnectionStats.select_convs by (simp only: if_bool_eq_disj) blast
  then have d: "is_degraded rss m \<longleftrightarrow> (mt_total_http_requests m > 100
        \<and> 20 * unat (mt_http_errors m) > unat (mt_total_http_requests m))
      \<or> (case rss of None \<Rightarrow> False | Some r \<Rightarrow> r > memory_limit)"
    using rate by blast
  have lim: "memory_limit = 536870912" by (simp add: memory_limit_def)
  have "get_http_status_code rss m = 200 \<longleftrightarrow> \<not> is_degraded rss m"
    by (cases "is_degraded rss m") (simp_all add: get_http_status_code_def get_health_status_def)
  also have "\<dots> \<longleftrightarrow> (mt_total_http_requests m \<le> 100 \<or> 20 * unat (mt_http_errors m) \<le> unat (mt_total_http_requests m))
      \<and> \<not> (case rss of None \<Rightarrow> False | Some r \<Rightarrow> r > memory_limit)"
    unfolding d by (simp only: de_Morgan_disj de_Morgan_conj not_less)
  also have "(\<not> (case rss of None \<Rightarrow> False | Some r \<Rightarrow> r > memory_limit)) \<longleftrightarrow> (case rss of None \<Rightarrow> True | Some r \<Rightarrow> r \<le> 536870912)"
    unfolding lim by (cases rss) (simp_all only: option.case not_less simp_thms)
  finally show ?thesis .
qed

section \<open>Witnesses\<close>


lemma latency_window_witness:
  "map_of (mt_latency_samples (foldl (\<lambda>m us. record_latency ''x'' us m) (Metrics_reset 0) [1500, 500])) ''x''
    = Some [3 / 2, 1 / 2]"
  using latency_window [of "Metrics_reset 0" "''x''" "[1500, 500]", OF _ _ refl] by (simp add: Metrics_reset_def)

lemma metrics_counters_witness:
  "mt_total_http_requests (foldl mt_step (Metrics_reset 0) [(1, Http_start ''a''), (2, Http_complete ''a'' True)]) = 1
   \<and> mt_http_errors (foldl mt_step (Metrics_reset 0) [(1, Http_start ''a''), (2, Http_complete ''a'' True)]) = 1"
  using metrics_counters [OF refl, of 0 "[(1, Http_start ''a''), (2, Http_complete ''a'' True)]"] by simp

lemma health_decision_witness:
  "get_http_status_code (Some 5) ((Metrics_reset 0)\<lparr>mt_total_http_requests := 1000, mt_http_errors := 50\<rparr>) = 200
   \<and> get_http_status_code None ((Metrics_reset 0)\<lparr>mt_total_http_requests := 1000, mt_http_errors := 51\<rparr>) \<noteq> 200"
  using health_decision [of "Some 5" "(Metrics_reset 0)\<lparr>mt_total_http_requests := 1000, mt_http_errors := 50\<rparr>"]
    health_decision [of None "(Metrics_reset 0)\<lparr>mt_total_http_requests := 1000, mt_http_errors := 51\<rparr>"]
  by simp

end
