(* ===== verification/Tunnels_Api.thy ===== *)
theory Tunnels_Api
  imports Router Token_Validator Agent_Registry Ip_Allowlist Metrics
begin

text \<open>
  \<open>src/api/tunnels_handler.{h,cpp}\<close>: the management API. The state is what the handlers share with the
  server: the caches of tunnels and tokens, the registry and the connections of the agents. The
  record \<open>ApiEnv\<close> holds what comes from outside: printing and parsing of JSON, SHA-256, the clocks,
  the order in which a cache is walked, the random numbers, the uninitialised rate limit of a new
  tunnel, and the measurements. Calls to the key vault, whose failure is only logged, are actions.
\<close>

section \<open>State and environment\<close>

datatype api_action =
  Kv_set_secret string string
| Kv_delete_secret string

record Api =
  api_tunnels :: "(string, Tunnel) Cache"
  api_tokens :: token_cache
  api_registry :: AgentRegistry
  api_conns :: "AgentConnection list"
  api_actions :: "api_action list"

record ApiEnv =
  env_dump :: "json \<Rightarrow> string"
  env_parse :: "string \<Rightarrow> json option"
  env_sha :: "string \<Rightarrow> bytes"
  env_steady :: int
  env_now :: int
  env_walk :: "string list"
  env_random :: "u64 list"
  env_garbage :: u32
  env_pretty :: "json \<Rightarrow> string"
  env_metrics :: Metrics

definition api_act :: "api_action \<Rightarrow> Api \<Rightarrow> Api" where
  "api_act a s = s\<lparr>api_actions := api_actions s @ [a]\<rparr>"

section \<open>Helpers\<close>

definition generate_token :: "u64 list \<Rightarrow> string" where
  "generate_token random_values = concat (map hex16 random_values)"

definition is_alnum :: "char \<Rightarrow> bool" where
  "is_alnum c \<longleftrightarrow> (let n = of_char c :: nat
     in (48 \<le> n \<and> n \<le> 57) \<or> (65 \<le> n \<and> n \<le> 90) \<or> (97 \<le> n \<and> n \<le> 122))"

definition validate_tunnel_config :: "Tunnel \<Rightarrow> string option" where
  "validate_tunnel_config t =
    (if tunnel_id t = '''' then Some ''tunnel_id is required''
     else if target_host t = '''' then Some ''target_host is required''
     else if target_port t = 0 then Some ''target_port must be between 1 and 65535''
     else if \<not> list_all (\<lambda>c. is_alnum c \<or> c = CHR ''-'' \<or> c = CHR ''_'') (tunnel_id t)
     then Some ''tunnel_id can only contain alphanumeric characters, hyphens, and underscores''
     else None)"

definition to_s :: "int \<Rightarrow> int" where
  "to_s t = trunc_div t 1000000000"

definition tunnel_to_json :: "Tunnel \<Rightarrow> json" where
  "tunnel_to_json t =
     jset ''updated_at'' (J_int (to_s (updated_at t)))
    (jset ''created_at'' (J_int (to_s (created_at t)))
    (jset ''ip_allowlist'' (J_arr (map J_str (ip_allowlist t)))
    (jset ''status'' (J_str (if status t = ACTIVE then ''ACTIVE'' else ''INACTIVE''))
    (jset ''protocol'' (J_str (if protocol t = HTTP then ''HTTP'' else ''TCP''))
    (jset ''target_port'' (J_int (uint (target_port t)))
    (jset ''target_host'' (J_str (target_host t))
    (jset ''tunnel_id'' (J_str (tunnel_id t)) J_null)))))))"

definition tunnels_list_to_json :: "Tunnel list \<Rightarrow> json" where
  "tunnels_list_to_json ts = J_arr (map tunnel_to_json ts)"

text \<open>\<open>body.value(key, default)\<close>\<close>

definition value_string :: "string \<Rightarrow> string \<Rightarrow> json \<Rightarrow> string result" where
  "value_string key dflt j = (case j of
     J_obj m \<Rightarrow> (case map_of m key of None \<Rightarrow> Inr dflt | Some v \<Rightarrow> json_string v)
   | _ \<Rightarrow> Inl type_error)"

definition value_int :: "string \<Rightarrow> int \<Rightarrow> json \<Rightarrow> int result" where
  "value_int key dflt j = (case j of
     J_obj m \<Rightarrow> (case map_of m key of None \<Rightarrow> Inr dflt | Some v \<Rightarrow> json_arith v)
   | _ \<Rightarrow> Inl type_error)"

section \<open>Creating a tunnel\<close>

text \<open>The tunnel that a body describes, or the message of a 400 answer, or an exception.\<close>

definition tunnel_of_body :: "ApiEnv \<Rightarrow> json \<Rightarrow> (string + Tunnel) result" where
  "tunnel_of_body env body =
    bind_result (value_string ''tunnel_id'' '''' body) (\<lambda>tid.
    bind_result (value_string ''target_host'' '''' body) (\<lambda>host.
    bind_result (value_int ''target_port'' 0 body) (\<lambda>port.
    bind_result (value_string ''protocol'' ''HTTP'' body) (\<lambda>protocol_str.
      if protocol_str \<noteq> ''HTTP'' \<and> protocol_str \<noteq> ''TCP''
      then Inr (Inl ''Invalid protocol. Must be HTTP or TCP'')
      else bind_result (case jget ''ip_allowlist'' body of J_arr js \<Rightarrow> json_strings js | _ \<Rightarrow> Inr []) (\<lambda>allow.
        let t = \<lparr>tunnel_id = tid, protocol = (if protocol_str = ''HTTP'' then HTTP else TCP), target_host = host,
                 target_port = word_of_int port, ip_allowlist = allow, rate_limit_rpm = env_garbage env,
                 created_at = env_now env, updated_at = env_now env, status = ACTIVE\<rparr>
        in Inr (case validate_tunnel_config t of Some e \<Rightarrow> Inl e | None \<Rightarrow> Inr t))))))"

definition year :: int where
  "year = 24 * 365 * 3600"

definition api_token :: "ApiEnv \<Rightarrow> string \<Rightarrow> AuthToken" where
  "api_token env tid = \<lparr>at_tunnel_id = tid, at_token = '''',
     at_token_hash = compute_token_hash (env_sha env) (generate_token (env_random env)),
     at_created_at = env_now env, at_expires_at = env_now env + seconds year, at_is_active = True\<rparr>"

definition store_tunnel :: "ApiEnv \<Rightarrow> Tunnel \<Rightarrow> Api \<Rightarrow> Api" where
  "store_tunnel env t s =
    (let tid = tunnel_id t;
         s1 = s\<lparr>api_tokens := Cache_put_ttl (env_steady env) tid (api_token env tid) year (api_tokens s)\<rparr>;
         s2 = api_act (Kv_set_secret (''tunnel-token-'' @ tid) (generate_token (env_random env))) s1
     in s2\<lparr>api_tunnels := Cache_put_ttl (env_steady env) tid t year (api_tunnels s2)\<rparr>)"

definition created_json :: "ApiEnv \<Rightarrow> Tunnel \<Rightarrow> json" where
  "created_json env t =
     jset ''token_expires_at'' (J_int (to_s (at_expires_at (api_token env (tunnel_id t)))))
    (jset ''token'' (J_str (generate_token (env_random env))) (tunnel_to_json t))"

definition handle_create_tunnel :: "ApiEnv \<Rightarrow> Api handler" where
  "handle_create_tunnel env request response s = (None, case env_parse env (rt_body request) of
     None \<Rightarrow> (set_error 400 ''Invalid JSON in request body'' response, s)
   | Some body \<Rightarrow> (case tunnel_of_body env body of
       Inl e \<Rightarrow> (set_error 500 ''Internal server error'' response, s)
     | Inr (Inl message) \<Rightarrow> (set_error 400 message response, s)
     | Inr (Inr t) \<Rightarrow>
         if Cache_get (env_steady env) (tunnel_id t) (api_tunnels s) \<noteq> None
         then (set_error 409 ''Tunnel with this ID already exists'' response, s)
         else (set_json (env_dump env (created_json env t)) (response\<lparr>rs_status_code := 201\<rparr>),
               store_tunnel env t s)))"

section \<open>The other handlers\<close>

definition handle_list_tunnels :: "ApiEnv \<Rightarrow> Api handler" where
  "handle_list_tunnels env request response s =
    (let ts = Cache_for_each (env_steady env) (env_walk env) (\<lambda>ts k t. ts @ [t]) (api_tunnels s) []
     in (None, set_json (env_dump env (tunnels_list_to_json ts)) response, s))"

text \<open>\<open>request.path_params.at("id")\<close>, then the tunnel of that id or the answer 404.\<close>

definition with_tunnel ::
  "ApiEnv \<Rightarrow> HttpRequest \<Rightarrow> HttpResponse \<Rightarrow> Api \<Rightarrow> (string \<Rightarrow> Tunnel \<Rightarrow> cpp_error option \<times> HttpResponse \<times> Api)
   \<Rightarrow> cpp_error option \<times> HttpResponse \<times> Api" where
  "with_tunnel env request response s k = (case map_of (rt_path_params request) ''id'' of
     None \<Rightarrow> (Some (Out_of_range ''at''), response, s)
   | Some tid \<Rightarrow> (case Cache_get (env_steady env) tid (api_tunnels s) of
       None \<Rightarrow> (None, set_error 404 ''Tunnel not found'' response, s)
     | Some t \<Rightarrow> k tid t))"

definition handle_get_tunnel :: "ApiEnv \<Rightarrow> Api handler" where
  "handle_get_tunnel env request response s = with_tunnel env request response s (\<lambda>tid t.
     (None, set_json (env_dump env (tunnel_to_json t)) response, s))"

definition handle_delete_tunnel :: "ApiEnv \<Rightarrow> Api handler" where
  "handle_delete_tunnel env request response s = with_tunnel env request response s (\<lambda>tid t.
     (None, response\<lparr>rs_status_code := 204, rs_body := ''''\<rparr>,
      api_act (Kv_delete_secret (''tunnel-token-'' @ tid))
        (s\<lparr>api_registry := unregister_agent tid (api_registry s),
           api_tunnels := snd (Cache_remove tid (api_tunnels s)),
           api_tokens := snd (Cache_remove tid (api_tokens s))\<rparr>)))"

definition rotated_json :: "ApiEnv \<Rightarrow> string \<Rightarrow> json" where
  "rotated_json env tid =
     jset ''grace_period_seconds'' (J_int 300)
    (jset ''token_expires_at'' (J_int (to_s (at_expires_at (api_token env tid))))
    (jset ''token'' (J_str (generate_token (env_random env))) J_null))"

definition handle_rotate_token :: "ApiEnv \<Rightarrow> Api handler" where
  "handle_rotate_token env request response s = with_tunnel env request response s (\<lambda>tid t.
     case Cache_get (env_steady env) tid (api_tokens s) of
       None \<Rightarrow> (None, set_error 500 ''Token not found in cache'' response, s)
     | Some old \<Rightarrow>
       let c1 = Cache_put_ttl (env_steady env) tid (api_token env tid) year (api_tokens s);
           c2 = Cache_put_ttl (env_steady env) (tid @ '':old'') old 300 c1
       in (None, set_json (env_dump env (rotated_json env tid)) response,
           api_act (Kv_set_secret (''tunnel-token-'' @ tid) (generate_token (env_random env)))
             (s\<lparr>api_tokens := c2\<rparr>)))"

definition tunnel_metrics_json :: "int \<Rightarrow> string \<Rightarrow> Metrics \<Rightarrow> json" where
  "tunnel_metrics_json now tid m =
    (let c = get_connection_stats m;
         error_rate = (if cs_total_http_requests c > 0
           then rat_of_int (uint (cs_http_errors c)) / rat_of_int (uint (cs_total_http_requests c)) * 100 else 0)
     in jset ''error_rate_percent'' (J_num error_rate)
       (jset ''latency'' (J_obj [(''http_request'', latency_json (get_latency_stats ''http_request'' m)),
          (''tcp_connection'', latency_json (get_latency_stats ''tcp_connection'' m))])
       (jset ''throughput'' (throughput_json (get_throughput_stats now m))
       (jset ''connections'' (J_obj [(''active_http_connections'', J_int (uint (cs_active_http_connections c))),
          (''active_tcp_connections'', J_int (uint (cs_active_tcp_connections c))),
          (''total_http_requests'', J_int (uint (cs_total_http_requests c))),
          (''total_tcp_connections'', J_int (uint (cs_total_tcp_connections c))),
          (''http_errors'', J_int (uint (cs_http_errors c))), (''tcp_errors'', J_int (uint (cs_tcp_errors c)))])
       (jset ''tunnel_id'' (J_str tid) J_null)))))"

definition handle_get_tunnel_metrics :: "ApiEnv \<Rightarrow> Api handler" where
  "handle_get_tunnel_metrics env request response s = with_tunnel env request response s (\<lambda>tid t.
     (None, set_json (env_pretty env (tunnel_metrics_json (env_steady env) tid (env_metrics env))) response, s))"

definition agent_json :: "TunnelAgent \<Rightarrow> json" where
  "agent_json m =
     jset ''active_connections'' (J_int (int (ta_active_connections m)))
    (jset ''bytes_received'' (J_int (int (ta_bytes_received m)))
    (jset ''bytes_sent'' (J_int (int (ta_bytes_sent m)))
    (jset ''connected_at'' (J_int (to_s (ta_connected_at m)))
    (jset ''state'' (J_str (if ta_connected m then ''CONNECTED'' else ''DISCONNECTED''))
    (jset ''remote_port'' (J_int (uint (ta_remote_port m)))
    (jset ''remote_ip'' (J_str (ta_remote_ip m))
    (jset ''tunnel_id'' (J_str (ta_tunnel_id m))
    (jset ''agent_id'' (J_str (ta_agent_id m)) J_null))))))))"

definition handle_get_tunnel_agents :: "ApiEnv \<Rightarrow> Api handler" where
  "handle_get_tunnel_agents env request response s = with_tunnel env request response s (\<lambda>tid t.
     (None, set_json (env_dump env (J_arr (case get_agent tid (api_registry s) of
          None \<Rightarrow> [] | Some h \<Rightarrow> [agent_json (get_metadata (env_now env) (api_conns s ! h))]))) response, s))"

definition register_routes :: "ApiEnv \<Rightarrow> Api Route list result" where
  "register_routes env =
    bind_result (add_route ''POST'' ''/api/v1/tunnels'' (handle_create_tunnel env) [])
   (\<lambda>rs. bind_result (add_route ''GET'' ''/api/v1/tunnels'' (handle_list_tunnels env) rs)
   (\<lambda>rs. bind_result (add_route ''GET'' ''/api/v1/tunnels/{id}'' (handle_get_tunnel env) rs)
   (\<lambda>rs. bind_result (add_route ''DELETE'' ''/api/v1/tunnels/{id}'' (handle_delete_tunnel env) rs)
   (\<lambda>rs. bind_result (add_route ''POST'' ''/api/v1/tunnels/{id}/rotate-token'' (handle_rotate_token env) rs)
   (\<lambda>rs. bind_result (add_route ''GET'' ''/api/v1/tunnels/{id}/metrics'' (handle_get_tunnel_metrics env) rs)
   (\<lambda>rs. add_route ''GET'' ''/api/v1/tunnels/{id}/agents'' (handle_get_tunnel_agents env) rs))))))"

section \<open>Dispatch\<close>

definition route_prefix :: string where
  "route_prefix = ''/api/v1/tunnels/''"

lemma compiled_routes:
  "compile_pattern ''/api/v1/tunnels'' = Inr ([Lit ''/api/v1/tunnels''], [])"
  "compile_pattern ''/api/v1/tunnels/{id}'' = Inr ([Lit route_prefix, Group], [''id''])"
  "compile_pattern ''/api/v1/tunnels/{id}/rotate-token'' = Inr ([Lit route_prefix, Group, Lit ''/rotate-token''], [''id''])"
  "compile_pattern ''/api/v1/tunnels/{id}/metrics'' = Inr ([Lit route_prefix, Group, Lit ''/metrics''], [''id''])"
  "compile_pattern ''/api/v1/tunnels/{id}/agents'' = Inr ([Lit route_prefix, Group, Lit ''/agents''], [''id''])"
  by code_simp+

definition one_route :: "string \<Rightarrow> piece list \<Rightarrow> string list \<Rightarrow> Api handler \<Rightarrow> Api Route" where
  "one_route m ps names h = \<lparr>ro_method = m, ro_pattern = ps, ro_param_names = names, ro_handler = h\<rparr>"

lemma registered_routes: "register_routes env = Inr
  [one_route ''POST'' [Lit ''/api/v1/tunnels''] [] (handle_create_tunnel env),
   one_route ''GET'' [Lit ''/api/v1/tunnels''] [] (handle_list_tunnels env),
   one_route ''GET'' [Lit route_prefix, Group] [''id''] (handle_get_tunnel env),
   one_route ''DELETE'' [Lit route_prefix, Group] [''id''] (handle_delete_tunnel env),
   one_route ''POST'' [Lit route_prefix, Group, Lit ''/rotate-token''] [''id''] (handle_rotate_token env),
   one_route ''GET'' [Lit route_prefix, Group, Lit ''/metrics''] [''id''] (handle_get_tunnel_metrics env),
   one_route ''GET'' [Lit route_prefix, Group, Lit ''/agents''] [''id''] (handle_get_tunnel_agents env)]"
  by (simp add: register_routes_def add_route_def compiled_routes one_route_def)

lemma route_one:
  "router_route (one_route m ps names h # rs) request response s =
    (if m \<noteq> rt_method request \<or> regex_match ps (rt_path request) = None
     then router_route rs request response s
     else case h (request\<lparr>rt_path_params := extract_params (the (regex_match ps (rt_path request))) names\<rparr>) response s of
       (None, response', s') \<Rightarrow> (True, response', s')
     | (Some e, response', s') \<Rightarrow> (True, set_error 500 ''Internal server error'' response', s'))"
  by (auto simp: one_route_def split: option.splits prod.splits)

lemma path_matches:
  assumes "x \<noteq> ''''" "CHR ''/'' \<notin> set x" "b = '''' \<or> hd b = CHR ''/''"
  shows "regex_match [Lit ''/api/v1/tunnels''] (route_prefix @ x @ b) = None"
    and "regex_match [Lit route_prefix, Group] (route_prefix @ x @ b) = (if b = '''' then Some [x] else None)"
    and "c = '''' \<or> hd c = CHR ''/'' \<Longrightarrow>
      regex_match [Lit route_prefix, Group, Lit c] (route_prefix @ x @ b) = (if c = b then Some [x] else None)"
proof -
  show "regex_match [Lit ''/api/v1/tunnels''] (route_prefix @ x @ b) = None"
    unfolding match_literal by (simp add: route_prefix_def)
  show "c = '''' \<or> hd c = CHR ''/'' \<Longrightarrow>
      regex_match [Lit route_prefix, Group, Lit c] (route_prefix @ x @ b) = (if c = b then Some [x] else None)" for c
    using match_id [OF assms(1,2) _ assms(3)] by blast
  from this [of "''''"] show "regex_match [Lit route_prefix, Group] (route_prefix @ x @ b) = (if b = '''' then Some [x] else None)"
    unfolding match_end by auto
qed

text \<open>The answer of a handler, an exception being answered with 500.\<close>

definition handled :: "cpp_error option \<times> HttpResponse \<times> Api \<Rightarrow> bool \<times> HttpResponse \<times> Api" where
  "handled r = (case r of (None, response, s) \<Rightarrow> (True, response, s)
     | (Some e, response, s) \<Rightarrow> (True, set_error 500 ''Internal server error'' response, s))"

text \<open>
  Which handler a request reaches: an id is one segment of the path, whatever characters it has, and
  the paths under it belong to their own handlers. No other method reaches a handler.
\<close>

theorem api_dispatch:
  assumes "register_routes env = Inr routes" "x \<noteq> ''''" "CHR ''/'' \<notin> set x"
    and "r = (\<lambda>m p. \<lparr>rt_method = m, rt_path = p, rt_query_string = q, rt_headers = hs, rt_path_params = [],
                     rt_body = body, rt_remote_ip = ip\<rparr>)"
    and "rx = (\<lambda>m p. (r m p)\<lparr>rt_path_params := [(''id'', x)]\<rparr>)" "p = ''/api/v1/tunnels/'' @ x"
  shows "router_route routes (r ''GET'' p) response s = handled (handle_get_tunnel env (rx ''GET'' p) response s)
    \<and> router_route routes (r ''DELETE'' p) response s = handled (handle_delete_tunnel env (rx ''DELETE'' p) response s)
    \<and> router_route routes (r ''POST'' (p @ ''/rotate-token'')) response s
        = handled (handle_rotate_token env (rx ''POST'' (p @ ''/rotate-token'')) response s)
    \<and> router_route routes (r ''GET'' (p @ ''/agents'')) response s
        = handled (handle_get_tunnel_agents env (rx ''GET'' (p @ ''/agents'')) response s)
    \<and> router_route routes (r ''PUT'' p) response s = (False, set_error 404 ''Not found'' response, s)"
proof -
  have p: "p = route_prefix @ x @ ''''" "p @ b = route_prefix @ x @ b" for b
    by (simp_all add: assms(6) route_prefix_def)
  have routes: "routes = projr (register_routes env)" using assms(1) by simp
  note m0 = path_matches [OF assms(2,3), of "''''"]
  note m1 = path_matches [OF assms(2,3), of "''/rotate-token''"]
  note m2 = path_matches [OF assms(2,3), of "''/agents''"]
  have e: "extract_params [x] [''id''] = [(''id'', x)]" by (simp add: extract_params_def)
  show ?thesis
    unfolding routes registered_routes p assms(4,5) handled_def
    by (simp add: route_one m0 m1 m2 e del: regex_match.simps router_route.simps(2) append_Nil2)
qed

section \<open>Creating, and what the token is worth\<close>

lemma set_error_simps [simp]:
  "rs_status_code (set_error code m r) = code" "rs_status_code (set_json b r) = rs_status_code r"
  by (simp_all add: set_error_def set_json_def)

lemma tunnel_of_body_id:
  "tunnel_of_body env body = Inr (Inr t) \<Longrightarrow> validate_tunnel_config t = None \<and> status t = ACTIVE
    \<and> created_at t = env_now env"
  by (auto simp: tunnel_of_body_def Let_def split: if_splits option.splits)

lemma api_act_simps [simp]:
  "api_tunnels (api_act a s) = api_tunnels s" "api_tokens (api_act a s) = api_tokens s"
  "api_registry (api_act a s) = api_registry s" "api_conns (api_act a s) = api_conns s"
  by (simp_all add: api_act_def)

lemma store_tunnel_get:
  assumes "Cache_wf (api_tunnels s)" "Cache_wf (api_tokens s)"
  shows "Cache_get u k (api_tunnels (store_tunnel env t s)) = (if k = tunnel_id t
      then if u < env_steady env + seconds year then Some t else None else Cache_get u k (api_tunnels s))"
    and "Cache_get u k (api_tokens (store_tunnel env t s)) = (if k = tunnel_id t
      then if u < env_steady env + seconds year then Some (api_token env (tunnel_id t)) else None
      else Cache_get u k (api_tokens s))"
  using assms by (simp_all add: store_tunnel_def Let_def cache_store.get_put)


lemma hex16_digits: "set (hex16 x) \<subseteq> digit_char ` {..<16}"
proof -
  have "unat (w AND 15) < 16" for w :: u64
    using word_and_le1 [of w 15] by (simp add: word_le_nat_alt)
  then show ?thesis by (auto simp: hex16_def)
qed

lemma generate_token_digits: "set (generate_token vs) \<subseteq> digit_char ` {..<16}"
  using hex16_digits by (fastforce simp: generate_token_def)

lemma generated_token_extract: "extract_token (''Bearer '' @ generate_token vs) = ''''"
proof -
  have "CHR ''t'' \<notin> digit_char ` {..<16}"
    by (auto simp: digit_char_def dest!: arg_cong [where f = "of_char :: char \<Rightarrow> nat"] split: if_splits)
  then have "CHR ''t'' \<notin> set (trim white (generate_token vs))"
    using set_trim generate_token_digits by blast
  then have "\<not> starts_with ''tnl_'' (trim white (generate_token vs))"
    by (auto simp: starts_with_iff)
  then show ?thesis by (simp add: extract_token_def starts_with_def)
qed

text \<open>
  C40. No token that the API hands out can be used. Its hash is stored, so that it grants its tunnel, but
  the token has no \<open>tnl_\<close> prefix and the header that carries it is refused as malformed by every
  token cache, the one it was stored in included.
\<close>

theorem issued_token_is_refused:
  assumes "Cache_wf (api_tunnels s)" "Cache_wf (api_tokens s)"
    and "handle_create_tunnel env req response s = (e, response', s')" "rs_status_code response' = 201"
    and "tok = generate_token (env_random env)"
  shows "(\<exists>tid. \<forall>steady now. steady < env_steady env + seconds year \<longrightarrow> now < env_now env + seconds year \<longrightarrow>
      grants (env_sha env) steady now (api_tokens s') tok tid)
    \<and> (\<forall>sha steady now ord c. \<not> vr_valid (validate sha steady now ord c (''Bearer '' @ tok))
         \<and> vr_error_code (validate sha steady now ord c (''Bearer '' @ tok)) = ''INVALID_FORMAT'')"
proof -
  obtain body t where "env_parse env (rt_body req) = Some body" "tunnel_of_body env body = Inr (Inr t)"
      "s' = store_tunnel env t s"
    using assms(3,4) by (auto simp: handle_create_tunnel_def split: option.splits sum.splits if_splits)
  then have "grants (env_sha env) steady now (api_tokens s') tok (tunnel_id t)"
    if "steady < env_steady env + seconds year" "now < env_now env + seconds year" for steady now
    using that by (simp add: grants_def store_tunnel_get [OF assms(1,2)] assms(5))
      (simp add: api_token_def token_expired_def)
  then show ?thesis
    using generated_token_extract unfolding assms(5) by (simp add: validate_def vr_failure_def) blast
qed

text \<open>
  The token is a function of the 32 bits with which the generator is seeded: there are at most
  \<open>2^32\<close> tokens, where the comment promises 256 random bits. \<open>draw\<close> is what the generator yields.
\<close>

definition seeded_token :: "(u32 \<Rightarrow> nat \<Rightarrow> u64) \<Rightarrow> u32 \<Rightarrow> string" where
  "seeded_token draw seed = generate_token (map (draw seed) [0..<4])"

theorem token_space: "finite (range (seeded_token draw)) \<and> card (range (seeded_token draw)) \<le> 2 ^ 32"
proof -
  have "card (range (seeded_token draw)) \<le> card (UNIV :: u32 set)" by (rule card_image_le) simp
  then show ?thesis by (simp add: card_word)
qed

text \<open>
  Deleting a tunnel within the grace period of a rotation leaves the rotated token in the cache,
  where it still grants, and does not touch the agent's connection: the registry forgets it, but
  it stays connected.
\<close>

theorem delete_leaves_old_token_and_agent:
  assumes "Cache_wf (api_tokens s)" "Cache_wf (api_tunnels s)" "registry_wf (api_registry s)"
    and "Cache_get (env_steady env) tid (api_tokens s) = Some old" "Cache_get (env_steady env) tid (api_tunnels s) = Some t"
    and "Cache_get (env_steady env') tid (api_tunnels s) = Some t"
    and "\<not> token_expired now old" "at_token_hash old = compute_token_hash sha tok"
    and "handle_rotate_token env (req\<lparr>rt_path_params := [(''id'', tid)]\<rparr>) response s = (e1, response1, s1)"
    and "handle_delete_tunnel env' (req'\<lparr>rt_path_params := [(''id'', tid)]\<rparr>) response' s1 = (e2, response2, s2)"
    and "u < env_steady env + seconds 300"
  shows "rs_status_code response2 = 204 \<and> Cache_get u tid (api_tunnels s2) = None
    \<and> Cache_get u tid (api_tokens s2) = None \<and> get_agent tid (api_registry s2) = None
    \<and> grants sha u now (api_tokens s2) tok (tid @ '':old'') \<and> api_conns s2 = api_conns s"
proof -
  define c2 where "c2 = Cache_put_ttl (env_steady env) (tid @ '':old'') old 300
    (Cache_put_ttl (env_steady env) tid (api_token env tid) year (api_tokens s))"
  have "s1 = api_act (Kv_set_secret (''tunnel-token-'' @ tid) (generate_token (env_random env))) (s\<lparr>api_tokens := c2\<rparr>)"
    using assms(4,5,9) by (simp add: handle_rotate_token_def with_tunnel_def Let_def c2_def)
  then have s1: "api_tokens s1 = c2" "api_tunnels s1 = api_tunnels s" "api_registry s1 = api_registry s"
    "api_conns s1 = api_conns s" by simp_all
  have s2: "rs_status_code response2 = 204" "api_tokens s2 = snd (Cache_remove tid c2)" "api_conns s2 = api_conns s"
    "api_tunnels s2 = snd (Cache_remove tid (api_tunnels s))" "api_registry s2 = unregister_agent tid (api_registry s)"
    using assms(6,10) s1 by (auto simp: handle_delete_tunnel_def with_tunnel_def)
  have wf: "Cache_wf c2" using assms(1) by (simp add: c2_def cache_store.wf_put)
  have "Cache_get u k (api_tokens s2) = (if k = tid then None else Cache_get u k c2)" for k
    using wf by (simp add: s2(2) cache_store.get_remove)
  moreover have "Cache_get u (tid @ '':old'') c2 = Some old"
    using assms(1,11) by (simp add: c2_def cache_store.get_put cache_store.wf_put)
  moreover have "get_agent tid (api_registry s2) = None"
    using assms(3) by (simp add: s2(5) registry.look_drop)
  ultimately show ?thesis using s2 assms(2,7,8) by (simp add: grants_def cache_store.get_remove)
qed

section \<open>Witnesses\<close>

definition sample_env :: ApiEnv where
  "sample_env = \<lparr>env_dump = (\<lambda>_. ''{}''), env_parse = (\<lambda>b. if b = ''x'' then None else Some (J_obj
       [(''tunnel_id'', J_str ''db''), (''target_host'', J_str ''h''), (''target_port'', J_int 80)])),
     env_sha = sample_sha, env_steady = 5, env_now = 7, env_walk = [], env_random = [1, 2, 3, 4],
     env_garbage = 0, env_pretty = (\<lambda>_. ''''), env_metrics = Metrics_reset 0\<rparr>"

definition sample_api :: Api where
  "sample_api = \<lparr>api_tunnels = Cache_new 60, api_tokens = sample_tokens, api_registry = AgentRegistry_new 5,
     api_conns = [], api_actions = []\<rparr>"

definition sample_req :: HttpRequest where
  "sample_req = \<lparr>rt_method = ''POST'', rt_path = ''/api/v1/tunnels'', rt_query_string = '''', rt_headers = [],
     rt_path_params = [], rt_body = ''y'', rt_remote_ip = ''''\<rparr>"

lemma sample_api_wf: "Cache_wf (api_tunnels sample_api)" "Cache_wf (api_tokens sample_api)"
  "registry_wf (api_registry sample_api)"
  by (simp_all add: sample_api_def sample_tokens_wf(1), simp_all add: Cache_wf_def Cache_new_def registry_wf_def AgentRegistry_new_def)

lemma sample_created: "rs_status_code (fst (snd (handle_create_tunnel sample_env sample_req HttpResponse_new sample_api))) = 201"
proof -
  have "list_all (\<lambda>c. is_alnum c \<or> c = CHR ''-'' \<or> c = CHR ''_'') ''db''" by code_simp
  then show ?thesis
    by (simp add: handle_create_tunnel_def sample_env_def sample_req_def tunnel_of_body_def value_string_def
      value_int_def validate_tunnel_config_def Let_def sample_api_def Cache_get_def Cache_new_def)
qed

lemma api_dispatch_witness:
  "\<exists>routes. register_routes sample_env = Inr routes
    \<and> fst (router_route routes (sample_req\<lparr>rt_method := ''GET'', rt_path := ''/api/v1/tunnels/a.b''\<rparr>) HttpResponse_new sample_api)
    \<and> \<not> fst (router_route routes (sample_req\<lparr>rt_method := ''PUT'', rt_path := ''/api/v1/tunnels/a.b''\<rparr>) HttpResponse_new sample_api)"
proof -
  obtain routes where r: "register_routes sample_env = Inr routes" using registered_routes by blast
  have "fst (handled (handle_get_tunnel sample_env req response s))" for req response s
    by (auto simp: handled_def split: prod.splits option.splits)
  then show ?thesis
    using api_dispatch [OF r, of "''a.b''" _ "''''" "[]" "''y''" "''''", OF _ _ refl refl refl] r
    by (simp add: sample_req_def)
qed


lemma issued_token_is_refused_witness:
  "vr_error_code (validate sample_sha 5 7 [''t1'', ''db'']
      (api_tokens (snd (snd (handle_create_tunnel sample_env sample_req HttpResponse_new sample_api))))
      (''Bearer '' @ generate_token [1, 2, 3, 4])) = ''INVALID_FORMAT''"
proof -
  obtain e r s' where h: "handle_create_tunnel sample_env sample_req HttpResponse_new sample_api = (e, r, s')"
    by (cases "handle_create_tunnel sample_env sample_req HttpResponse_new sample_api") auto
  have "generate_token [1, 2, 3, 4] = generate_token (env_random sample_env)" by (simp add: sample_env_def)
  from issued_token_is_refused [OF sample_api_wf(1,2) h _ this] show ?thesis using sample_created h by simp
qed

definition sample_api_t1 :: Api where
  "sample_api_t1 = sample_api\<lparr>api_tunnels := Cache_put_ttl 0 ''t1'' (sample_tunnel\<lparr>tunnel_id := ''t1''\<rparr>) 60 (Cache_new 60)\<rparr>"

lemma delete_leaves_old_token_and_agent_witness:
  "\<exists>s2 :: Api. Cache_get 9 ''t1'' (api_tokens s2) = None \<and> grants sample_sha 9 7 (api_tokens s2) ''tnl_a'' ''t1:old''"
proof -
  obtain e1 r1 s1 where h1: "handle_rotate_token sample_env (sample_req\<lparr>rt_path_params := [(''id'', ''t1'')]\<rparr>)
      HttpResponse_new sample_api_t1 = (e1, r1, s1)"
    by (cases "handle_rotate_token sample_env (sample_req\<lparr>rt_path_params := [(''id'', ''t1'')]\<rparr>)
      HttpResponse_new sample_api_t1") auto
  obtain e2 r2 s2 where h2: "handle_delete_tunnel sample_env (sample_req\<lparr>rt_path_params := [(''id'', ''t1'')]\<rparr>)
      HttpResponse_new s1 = (e2, r2, s2)"
    by (cases "handle_delete_tunnel sample_env (sample_req\<lparr>rt_path_params := [(''id'', ''t1'')]\<rparr>)
      HttpResponse_new s1") auto
  have wf: "Cache_wf (api_tokens sample_api_t1)" "Cache_wf (api_tunnels sample_api_t1)"
    "registry_wf (api_registry sample_api_t1)" "env_steady sample_env = 5"
    using sample_api_wf by (simp_all add: sample_api_t1_def sample_env_def Cache_wf_def Cache_new_def Cache_put_ttl_def umap_wf_def)
  have get: "Cache_get 5 ''t1'' (api_tokens sample_api_t1) = Some (sample_token ''tnl_a'')"
    "Cache_get 5 ''t1'' (api_tunnels sample_api_t1) = Some (sample_tunnel\<lparr>tunnel_id := ''t1''\<rparr>)"
    by (simp add: sample_api_t1_def sample_api_def sample_tokens_get)
      (simp add: sample_api_t1_def Cache_get_def Cache_put_ttl_def Cache_new_def is_expired_def seconds_def)
  have tok: "\<not> token_expired 7 (sample_token ''tnl_a'')"
    "at_token_hash (sample_token ''tnl_a'') = compute_token_hash sample_sha ''tnl_a''"
    by (simp_all add: token_expired_def sample_token_def)
  have u: "(9 :: int) < env_steady sample_env + seconds 300" by (simp add: wf(4) seconds_def)
  from delete_leaves_old_token_and_agent [OF wf(1-3) _ _ _ tok h1 h2 u] get
  have "Cache_get 9 ''t1'' (api_tokens s2) = None \<and> grants sample_sha 9 7 (api_tokens s2) ''tnl_a'' ''t1:old''"
    by (simp add: wf(4))
  then show ?thesis by blast
qed

end
