(* ===== verification/Http_Server.thy ===== *)
theory Http_Server
  imports Http_Proxy
begin

text \<open>
  \<open>src/server/http_server.{h,cpp}\<close>: the front end for HTTP clients, with TLS (\<open>Connection\<close>) or without
  (\<open>handle_plain_http\<close>). A connection is named by its number, which is also what it is called by in
  the proxy. TLS itself is outside: the outcome of a handshake and the names it reports are
  arguments, and the argument of the server-name callback, one per TLS context, is part of the state.
\<close>

section \<open>State\<close>

datatype cn_action =
  Cn_handshake
| Cn_read
| Cn_write string
| Cn_shutdown
| Cn_close

record Connection =
  cn_tls :: bool
  cn_client_ip :: string
  cn_request_buffer :: string
  cn_sni_hostname :: string
  cn_actions :: "cn_action list"

record HTTPServer =
  sv_port :: u16
  sv_running :: bool
  sv_use_tls :: bool
  sv_proxy :: HTTPProxy
  sv_conns :: "Connection list"
  sv_accepting :: "nat option"
  sv_sni_arg :: "nat option"

text \<open>The arguments of the request handler of the proxy.\<close>

record RequestEnv =
  re_now :: int
  re_walk_tunnels :: "string list"
  re_now_get :: int
  re_inet :: inet
  re_dump :: "json \<Rightarrow> string"
  re_health :: "string \<times> int"
  re_time :: nat
  re_stream_id :: int
  re_send_result :: int
  re_walk_headers :: "(string, string) umap \<Rightarrow> (string \<times> string) list"

definition proxy_handle :: "RequestEnv \<Rightarrow> nat \<Rightarrow> HTTPRequest \<Rightarrow> HTTPProxy \<Rightarrow> HTTPProxy" where
  "proxy_handle env cb r p = hp_handle_request (re_now env) (re_walk_tunnels env) (re_now_get env) (re_inet env)
     (re_dump env) (re_health env) (re_time env) (re_stream_id env) (re_send_result env)
     (re_walk_headers env (hp_headers r)) cb r p"

definition HTTPServer_new :: "u16 \<Rightarrow> bool \<Rightarrow> HTTPProxy \<Rightarrow> HTTPServer" where
  "HTTPServer_new port use_tls p = \<lparr>sv_port = port, sv_running = False, sv_use_tls = use_tls, sv_proxy = p,
     sv_conns = [], sv_accepting = None, sv_sni_arg = None\<rparr>"

definition Connection_new :: "bool \<Rightarrow> Connection" where
  "Connection_new tls = \<lparr>cn_tls = tls, cn_client_ip = '''', cn_request_buffer = '''', cn_sni_hostname = '''',
     cn_actions = []\<rparr>"

definition sv_set :: "nat \<Rightarrow> (Connection \<Rightarrow> Connection) \<Rightarrow> HTTPServer \<Rightarrow> HTTPServer" where
  "sv_set k f s = s\<lparr>sv_conns := (sv_conns s)[k := f (sv_conns s ! k)]\<rparr>"

definition cn_act :: "cn_action \<Rightarrow> Connection \<Rightarrow> Connection" where
  "cn_act a c = c\<lparr>cn_actions := cn_actions c @ [a]\<rparr>"

section \<open>Answers\<close>

definition do_write :: "nat \<Rightarrow> string \<Rightarrow> HTTPServer \<Rightarrow> HTTPServer" where
  "do_write k response s = sv_set k (cn_act (Cn_write response)) s"

definition error_text :: "int \<Rightarrow> string \<Rightarrow> string" where
  "error_text code message = HTTPResponse_to_string (hp_resp_headers (error_response code message)) (error_response code message)"

text \<open>The callback of the proxy: with TLS an error is answered with 500.\<close>

definition on_response :: "nat \<Rightarrow> string \<Rightarrow> bool \<Rightarrow> HTTPServer \<Rightarrow> HTTPServer" where
  "on_response k response err s =
    (if cn_tls (sv_conns s ! k) \<and> err then do_write k (error_text 500 ''Internal Server Error'') s
     else do_write k response s)"

text \<open>Runs an operation of the proxy and the callbacks it invokes.\<close>

definition sv_run_proxy :: "(HTTPProxy \<Rightarrow> HTTPProxy) \<Rightarrow> HTTPServer \<Rightarrow> HTTPServer" where
  "sv_run_proxy f s = (let p' = f (sv_proxy s)
     in foldl (\<lambda>s a. case a of Hp_respond k text err \<Rightarrow> on_response k text err s | _ \<Rightarrow> s) (s\<lparr>sv_proxy := p'\<rparr>)
          (drop (length (hp_actions (sv_proxy s))) (hp_actions p')))"

text \<open>The write handlers: with TLS a finished write closes, without it only an error does.\<close>

definition on_written :: "nat \<Rightarrow> bool \<Rightarrow> bool \<Rightarrow> HTTPServer \<Rightarrow> HTTPServer" where
  "on_written k close_connection ok s =
    (if cn_tls (sv_conns s ! k) then (if ok then sv_set k (cn_act Cn_shutdown) s else s)
     else if close_connection \<or> \<not> ok then sv_set k (cn_act Cn_close) s else s)"

section \<open>Plain HTTP\<close>

definition plain_header :: "(string, string) umap \<Rightarrow> string \<Rightarrow> (string, string) umap" where
  "plain_header headers line = (case find_char CHR '':'' line of
     None \<Rightarrow> headers
   | Some colon_pos \<Rightarrow>
       AList.update (take colon_pos line) (trim (blanks @ CRLF) (drop (colon_pos + 1) line)) headers)"

text \<open>
  The request made of what is in the buffer when the empty line has arrived. The words are read from
  the stream, not from its first line. (A trailing carriage return of a header line makes no
  difference: it is trimmed from the value.)
\<close>

definition plain_request :: "string \<Rightarrow> string \<Rightarrow> HTTPRequest" where
  "plain_request client_ip buffer =
    (let (rmethod, r1) = read_word buffer; (rpath, r2) = read_word r1; (rversion, r3) = read_word r2;
         s1 = (case getline (CHR 0x0A) r3 of None \<Rightarrow> '''' | Some (line, s) \<Rightarrow> s);
         headers = foldl plain_header [] (fst (header_lines s1))
     in \<lparr>hp_method = rmethod, hp_path = rpath, hp_version = rversion,
         hp_host = (case map_of headers ''Host'' of None \<Rightarrow> '''' | Some v \<Rightarrow> v),
         hp_client_ip = client_ip, hp_headers = headers, hp_body = ''''\<rparr>)"

text \<open>\<open>ip\<close> is the address of the client, where it can be determined.\<close>

definition address :: "string option \<Rightarrow> string" where
  "address ip = (case ip of None \<Rightarrow> ''unknown'' | Some a \<Rightarrow> a)"

definition handle_plain_http :: "RequestEnv \<Rightarrow> nat \<Rightarrow> string option \<Rightarrow> string option \<Rightarrow> HTTPServer \<Rightarrow> HTTPServer" where
  "handle_plain_http env k ip buffer s = (case buffer of
     None \<Rightarrow> s
   | Some b \<Rightarrow> sv_run_proxy (proxy_handle env k (plain_request (address ip) b)) s)"

section \<open>Connections with TLS\<close>

definition do_read :: "nat \<Rightarrow> HTTPServer \<Rightarrow> HTTPServer" where
  "do_read k s = sv_set k (cn_act Cn_read) s"

definition serve :: "RequestEnv \<Rightarrow> nat \<Rightarrow> HTTPServer \<Rightarrow> HTTPServer" where
  "serve env k s = (let c = sv_conns s ! k in case parse_request (cn_request_buffer c) of
     None \<Rightarrow> do_write k (error_text 400 ''Bad Request'') s
   | Some r \<Rightarrow> sv_run_proxy (proxy_handle env k (r\<lparr>hp_client_ip := cn_client_ip c\<rparr>)) s)"

definition on_client_data :: "RequestEnv \<Rightarrow> nat \<Rightarrow> string option \<Rightarrow> HTTPServer \<Rightarrow> HTTPServer" where
  "on_client_data env k r s = (case r of
     None \<Rightarrow> s
   | Some data \<Rightarrow>
       let s1 = sv_set k (\<lambda>c. c\<lparr>cn_request_buffer := cn_request_buffer c @ data\<rparr>) s
       in if find_string (CRLF @ CRLF) (cn_request_buffer (sv_conns s1 ! k)) \<noteq> None
          then serve env k s1 else do_read k s1)"

definition on_client_handshake :: "nat \<Rightarrow> bool \<Rightarrow> HTTPServer \<Rightarrow> HTTPServer" where
  "on_client_handshake k ok s = (if \<not> ok then s else do_read k s)"

definition conn_start :: "nat \<Rightarrow> string option \<Rightarrow> HTTPServer \<Rightarrow> HTTPServer" where
  "conn_start k ip s = sv_set k (\<lambda>c. cn_act Cn_handshake (c\<lparr>cn_client_ip := address ip\<rparr>)) s"

datatype sni_result = SNI_noack | SNI_ok | SNI_fatal

text \<open>
  The callback of OpenSSL during a handshake: \<open>name\<close> is the name the client sends, \<open>found\<close> whether the
  TLS manager has a context for it.
\<close>

definition sni_callback :: "string option \<Rightarrow> bool \<Rightarrow> HTTPServer \<Rightarrow> sni_result \<times> HTTPServer" where
  "sni_callback name found s = (case sv_sni_arg s of
     None \<Rightarrow> (SNI_noack, s)
   | Some k \<Rightarrow> (case name of
       None \<Rightarrow> (SNI_ok, s)
     | Some hostname \<Rightarrow>
         let s1 = sv_set k (\<lambda>c. c\<lparr>cn_sni_hostname := hostname\<rparr>) s
         in (if found then SNI_ok else SNI_fatal, s1)))"

section \<open>Accepting\<close>

text \<open>The constructor of a TLS connection makes it the argument of the callback of the shared context.\<close>

definition sv_do_accept :: "HTTPServer \<Rightarrow> HTTPServer" where
  "sv_do_accept s =
    (if \<not> sv_running s then s
     else let k = length (sv_conns s);
              s1 = s\<lparr>sv_conns := sv_conns s @ [Connection_new (sv_use_tls s)], sv_accepting := Some k\<rparr>
          in if sv_use_tls s then s1\<lparr>sv_sni_arg := Some k\<rparr> else s1)"

definition sv_on_accept :: "bool \<Rightarrow> string option \<Rightarrow> HTTPServer \<Rightarrow> HTTPServer" where
  "sv_on_accept ok ip s = (case sv_accepting s of
     None \<Rightarrow> s
   | Some k \<Rightarrow>
       let s0 = s\<lparr>sv_accepting := None\<rparr>;
           s1 = (if \<not> ok then s0
                 else if sv_use_tls s then conn_start k ip s0 else sv_set k (cn_act Cn_read) s0)
       in sv_do_accept s1)"

text \<open>\<open>binds\<close>: whether the acceptor can be opened and bound.\<close>

definition sv_start :: "bool \<Rightarrow> HTTPServer \<Rightarrow> HTTPServer result" where
  "sv_start binds s =
    (if sv_running s then Inr s
     else if \<not> binds then Inl (Runtime_error ''bind'')
     else Inr (sv_do_accept (s\<lparr>sv_running := True\<rparr>)))"

definition sv_stop :: "HTTPServer \<Rightarrow> HTTPServer" where
  "sv_stop s = (if \<not> sv_running s then s else s\<lparr>sv_running := False\<rparr>)"

section \<open>What each front end makes of a request\<close>

definition request_text :: "string \<Rightarrow> string \<Rightarrow> string \<Rightarrow> (string \<times> string) list \<Rightarrow> string \<Rightarrow> string" where
  "request_text m p v hs body = m @ '' '' @ p @ '' '' @ v @ CRLF @ header_text hs @ CRLF @ body"

lemma fold_plain_headers:
  "\<forall>h \<in> set hs. header_ok h \<and> trim (blanks @ CRLF) (snd h) = snd h \<Longrightarrow>
    foldl plain_header m0 (map header_line hs) = foldl (\<lambda>m h. AList.update (fst h) (snd h) m) m0 hs"
proof (induction hs arbitrary: m0)
  case (Cons h hs)
  have "CHR '':'' \<notin> set (fst h)" using Cons.prems by (simp add: header_ok_def)
  then have "find_char CHR '':'' (header_line h) = Some (length (fst h))"
    unfolding header_line_def append_Cons append_Nil by (rule find_char_append)
  moreover have "trim (blanks @ CRLF) ('' '' @ snd h) = snd h"
    using Cons.prems by (simp add: trim_Cons)
  ultimately have "plain_header m0 (header_line h) = AList.update (fst h) (snd h) m0"
    by (simp add: plain_header_def header_line_def)
  then show ?case using Cons by simp
qed simp

lemma fold_parse_headers:
  "\<forall>h \<in> set hs. header_ok h \<Longrightarrow>
    foldl parse_header (m0, host) (map header_line hs)
      = (foldl (\<lambda>m h. AList.update (to_lower (fst h)) (snd h) m) m0 hs,
         foldl (\<lambda>host h. if to_lower (fst h) = ''host'' then snd h else host) host hs)"
  by (induction hs arbitrary: m0 host) (auto simp: parse_header_def split_header_line split: prod.splits)

lemma read_three_words:
  assumes "word_text m" "word_text p" "word_text v" "m \<noteq> ''''" "p \<noteq> ''''" "v \<noteq> ''''"
    and "s = '''' \<or> is_space (hd s)"
  shows "read_word (m @ '' '' @ p @ '' '' @ v @ s) = (m, '' '' @ p @ '' '' @ v @ s)"
    and "read_word ('' '' @ p @ '' '' @ v @ s) = (p, '' '' @ v @ s)"
    and "read_word ('' '' @ v @ s) = (v, s)"
proof -
  have sp: "is_space (CHR '' '')" by (simp add: is_space_def)
  show "read_word (m @ '' '' @ p @ '' '' @ v @ s) = (m, '' '' @ p @ '' '' @ v @ s)"
    using assms(1,4) sp unfolding word_text_def by (intro read_word_append) simp_all
  have "read_word (p @ '' '' @ v @ s) = (p, '' '' @ v @ s)"
    using assms(2,5) sp unfolding word_text_def by (intro read_word_append) simp_all
  then show "read_word ('' '' @ p @ '' '' @ v @ s) = (p, '' '' @ v @ s)"
    by (simp only: append_Cons append_Nil read_word_space [OF sp])
  have "read_word (v @ s) = (v, s)"
    using assms(3,6,7) unfolding word_text_def by (intro read_word_append) simp_all
  then show "read_word ('' '' @ v @ s) = (v, s)"
    by (simp only: append_Cons append_Nil read_word_space [OF sp])
qed

lemma fold_host:
  "foldl (\<lambda>host h. if P h then snd h else host) h0 hs = (case find P (rev hs) of None \<Rightarrow> h0 | Some h \<Rightarrow> snd h)"
proof (induction hs arbitrary: h0 rule: rev_induct)
  case (snoc h hs)
  then show ?case by (cases "P h") simp_all
qed simp


section \<open>Reading a request with TLS\<close>

lemma sv_set_simps [simp]:
  "length (sv_conns (sv_set k f s)) = length (sv_conns s)" "sv_proxy (sv_set k f s) = sv_proxy s"
  "k < length (sv_conns s) \<Longrightarrow> sv_conns (sv_set k f s) ! k = f (sv_conns s ! k)"
  by (simp_all add: sv_set_def)

lemma sv_set_set: "k < length (sv_conns s) \<Longrightarrow> sv_set k g (sv_set k f s) = sv_set k (\<lambda>c. g (f c)) s"
  by (simp add: sv_set_def)

lemma conn_update_order:
  "c\<lparr>cn_request_buffer := b, cn_actions := as\<rparr> = (c :: Connection)\<lparr>cn_actions := as, cn_request_buffer := b\<rparr>"
  by (cases c) simp

lemma no_terminator_prefix:
  assumes "find_string q (s @ t) = None"
  shows "find_string q s = None"
  using assms
proof (induction s)
  case Nil
  show ?case
  proof (cases q)
    case Nil
    then have "find_string q t = Some 0" by (simp add: find_string.simps [of "[]" t])
    then show ?thesis using Nil.prems by simp
  next
    case (Cons a l)
    then show ?thesis by (simp add: find_string.simps [of "a # l" "[]"])
  qed
next
  case (Cons x s)
  have n: "take (length q) (x # s @ t) \<noteq> q" "find_string q (s @ t) = None"
    using Cons.prems by (simp_all add: find_string.simps [of q "x # s @ t"] split: if_splits)
  have "take (length q) (x # s) \<noteq> q"
  proof
    assume e: "take (length q) (x # s) = q"
    then have "length q \<le> length (x # s)" by (metis length_take min.cobounded1)
    then have "take (length q) (x # s @ t) = q" using e by (metis Cons_eq_appendI append_Nil2 take_append take_0 diff_is_0_eq)
    then show False using n(1) by simp
  qed
  then show ?case using Cons.IH [OF n(2)] by (simp add: find_string.simps [of q "x # s"])
qed

text \<open>
  A request that arrives in pieces is served once, when the piece with the empty line has been read,
  and the request is that of the text read so far. What the client sends in a later piece, such as
  the rest of a body, is not part of it and is not read.
\<close>

theorem tls_request_assembly:
  assumes "k < length (sv_conns s)" "cn_request_buffer (sv_conns s ! k) = ''''"
    and "find_string (CRLF @ CRLF) (concat ds) = None" "find_string (CRLF @ CRLF) (concat ds @ d) \<noteq> None"
  shows "foldl (\<lambda>s d. on_client_data env k (Some d) s) s (ds @ [d])
    = serve env k (sv_set k (\<lambda>c. c\<lparr>cn_actions := cn_actions c @ replicate (length ds) Cn_read,
        cn_request_buffer := concat ds @ d\<rparr>) s)"
proof -
  have run: "foldl (\<lambda>s d. on_client_data env k (Some d) s) s ds
      = sv_set k (\<lambda>c. c\<lparr>cn_actions := cn_actions c @ replicate (length ds) Cn_read, cn_request_buffer := concat ds\<rparr>) s"
    using assms(3)
  proof (induction ds rule: rev_induct)
    case Nil
    have "(sv_conns s ! k)\<lparr>cn_actions := cn_actions (sv_conns s ! k), cn_request_buffer := ''''\<rparr> = sv_conns s ! k"
      using assms(2) by (cases "sv_conns s ! k") simp
    then show ?case using assms(1) by (simp add: sv_set_def)
  next
    case (snoc x ds)
    have n: "find_string (CRLF @ CRLF) (concat ds @ x) = None" using snoc.prems by simp
    note IH = snoc.IH [OF no_terminator_prefix [OF n]]
    show ?case
      unfolding foldl_append IH
      using n assms(1) by (simp add: on_client_data_def sv_set_set do_read_def cn_act_def Let_def replicate_append_same conn_update_order)
  qed
  show ?thesis
    unfolding foldl_append run using assms(1,4) by (simp add: on_client_data_def sv_set_set Let_def)
qed

section \<open>The server-name callback\<close>

definition sv_wf :: "HTTPServer \<Rightarrow> bool" where
  "sv_wf s \<longleftrightarrow> (\<forall>k. sv_accepting s = Some k \<longrightarrow> Suc k = length (sv_conns s))
     \<and> (sv_use_tls s \<longrightarrow> sv_sni_arg s = (if sv_conns s = [] then None else Some (length (sv_conns s) - 1)))"

lemma sv_wf_accept: "sv_wf s \<Longrightarrow> sv_wf (sv_do_accept s)"
  by (auto simp: sv_wf_def sv_do_accept_def Let_def)

lemma sv_wf_new: "sv_wf (HTTPServer_new port use_tls p)"
  by (simp add: sv_wf_def HTTPServer_new_def)

lemma sv_wf_set: "sv_wf s \<Longrightarrow> sv_wf (sv_set k f s)"
  by (auto simp: sv_wf_def sv_set_def)

lemma sv_wf_on_accept: "sv_wf s \<Longrightarrow> sv_wf (sv_on_accept ok ip s)"
proof -
  assume wf: "sv_wf s"
  then have "sv_wf (s\<lparr>sv_accepting := None\<rparr>)" by (auto simp: sv_wf_def)
  then show ?thesis
    using wf sv_wf_accept sv_wf_set by (auto simp: sv_on_accept_def conn_start_def Let_def split: option.splits)
qed

text \<open>
  The argument of the server-name callback is always the newest connection object, the one that is
  waiting to be accepted: the name that a client sends in its handshake is stored there, and its own
  connection never learns it.
\<close>

theorem sni_name_stored_in_wrong_connection:
  assumes "sv_wf s" "sv_use_tls s" "sv_running s" "sv_accepting s = Some k"
    and "s1 = sv_on_accept True ip s" "(r, s2) = sni_callback (Some name) found s1"
  shows "cn_sni_hostname (sv_conns s2 ! k) = cn_sni_hostname (sv_conns s ! k)
    \<and> cn_client_ip (sv_conns s2 ! k) = address ip
    \<and> sv_accepting s2 = Some (Suc k) \<and> cn_sni_hostname (sv_conns s2 ! Suc k) = name"
proof -
  have k: "Suc k = length (sv_conns s)" using assms(1,4) by (simp add: sv_wf_def)
  have c: "sv_conns s1 = (sv_conns s)[k := cn_act Cn_handshake ((sv_conns s ! k)\<lparr>cn_client_ip := address ip\<rparr>)] @ [Connection_new True]"
    "sv_sni_arg s1 = Some (Suc k)" "sv_accepting s1 = Some (Suc k)"
    using assms(2-5) k by (simp_all add: sv_on_accept_def conn_start_def sv_do_accept_def sv_set_def Let_def)
  then have "s2 = sv_set (Suc k) (\<lambda>c. c\<lparr>cn_sni_hostname := name\<rparr>) s1"
    using assms(6) by (simp add: sni_callback_def Let_def)
  then show ?thesis using c k by (simp add: sv_set_def nth_append cn_act_def list_update_append)
qed

section \<open>Witnesses\<close>


definition sample_https :: HTTPServer where
  "sample_https = sv_on_accept True (Some ''10.0.0.7'') (sv_do_accept ((HTTPServer_new 443 True sample_http)\<lparr>sv_running := True\<rparr>))"

definition sample_request_env :: RequestEnv where
  "sample_request_env = \<lparr>re_now = 0, re_walk_tunnels = [''t1''], re_now_get = 0, re_inet = sample_inet, re_dump = (\<lambda>_. ''''),
     re_health = ('''', 200), re_time = 7, re_stream_id = 1, re_send_result = 0, re_walk_headers = id\<rparr>"

lemma sample_https_conns: "sv_conns sample_https = [cn_act Cn_handshake ((Connection_new True)\<lparr>cn_client_ip := ''10.0.0.7''\<rparr>),
    Connection_new True]" "sv_accepting sample_https = Some 1" "sv_use_tls sample_https" "sv_running sample_https"
  by (simp_all add: sample_https_def HTTPServer_new_def sv_do_accept_def sv_on_accept_def conn_start_def sv_set_def
      address_def Let_def)

lemma tls_request_assembly_witness:
  "\<exists>s'. foldl (\<lambda>s d. on_client_data sample_request_env 0 (Some d) s) sample_https [''GET / H'', CRLF, CRLF]
    = serve sample_request_env 0 s'"
proof -
  have "find_string (CRLF @ CRLF) (concat [''GET / H'', CRLF]) = None"
    "find_string (CRLF @ CRLF) (concat [''GET / H'', CRLF] @ CRLF) \<noteq> None"
    by code_simp+
  from tls_request_assembly [OF _ _ this, of 0 sample_https sample_request_env] show ?thesis
    by (simp add: sample_https_conns Connection_new_def cn_act_def) blast
qed

lemma sni_name_stored_in_wrong_connection_witness:
  "cn_sni_hostname (sv_conns (snd (sni_callback (Some ''a.org'') True (sv_on_accept True None sample_https))) ! 2) = ''a.org''"
proof -
  have "sv_wf sample_https"
    unfolding sample_https_def using sv_wf_new [of 443 True sample_http]
    by (intro sv_wf_on_accept sv_wf_accept) (simp add: sv_wf_def)
  from sni_name_stored_in_wrong_connection [OF this sample_https_conns(3,4,2) refl prod.collapse] show ?thesis
    by (simp add: numeral_2_eq_2)
qed

end
