(* ===== verification/Tls_Manager.thy ===== *)
theory Tls_Manager
  imports Keyvault
begin

text \<open>
  \<open>src/security/tls_manager.{h,cpp}\<close>. A TLS context is what the code has configured in it. Whether
  OpenSSL takes a certificate chain and key is the argument \<open>usable\<close>; \<open>fetch\<close> is the key vault
  (\<open>get_certificate\<close>). \<open>certificates_\<close> is an unordered map: \<open>ord\<close> is the order in which it is walked.
  Every operation is one step: the lock guards the map.
\<close>

section \<open>State\<close>

record SslContext =
  cx_min_version :: nat
  cx_ciphers :: string
  cx_identity :: "(string \<times> string) option"
  cx_require_client_cert :: bool

record Certificate =
  ce_cert_pem :: string
  ce_key_pem :: string
  ce_domain :: string
  ce_key_vault_uri :: string

record TLSManager =
  tm_key_vault_uri :: string
  tm_certificates :: "(string, Certificate) umap"
  tm_default_client_context :: SslContext
  tm_agent_context :: SslContext
  tm_io_context :: bool
  tm_reload_timer :: bool
  tm_auto_reload_active :: bool
  tm_reload_interval_minutes :: u32
  tm_waits :: nat

section \<open>Contexts\<close>

text \<open>The version is the number TLS 1.2 has in OpenSSL.\<close>

definition configure_tls_options :: "SslContext \<Rightarrow> SslContext" where
  "configure_tls_options ctx = ctx\<lparr>cx_min_version := 0x0303, cx_ciphers := ''HIGH:!aNULL:!eNULL:!EXPORT:!DES:!MD5:!PSK:!RC4''\<rparr>"

definition new_context :: SslContext where
  "new_context = configure_tls_options \<lparr>cx_min_version = 0, cx_ciphers = '''', cx_identity = None, cx_require_client_cert = False\<rparr>"

definition create_context :: "(string \<Rightarrow> string \<Rightarrow> bool) \<Rightarrow> Certificate \<Rightarrow> bool \<Rightarrow> SslContext option" where
  "create_context usable cert require_client_cert =
    (if usable (ce_cert_pem cert) (ce_key_pem cert)
     then Some (new_context\<lparr>cx_identity := Some (ce_cert_pem cert, ce_key_pem cert), cx_require_client_cert := require_client_cert\<rparr>)
     else None)"

text \<open>
  The files \<open>localhost.crt\<close> and \<open>localhost.key\<close>: \<open>None\<close> where one is missing, otherwise their texts.
  A context is given the chain before the key: an unusable pair leaves the first context with the
  chain only, which counts as no identity.
\<close>

definition load_local_development_cert ::
  "(string \<Rightarrow> string \<Rightarrow> bool) \<Rightarrow> (string \<times> string) option \<Rightarrow> TLSManager \<Rightarrow> TLSManager" where
  "load_local_development_cert usable files t = (case files of
     None \<Rightarrow> t
   | Some (crt, key) \<Rightarrow>
       if usable crt key
       then t\<lparr>tm_default_client_context := (tm_default_client_context t)\<lparr>cx_identity := Some (crt, key)\<rparr>,
              tm_agent_context := (tm_agent_context t)\<lparr>cx_identity := Some (crt, key)\<rparr>\<rparr>
       else t)"

definition TLSManager_new ::
  "(string \<Rightarrow> string \<Rightarrow> bool) \<Rightarrow> (string \<times> string) option \<Rightarrow> string \<Rightarrow> bool \<Rightarrow> TLSManager" where
  "TLSManager_new usable files uri io =
    (let t = \<lparr>tm_key_vault_uri = uri, tm_certificates = [], tm_default_client_context = new_context,
           tm_agent_context = new_context, tm_io_context = io, tm_reload_timer = False, tm_auto_reload_active = False,
           tm_reload_interval_minutes = 60, tm_waits = 0\<rparr>
     in if find_string ''mock'' uri \<noteq> None then load_local_development_cert usable files t else t)"

section \<open>Certificates\<close>

definition certificate_of :: "CertificateData \<Rightarrow> string \<Rightarrow> string \<Rightarrow> TLSManager \<Rightarrow> Certificate" where
  "certificate_of d secret_name domain t = \<lparr>ce_cert_pem = cd_cert_pem d, ce_key_pem = cd_key_pem d, ce_domain = domain,
     ce_key_vault_uri = tm_key_vault_uri t @ ''/secrets/'' @ secret_name\<rparr>"

definition load_certificate ::
  "(string \<Rightarrow> string \<Rightarrow> bool) \<Rightarrow> (string \<Rightarrow> CertificateData option) \<Rightarrow> string \<Rightarrow> string \<Rightarrow> TLSManager \<Rightarrow> bool \<times> TLSManager" where
  "load_certificate usable fetch secret_name domain t = (case fetch secret_name of
     None \<Rightarrow> (False, t)
   | Some d \<Rightarrow> (case create_context usable (certificate_of d secret_name domain t) False of
       None \<Rightarrow> (False, t)
     | Some ctx \<Rightarrow>
         let t1 = t\<lparr>tm_certificates := AList.update domain (certificate_of d secret_name domain t) (tm_certificates t)\<rparr>
         in (True, if length (tm_certificates t1) = 1 then t1\<lparr>tm_default_client_context := ctx\<rparr> else t1)))"

definition wildcard_matches :: "string \<Rightarrow> string \<Rightarrow> bool" where
  "wildcard_matches hostname domain \<longleftrightarrow>
    starts_with ''*.'' domain
    \<and> (let suffix = drop 1 domain; suffix_len = length suffix
       in length hostname \<ge> suffix_len \<and> drop (length hostname - suffix_len) hostname = suffix
        \<and> (case find_char CHR ''.'' hostname of None \<Rightarrow> False | Some dot_pos \<Rightarrow> drop dot_pos hostname = suffix))"

definition match_certificate :: "string list \<Rightarrow> string \<Rightarrow> TLSManager \<Rightarrow> string" where
  "match_certificate ord hostname t =
    (if hostname \<in> keys_of (tm_certificates t) then hostname
     else case find (wildcard_matches hostname) ord of Some domain \<Rightarrow> domain | None \<Rightarrow> '''')"

definition get_client_context ::
  "(string \<Rightarrow> string \<Rightarrow> bool) \<Rightarrow> string list \<Rightarrow> string \<Rightarrow> TLSManager \<Rightarrow> SslContext option" where
  "get_client_context usable ord sni t =
    (if sni = '''' then Some (tm_default_client_context t)
     else let matched_domain = match_certificate ord sni t
          in case (if matched_domain \<noteq> '''' then map_of (tm_certificates t) matched_domain else None) of
               Some cert \<Rightarrow> create_context usable cert False
             | None \<Rightarrow> Some (tm_default_client_context t))"

definition get_agent_context :: "TLSManager \<Rightarrow> SslContext" where
  "get_agent_context t = tm_agent_context t"

definition reload_certificate ::
  "(string \<Rightarrow> string \<Rightarrow> bool) \<Rightarrow> (string \<Rightarrow> CertificateData option) \<Rightarrow> string \<Rightarrow> TLSManager \<Rightarrow> bool \<times> TLSManager" where
  "reload_certificate usable fetch domain t = (case map_of (tm_certificates t) domain of
     None \<Rightarrow> (False, t)
   | Some cert \<Rightarrow>
       let uri = ce_key_vault_uri cert;
           secret_name = (case find_string ''/secrets/'' uri of None \<Rightarrow> uri | Some pos \<Rightarrow> drop (pos + 9) uri)
       in load_certificate usable fetch secret_name domain t)"

text \<open>The domains are collected first, in the order of the walk.\<close>

definition reload_all_certificates ::
  "(string \<Rightarrow> string \<Rightarrow> bool) \<Rightarrow> (string \<Rightarrow> CertificateData option) \<Rightarrow> string list \<Rightarrow> TLSManager \<Rightarrow> nat \<times> TLSManager" where
  "reload_all_certificates usable fetch domains t =
    foldl (\<lambda>(reloaded, t) domain. case reload_certificate usable fetch domain t of
       (ok, t1) \<Rightarrow> (if ok then reloaded + 1 else reloaded, t1)) (0, t) domains"

definition has_certificate_for_domain :: "string list \<Rightarrow> string \<Rightarrow> TLSManager \<Rightarrow> bool" where
  "has_certificate_for_domain ord domain t =
    (if domain \<in> keys_of (tm_certificates t) then True else match_certificate ord domain t \<noteq> '''')"

section \<open>Reloading on a timer\<close>

text \<open>\<open>tm_waits\<close> counts the waits that were started.\<close>

definition schedule_reload :: "TLSManager \<Rightarrow> TLSManager" where
  "schedule_reload t = (if \<not> tm_auto_reload_active t \<or> \<not> tm_reload_timer t then t else t\<lparr>tm_waits := tm_waits t + 1\<rparr>)"

definition start_auto_reload :: "u32 \<Rightarrow> TLSManager \<Rightarrow> TLSManager" where
  "start_auto_reload minutes t =
    (if \<not> tm_io_context t \<or> tm_auto_reload_active t then t
     else schedule_reload (t\<lparr>tm_reload_interval_minutes := minutes, tm_auto_reload_active := True, tm_reload_timer := True\<rparr>))"

definition stop_auto_reload :: "TLSManager \<Rightarrow> TLSManager" where
  "stop_auto_reload t = (if \<not> tm_auto_reload_active t then t else t\<lparr>tm_auto_reload_active := False\<rparr>)"

definition on_reload_timer ::
  "(string \<Rightarrow> string \<Rightarrow> bool) \<Rightarrow> (string \<Rightarrow> CertificateData option) \<Rightarrow> string list \<Rightarrow> bool \<Rightarrow> TLSManager \<Rightarrow> TLSManager" where
  "on_reload_timer usable fetch domains ec t =
    (if ec \<or> \<not> tm_auto_reload_active t then t
     else schedule_reload (snd (reload_all_certificates usable fetch domains t)))"

section \<open>Which certificate a name gets\<close>

text \<open>The one wildcard that can cover a name: its first label replaced.\<close>

definition wildcard_of :: "string \<Rightarrow> string option" where
  "wildcard_of hostname = map_option (\<lambda>n. CHR ''*'' # drop n hostname) (find_char CHR ''.'' hostname)"

lemma wildcard_matches_iff: "wildcard_matches hostname domain \<longleftrightarrow> wildcard_of hostname = Some domain"
proof (cases "find_char CHR ''.'' hostname")
  case (Some n)
  then have n: "n < length hostname" "hostname ! n = CHR ''.''" by (simp_all add: find_char_Some_iff)
  then obtain s where s: "drop n hostname = CHR ''.'' # s" by (metis Cons_nth_drop_Suc)
  then have "length hostname - n = Suc (length s)" by (metis length_Cons length_drop)
  then have m: "n = length hostname - Suc (length s)" "Suc (length s) \<le> length hostname" using n(1) by simp_all
  show ?thesis
  proof (cases domain)
    case (Cons c cs)
    show ?thesis
      using m s by (auto simp: wildcard_matches_def wildcard_of_def starts_with_def Some Cons Let_def)
  qed (simp add: wildcard_matches_def wildcard_of_def starts_with_def Some)
next
  case None
  then show ?thesis by (simp add: wildcard_matches_def wildcard_of_def Let_def del: find_char_None)
qed

definition covering :: "string \<Rightarrow> TLSManager \<Rightarrow> string option" where
  "covering hostname t =
    (if hostname \<in> keys_of (tm_certificates t) then Some hostname
     else case wildcard_of hostname of
       None \<Rightarrow> None
     | Some w \<Rightarrow> if w \<in> keys_of (tm_certificates t) then Some w else None)"

lemma find_eq: "find (\<lambda>x. f = Some x) xs = (case f of None \<Rightarrow> None | Some w \<Rightarrow> if w \<in> set xs then Some w else None)"
  by (induction xs) (auto split: option.splits)

lemma match_covering:
  assumes "set ord = keys_of (tm_certificates t)"
  shows "match_certificate ord hostname t = (case covering hostname t of None \<Rightarrow> '''' | Some d \<Rightarrow> d)"
proof -
  have "wildcard_matches hostname = (\<lambda>d. wildcard_of hostname = Some d)" using wildcard_matches_iff by blast
  then show ?thesis
    unfolding match_certificate_def covering_def by (simp add: find_eq assms split: option.splits)
qed

text \<open>
  C22. In whatever order the certificates are walked, a name gets its own certificate, or else that of
  the wildcard with its first label replaced by a star, or else none: a wildcard covers one label.
\<close>

theorem certificate_choice:
  assumes "set ord = keys_of (tm_certificates t)"
  shows "match_certificate ord hostname t = (case covering hostname t of None \<Rightarrow> '''' | Some d \<Rightarrow> d)
    \<and> (hostname \<noteq> '''' \<longrightarrow> (has_certificate_for_domain ord hostname t \<longleftrightarrow> covering hostname t \<noteq> None))"
proof -
  have "wildcard_of hostname \<noteq> Some ''''" by (auto simp: wildcard_of_def)
  then show ?thesis
    unfolding has_certificate_for_domain_def match_covering [OF assms]
    by (auto simp: covering_def split: option.splits if_splits)
qed

section \<open>An invariant of the contexts\<close>

definition secure :: "SslContext \<Rightarrow> bool" where
  "secure ctx \<longleftrightarrow> cx_min_version ctx = 0x0303 \<and> \<not> cx_require_client_cert ctx"

text \<open>The certificates stored are usable, each under its own domain.\<close>

definition tm_inv :: "(string \<Rightarrow> string \<Rightarrow> bool) \<Rightarrow> TLSManager \<Rightarrow> bool" where
  "tm_inv usable t \<longleftrightarrow> umap_wf (tm_certificates t)
    \<and> (\<forall>d cert. map_of (tm_certificates t) d = Some cert \<longrightarrow> ce_domain cert = d \<and> usable (ce_cert_pem cert) (ce_key_pem cert))
    \<and> secure (tm_default_client_context t) \<and> secure (tm_agent_context t)"

lemma secure_new: "secure new_context"
  by (simp add: secure_def new_context_def configure_tls_options_def)

lemma create_context_secure: "create_context usable cert False = Some ctx \<Longrightarrow> secure ctx \<and> usable (ce_cert_pem cert) (ce_key_pem cert)
   \<and> cx_identity ctx = Some (ce_cert_pem cert, ce_key_pem cert)"
  using secure_new by (auto simp: create_context_def secure_def split: if_splits)

lemma tm_inv_new: "tm_inv usable (TLSManager_new usable files uri io)"
  using secure_new by (auto simp: tm_inv_def TLSManager_new_def load_local_development_cert_def Let_def secure_def umap_wf_def
      split: option.splits)

lemma tm_inv_load:
  assumes "tm_inv usable t"
  shows "tm_inv usable (snd (load_certificate usable fetch secret domain t))"
proof (cases "fetch secret")
  case (Some d)
  let ?cert = "certificate_of d secret domain t"
  show ?thesis
  proof (cases "create_context usable ?cert False")
    case None
    then show ?thesis using assms by (simp add: load_certificate_def \<open>fetch secret = Some d\<close>)
  next
    case (Some ctx)
    have "ce_domain ?cert = domain" by (simp add: certificate_of_def)
    then show ?thesis
      using assms create_context_secure [OF Some] \<open>fetch secret = Some d\<close>
      by (auto simp: load_certificate_def Some Let_def tm_inv_def map_simps)
  qed
qed (simp add: load_certificate_def assms)

lemma tm_inv_reload: "tm_inv usable t \<Longrightarrow> tm_inv usable (snd (reload_certificate usable fetch domain t))"
  by (auto simp: reload_certificate_def Let_def tm_inv_load split: option.splits)

lemma tm_inv_reload_all: "tm_inv usable t \<Longrightarrow> tm_inv usable (snd (reload_all_certificates usable fetch domains t))"
proof -
  have "tm_inv usable (snd r) \<Longrightarrow> tm_inv usable (snd (foldl (\<lambda>(reloaded, t) domain. case reload_certificate usable fetch domain t of
       (ok, t1) \<Rightarrow> (if ok then reloaded + 1 else reloaded, t1)) r domains))" for r
  proof (induction domains arbitrary: r)
    case (Cons d ds)
    obtain n t0 where r: "r = (n, t0)" by (cases r)
    show ?case using Cons tm_inv_reload [of usable t0 fetch d] by (auto simp: r split: prod.splits)
  qed simp
  from this [of "(0, t)"] show "tm_inv usable t \<Longrightarrow> ?thesis" by (simp add: reload_all_certificates_def)
qed

text \<open>Everything that can be done to a manager, with any contents of the key vault at any time.\<close>

inductive tm_reachable :: "(string \<Rightarrow> string \<Rightarrow> bool) \<Rightarrow> TLSManager \<Rightarrow> bool" for usable where
  new: "tm_reachable usable (TLSManager_new usable files uri io)"
| load: "tm_reachable usable t \<Longrightarrow> tm_reachable usable (snd (load_certificate usable fetch secret domain t))"
| reload: "tm_reachable usable t \<Longrightarrow> tm_reachable usable (snd (reload_certificate usable fetch domain t))"
| reload_all: "tm_reachable usable t \<Longrightarrow> tm_reachable usable (snd (reload_all_certificates usable fetch domains t))"
| start: "tm_reachable usable t \<Longrightarrow> tm_reachable usable (start_auto_reload minutes t)"
| stop: "tm_reachable usable t \<Longrightarrow> tm_reachable usable (stop_auto_reload t)"
| timer: "tm_reachable usable t \<Longrightarrow> tm_reachable usable (on_reload_timer usable fetch domains ec t)"

lemma tm_inv_schedule: "tm_inv usable t \<Longrightarrow> tm_inv usable (schedule_reload t)"
  by (simp add: schedule_reload_def tm_inv_def)

lemma tm_reachable_inv: "tm_reachable usable t \<Longrightarrow> tm_inv usable t"
proof (induction rule: tm_reachable.induct)
  case (start t minutes)
  then show ?case by (simp add: start_auto_reload_def schedule_reload_def tm_inv_def)
next
  case (stop t)
  then show ?case by (simp add: stop_auto_reload_def tm_inv_def)
next
  case (timer t fetch domains ec)
  then show ?case by (simp add: on_reload_timer_def tm_inv_schedule tm_inv_reload_all)
qed (simp_all add: tm_inv_new tm_inv_load tm_inv_reload tm_inv_reload_all)


section \<open>The default context\<close>

lemma load_keeps_default:
  assumes "2 \<le> length (tm_certificates t)"
  shows "tm_default_client_context (snd (load_certificate usable fetch secret domain t)) = tm_default_client_context t
    \<and> 2 \<le> length (tm_certificates (snd (load_certificate usable fetch secret domain t)))"
proof -
  have "length m \<le> length (AList.update domain cert m)" for cert and m :: "(string, Certificate) umap"
    by (induction m) auto
  then have "2 \<le> length (AList.update domain cert (tm_certificates t))" for cert using assms by (meson order_trans)
  moreover from this have "length (AList.update domain cert (tm_certificates t)) \<noteq> 1" for cert
    by (metis Suc_1 not_less_eq_eq order_refl)
  ultimately show ?thesis
    using assms by (simp add: load_certificate_def Let_def split: option.splits)
qed

text \<open>
  With two certificates the default context, which clients without a server name get, is never
  renewed: when all certificates are reloaded it keeps the first one loaded, expired or not.
\<close>

theorem default_context_goes_stale:
  assumes "2 \<le> length (tm_certificates t)"
  shows "get_client_context usable ord '''' (snd (reload_all_certificates usable fetch domains t))
    = Some (tm_default_client_context t)"
proof -
  have "2 \<le> length (tm_certificates (snd r)) \<Longrightarrow>
      tm_default_client_context (snd (foldl (\<lambda>(reloaded, t) domain. case reload_certificate usable fetch domain t of
       (ok, t1) \<Rightarrow> (if ok then reloaded + 1 else reloaded, t1)) r domains)) = tm_default_client_context (snd r)" for r
  proof (induction domains arbitrary: r)
    case (Cons d ds)
    obtain n t0 where r: "r = (n, t0)" by (cases r)
    have "tm_default_client_context (snd (reload_certificate usable fetch d t0)) = tm_default_client_context t0
        \<and> 2 \<le> length (tm_certificates (snd (reload_certificate usable fetch d t0)))"
      using Cons.prems load_keeps_default [of t0] by (auto simp: r reload_certificate_def Let_def split: option.splits)
    then show ?case using Cons.IH by (auto simp: r split: prod.splits)
  qed simp
  from this [of "(0, t)"] show ?thesis using assms by (simp add: get_client_context_def reload_all_certificates_def)
qed

section \<open>Witnesses\<close>

definition sample_vault :: "string \<Rightarrow> CertificateData option" where
  "sample_vault name = Some \<lparr>cd_cert_pem = ''CERT '' @ name, cd_key_pem = ''KEY'', cd_version = ''1''\<rparr>"

definition sample_tls :: TLSManager where
  "sample_tls = snd (load_certificate (\<lambda>_ _. True) sample_vault ''s2'' ''b.org''
     (snd (load_certificate (\<lambda>_ _. True) sample_vault ''s1'' ''*.a.org'' (TLSManager_new (\<lambda>_ _. True) None ''v'' False))))"

lemma sample_tls_reachable: "tm_reachable (\<lambda>_ _. True) sample_tls"
  unfolding sample_tls_def by (intro tm_reachable.intros)

lemma sample_tls_certificates: "tm_certificates sample_tls =
    [(''*.a.org'', \<lparr>ce_cert_pem = ''CERT s1'', ce_key_pem = ''KEY'', ce_domain = ''*.a.org'', ce_key_vault_uri = ''v/secrets/s1''\<rparr>),
     (''b.org'', \<lparr>ce_cert_pem = ''CERT s2'', ce_key_pem = ''KEY'', ce_domain = ''b.org'', ce_key_vault_uri = ''v/secrets/s2''\<rparr>)]"
  by code_simp

lemma sample_covering: "covering ''x.a.org'' sample_tls = Some ''*.a.org''" "covering ''y.x.a.org'' sample_tls = None"
  by (simp_all add: covering_def wildcard_of_def sample_tls_certificates)

lemma certificate_choice_witness:
  "match_certificate [''b.org'', ''*.a.org''] ''x.a.org'' sample_tls = ''*.a.org''
   \<and> match_certificate [''b.org'', ''*.a.org''] ''y.x.a.org'' sample_tls = ''''"
  using certificate_choice [of "[''b.org'', ''*.a.org'']" sample_tls "''x.a.org''"]
    certificate_choice [of "[''b.org'', ''*.a.org'']" sample_tls "''y.x.a.org''"]
  by (simp add: sample_covering) (simp add: sample_tls_certificates insert_commute)


lemma default_context_goes_stale_witness:
  "\<exists>ctx. get_client_context (\<lambda>_ _. True) [] '''' (snd (reload_all_certificates (\<lambda>_ _. True) (\<lambda>_. None) [''b.org''] sample_tls)) = Some ctx"
  using default_context_goes_stale [of sample_tls] by (simp add: sample_tls_certificates)

end
