(* ===== verification/Multiplexer.thy ===== *)
theory Multiplexer
  imports Prelude
begin

text \<open>
  \<open>src/proxy/protocol_multiplexer.{h,cpp}\<close>: a second format of TCP frames, with the length of the
  connection id in front of it, and the queue they are written to. The HTTP/2 half of the class is a
  stub in the code and is modelled as such: it answers, and does nothing. Texts are bytes here, as
  the frames store them.
\<close>

section \<open>Frames\<close>

definition MX_TCP_DATA :: u8 where "MX_TCP_DATA = 0x01"
definition MX_TCP_CLOSE :: u8 where "MX_TCP_CLOSE = 0x02"
definition MX_TCP_ERROR :: u8 where "MX_TCP_ERROR = 0x03"
definition MX_TCP_WINDOW :: u8 where "MX_TCP_WINDOW = 0x04"

text \<open>The type is the byte: \<open>deserialize\<close> casts whatever it reads.\<close>

record TCPFrame =
  mf_type :: u8
  mf_connection_id :: bytes
  mf_payload :: bytes

definition TCPFrame_serialize :: "TCPFrame \<Rightarrow> bytes" where
  "TCPFrame_serialize f =
     [mf_type f] @ put_be16 (word_of_nat (length (mf_connection_id f))) @ mf_connection_id f
     @ put_be32 (word_of_nat (length (mf_payload f))) @ mf_payload f"

definition TCPFrame_deserialize :: "bytes \<Rightarrow> TCPFrame result" where
  "TCPFrame_deserialize data =
    (let len = length data in
     if len < 7 then Inl (Runtime_error ''Invalid TCP frame: too short'')
     else let conn_id_len = unat (get_be16 (data ! 1) (data ! 2)) in
       if 3 + conn_id_len + 4 > len then Inl (Runtime_error ''Invalid TCP frame: truncated connection ID'')
       else let offset = 3 + conn_id_len;
                payload_len = unat (get_be32 (data ! offset) (data ! (offset + 1)) (data ! (offset + 2)) (data ! (offset + 3)))
            in if offset + 4 + payload_len > len then Inl (Runtime_error ''Invalid TCP frame: truncated payload'')
               else Inr \<lparr>mf_type = data ! 0, mf_connection_id = take conn_id_len (drop 3 data),
                 mf_payload = take payload_len (drop (offset + 4) data)\<rparr>)"

section \<open>The multiplexer\<close>

datatype mx_event =
  Mx_header int bytes bytes
| Mx_data int bytes bool

record ProtocolMultiplexer =
  mx_output_buffer :: bytes
  mx_header_callback :: bool
  mx_data_callback :: bool
  mx_tcp_frame_callback :: bool
  mx_events :: "mx_event list"

definition ProtocolMultiplexer_new :: ProtocolMultiplexer where
  "ProtocolMultiplexer_new = \<lparr>mx_output_buffer = [], mx_header_callback = False, mx_data_callback = False,
     mx_tcp_frame_callback = False, mx_events = []\<rparr>"

definition initialize_session :: "bool \<Rightarrow> ProtocolMultiplexer \<Rightarrow> bool \<times> ProtocolMultiplexer" where
  "initialize_session is_server m = (True, m)"

definition mx_submit_request :: "bytes \<Rightarrow> bytes \<Rightarrow> (bytes, bytes) umap \<Rightarrow> bytes \<Rightarrow> ProtocolMultiplexer \<Rightarrow> int \<times> ProtocolMultiplexer" where
  "mx_submit_request method path headers body m = (1, m)"

definition mx_submit_response :: "int \<Rightarrow> int \<Rightarrow> (bytes, bytes) umap \<Rightarrow> bytes \<Rightarrow> ProtocolMultiplexer \<Rightarrow> bool \<times> ProtocolMultiplexer" where
  "mx_submit_response stream_id status_code headers body m = (True, m)"

definition process_input :: "bytes \<Rightarrow> ProtocolMultiplexer \<Rightarrow> nat \<times> ProtocolMultiplexer" where
  "process_input data m = (length data, m)"

definition get_output_data :: "ProtocolMultiplexer \<Rightarrow> bytes \<times> ProtocolMultiplexer" where
  "get_output_data m = (mx_output_buffer m, m\<lparr>mx_output_buffer := []\<rparr>)"

definition set_header_callback :: "ProtocolMultiplexer \<Rightarrow> ProtocolMultiplexer" where
  "set_header_callback m = m\<lparr>mx_header_callback := True\<rparr>"

definition set_data_callback :: "ProtocolMultiplexer \<Rightarrow> ProtocolMultiplexer" where
  "set_data_callback m = m\<lparr>mx_data_callback := True\<rparr>"

definition set_tcp_frame_callback :: "ProtocolMultiplexer \<Rightarrow> ProtocolMultiplexer" where
  "set_tcp_frame_callback m = m\<lparr>mx_tcp_frame_callback := True\<rparr>"

definition mx_send_ping :: "ProtocolMultiplexer \<Rightarrow> bool \<times> ProtocolMultiplexer" where
  "mx_send_ping m = (True, m)"

definition send_goaway :: "ProtocolMultiplexer \<Rightarrow> bool \<times> ProtocolMultiplexer" where
  "send_goaway m = (True, m)"

definition wants_write :: "ProtocolMultiplexer \<Rightarrow> bool" where
  "wants_write m \<longleftrightarrow> mx_output_buffer m \<noteq> []"

definition wants_read :: "ProtocolMultiplexer \<Rightarrow> bool" where
  "wants_read m \<longleftrightarrow> True"

definition mx_append :: "bytes \<Rightarrow> ProtocolMultiplexer \<Rightarrow> ProtocolMultiplexer" where
  "mx_append data m = m\<lparr>mx_output_buffer := mx_output_buffer m @ data\<rparr>"

definition mx_send_callback :: "bytes \<Rightarrow> ProtocolMultiplexer \<Rightarrow> nat \<times> ProtocolMultiplexer" where
  "mx_send_callback data m = (length data, mx_append data m)"

definition mx_on_data_chunk :: "u8 \<Rightarrow> int \<Rightarrow> bytes \<Rightarrow> ProtocolMultiplexer \<Rightarrow> ProtocolMultiplexer" where
  "mx_on_data_chunk flags stream_id data m = (if mx_data_callback m
     then m\<lparr>mx_events := mx_events m @ [Mx_data stream_id data (flags AND 0x01 \<noteq> 0)]\<rparr> else m)"

text \<open>The stream is not taken from the frame: it is always 0.\<close>

definition mx_on_header :: "bytes \<Rightarrow> bytes \<Rightarrow> ProtocolMultiplexer \<Rightarrow> ProtocolMultiplexer" where
  "mx_on_header name value m = (if mx_header_callback m
     then m\<lparr>mx_events := mx_events m @ [Mx_header 0 name value]\<rparr> else m)"

definition mx_queue :: "TCPFrame \<Rightarrow> ProtocolMultiplexer \<Rightarrow> bool \<times> ProtocolMultiplexer" where
  "mx_queue frame m = (True, mx_append (TCPFrame_serialize frame) m)"

definition mx_send_tcp_data :: "bytes \<Rightarrow> bytes \<Rightarrow> ProtocolMultiplexer \<Rightarrow> bool \<times> ProtocolMultiplexer" where
  "mx_send_tcp_data cid data = mx_queue \<lparr>mf_type = MX_TCP_DATA, mf_connection_id = cid, mf_payload = data\<rparr>"

definition mx_send_tcp_close :: "bytes \<Rightarrow> ProtocolMultiplexer \<Rightarrow> bool \<times> ProtocolMultiplexer" where
  "mx_send_tcp_close cid = mx_queue \<lparr>mf_type = MX_TCP_CLOSE, mf_connection_id = cid, mf_payload = []\<rparr>"

definition mx_send_tcp_error :: "bytes \<Rightarrow> bytes \<Rightarrow> ProtocolMultiplexer \<Rightarrow> bool \<times> ProtocolMultiplexer" where
  "mx_send_tcp_error cid message = mx_queue \<lparr>mf_type = MX_TCP_ERROR, mf_connection_id = cid, mf_payload = message\<rparr>"

definition mx_send_tcp_window :: "bytes \<Rightarrow> u32 \<Rightarrow> ProtocolMultiplexer \<Rightarrow> bool \<times> ProtocolMultiplexer" where
  "mx_send_tcp_window cid window_size =
     mx_queue \<lparr>mf_type = MX_TCP_WINDOW, mf_connection_id = cid, mf_payload = put_be32 window_size\<rparr>"

section \<open>Reading what was written\<close>

definition frame_fits :: "TCPFrame \<Rightarrow> bool" where
  "frame_fits f \<longleftrightarrow> length (mf_connection_id f) < 2 ^ 16 \<and> length (mf_payload f) < 2 ^ 32"

lemma serialize_layout:
  assumes "conn = length (mf_connection_id f)" "data = TCPFrame_serialize f @ rest"
  shows "length data = 7 + conn + length (mf_payload f) + length rest" "data ! 0 = mf_type f"
    "get_be16 (data ! 1) (data ! 2) = word_of_nat conn"
    "drop 3 data = mf_connection_id f @ put_be32 (word_of_nat (length (mf_payload f))) @ mf_payload f @ rest"
proof -
  obtain a b where ab: "word_of_nat conn = get_be16 a b" using get_be16_cases by blast
  have d: "data = mf_type f # a # b # mf_connection_id f @ put_be32 (word_of_nat (length (mf_payload f))) @ mf_payload f @ rest"
    using ab by (simp add: assms TCPFrame_serialize_def put_get_be16)
  show "length data = 7 + conn + length (mf_payload f) + length rest" "data ! 0 = mf_type f"
    "get_be16 (data ! 1) (data ! 2) = word_of_nat conn"
    "drop 3 data = mf_connection_id f @ put_be32 (word_of_nat (length (mf_payload f))) @ mf_payload f @ rest"
    using ab by (simp_all add: d assms(1))
qed

lemma unat_of_nat_small: "n < 2 ^ LENGTH('a) \<Longrightarrow> unat (word_of_nat n :: 'a::len word) = n"
  by (simp add: unat_of_nat take_bit_nat_eq_self)

lemma get_be32_in_list:
  assumes "drop i data = put_be32 x @ rest"
  shows "get_be32 (data ! i) (data ! (i + 1)) (data ! (i + 2)) (data ! (i + 3)) = x"
proof -
  have n: "data ! (i + k) = put_be32 x ! k" if "k < 4" for k
  proof -
    have "i \<le> length data" using assms by (metis append_is_Nil_conv drop_all length_put_be(2) list.size(3) nat_le_linear zero_neq_numeral)
    then have "data ! (i + k) = drop i data ! k" by simp
    then show ?thesis using that by (simp add: assms nth_append)
  qed
  show ?thesis using n [of 0] n [of 1] n [of 2] n [of 3] get_put_be32 [of x] by simp
qed

lemma deserialize_fits:
  assumes "frame_fits f"
  shows "TCPFrame_deserialize (TCPFrame_serialize f @ rest) = Inr f"
proof -
  let ?d = "TCPFrame_serialize f @ rest" and ?c = "length (mf_connection_id f)" and ?p = "length (mf_payload f)"
  note lay = serialize_layout [OF refl refl, of f rest]
  have c: "unat (get_be16 (?d ! 1) (?d ! 2)) = ?c"
    unfolding lay(3) using assms by (intro unat_of_nat_small) (simp add: frame_fits_def)
  have dr: "drop (3 + ?c) ?d = put_be32 (word_of_nat ?p) @ mf_payload f @ rest"
    unfolding add.commute [of 3] drop_drop [symmetric] lay(4) by simp
  have p: "unat (get_be32 (?d ! (3 + ?c)) (?d ! (3 + ?c + 1)) (?d ! (3 + ?c + 2)) (?d ! (3 + ?c + 3))) = ?p"
    unfolding get_be32_in_list [OF dr] using assms by (intro unat_of_nat_small) (simp add: frame_fits_def)
  have pay: "drop (3 + ?c + 4) ?d = mf_payload f @ rest"
    unfolding add.commute [of _ 4] drop_drop [symmetric, of 4] dr by (simp add: put_be32_def)
  show ?thesis
    unfolding TCPFrame_deserialize_def Let_def c p pay lay(1,2,4) by simp
qed

lemma deserialize_id_short: "TCPFrame_deserialize data = Inr g \<Longrightarrow> length (mf_connection_id g) < 2 ^ 16"
proof -
  assume "TCPFrame_deserialize data = Inr g"
  then have "mf_connection_id g = take (unat (get_be16 (data ! 1) (data ! 2))) (drop 3 data)"
    by (auto simp: TCPFrame_deserialize_def Let_def split: if_splits)
  then have "length (mf_connection_id g) \<le> unat (get_be16 (data ! 1) (data ! 2))"
    by (metis length_take min.cobounded2)
  also have "\<dots> < 2 ^ 16" by (rule order_less_le_trans [OF unsigned_less]) simp
  finally show ?thesis .
qed

text \<open>
  A frame whose lengths fit into their fields is read back, whatever follows it. A connection id of
  64 KiB or more does not fit: its length is cut, and what is read, if anything, has another id.
\<close>

theorem mux_frame_round_trip:
  "(frame_fits f \<longrightarrow> TCPFrame_deserialize (TCPFrame_serialize f @ rest) = Inr f)
   \<and> (2 ^ 16 \<le> length (mf_connection_id f) \<longrightarrow> TCPFrame_deserialize (TCPFrame_serialize f @ rest) \<noteq> Inr f)"
proof (intro conjI impI notI)
  assume "frame_fits f"
  then show "TCPFrame_deserialize (TCPFrame_serialize f @ rest) = Inr f" by (rule deserialize_fits)
next
  assume "2 ^ 16 \<le> length (mf_connection_id f)" "TCPFrame_deserialize (TCPFrame_serialize f @ rest) = Inr f"
  then show False using deserialize_id_short [of "TCPFrame_serialize f @ rest" f] by simp
qed

text \<open>A reader of the output takes one frame after the other.\<close>

function read_frames :: "bytes \<Rightarrow> TCPFrame list result" where
  "read_frames data = (if data = [] then Inr []
     else bind_result (TCPFrame_deserialize data) (\<lambda>f.
       bind_result (read_frames (drop (7 + length (mf_connection_id f) + length (mf_payload f)) data)) (\<lambda>fs. Inr (f # fs))))"
  by pat_completeness auto
termination by (relation "measure length") auto

declare read_frames.simps [simp del]

datatype mux_send = Snd_data bytes bytes | Snd_close bytes | Snd_error bytes bytes | Snd_window bytes u32

fun mx_frame :: "mux_send \<Rightarrow> TCPFrame" where
  "mx_frame (Snd_data cid d) = \<lparr>mf_type = MX_TCP_DATA, mf_connection_id = cid, mf_payload = d\<rparr>"
| "mx_frame (Snd_close cid) = \<lparr>mf_type = MX_TCP_CLOSE, mf_connection_id = cid, mf_payload = []\<rparr>"
| "mx_frame (Snd_error cid msg) = \<lparr>mf_type = MX_TCP_ERROR, mf_connection_id = cid, mf_payload = msg\<rparr>"
| "mx_frame (Snd_window cid w) = \<lparr>mf_type = MX_TCP_WINDOW, mf_connection_id = cid, mf_payload = put_be32 w\<rparr>"

fun mx_send :: "mux_send \<Rightarrow> ProtocolMultiplexer \<Rightarrow> ProtocolMultiplexer" where
  "mx_send (Snd_data cid d) m = snd (mx_send_tcp_data cid d m)"
| "mx_send (Snd_close cid) m = snd (mx_send_tcp_close cid m)"
| "mx_send (Snd_error cid msg) m = snd (mx_send_tcp_error cid msg m)"
| "mx_send (Snd_window cid w) m = snd (mx_send_tcp_window cid w m)"

lemma mx_send_output: "mx_output_buffer (mx_send x m) = mx_output_buffer m @ TCPFrame_serialize (mx_frame x)"
  by (cases x) (simp_all add: mx_send_tcp_data_def mx_send_tcp_close_def mx_send_tcp_error_def mx_send_tcp_window_def
      mx_queue_def mx_append_def)

lemma read_frames_concat:
  "\<forall>f \<in> set fs. frame_fits f \<Longrightarrow> read_frames (concat (map TCPFrame_serialize fs)) = Inr fs"
proof (induction fs)
  case Nil
  then show ?case by (simp add: read_frames.simps)
next
  case (Cons f fs)
  have ne: "TCPFrame_serialize f \<noteq> []" by (simp add: TCPFrame_serialize_def)
  have n: "7 + length (mf_connection_id f) + length (mf_payload f) = length (TCPFrame_serialize f)"
    by (simp add: TCPFrame_serialize_def)
  show ?case
    using Cons deserialize_fits [of f "concat (map TCPFrame_serialize fs)"] ne
    by (subst read_frames.simps) (simp add: n)
qed

text \<open>
  C31. Whatever is sent, of ids and payloads that fit, what is taken from the queue is read back as the
  frames sent, in order; then the queue is empty and there is nothing to write.
\<close>

theorem mux_output_decodes:
  assumes "\<forall>x \<in> set xs. frame_fits (mx_frame x)" "get_output_data (fold mx_send xs ProtocolMultiplexer_new) = (out, m)"
  shows "read_frames out = Inr (map mx_frame xs) \<and> \<not> wants_write m"
proof -
  have "mx_output_buffer (fold mx_send xs m0) = mx_output_buffer m0 @ concat (map TCPFrame_serialize (map mx_frame xs))" for m0
    by (induction xs arbitrary: m0) (simp_all add: mx_send_output)
  then have "out = concat (map TCPFrame_serialize (map mx_frame xs))" "mx_output_buffer m = []"
    using assms(2) by (auto simp: get_output_data_def ProtocolMultiplexer_new_def)
  then show ?thesis using read_frames_concat [of "map mx_frame xs"] assms(1) by (simp add: wants_write_def)
qed

section \<open>Witnesses\<close>

lemma mux_frame_round_trip_witness:
  "TCPFrame_deserialize (TCPFrame_serialize \<lparr>mf_type = 1, mf_connection_id = [7, 8], mf_payload = [9]\<rparr> @ [4])
     = Inr \<lparr>mf_type = 1, mf_connection_id = [7, 8], mf_payload = [9]\<rparr>"
  using mux_frame_round_trip [of "\<lparr>mf_type = 1, mf_connection_id = [7, 8], mf_payload = [9]\<rparr>" "[4]"]
  by (simp add: frame_fits_def)

lemma mux_output_decodes_witness:
  "read_frames (fst (get_output_data (fold mx_send [Snd_data [7] [1, 2], Snd_window [7] 65536] ProtocolMultiplexer_new)))
    = Inr [\<lparr>mf_type = 1, mf_connection_id = [7], mf_payload = [1, 2]\<rparr>, \<lparr>mf_type = 4, mf_connection_id = [7], mf_payload = [0, 1, 0, 0]\<rparr>]"
proof -
  have "put_be32 65536 = [0, 1, 0, 0]" by code_simp
  then show ?thesis
    using mux_output_decodes [of "[Snd_data [7] [1, 2], Snd_window [7] 65536]", OF _ surjective_pairing]
    by (simp add: frame_fits_def MX_TCP_DATA_def MX_TCP_WINDOW_def)
qed

end
