(* ===== verification/Logging.thy ===== *)
theory Logging
  imports Tunnel_Model
begin

text \<open>
  \<open>src/observability\<close>: the logger with its batches for Log Analytics (\<open>logger.{h,cpp}\<close>), the audit log
  (\<open>audit_logger.{h,cpp}\<close>) and the spans of the tracer (\<open>tracer.{h,cpp}\<close>); at the end the logger of
  the agent (\<open>src/tunnel-agent/src/utils/logger\<close>). Printing JSON (\<open>None\<close> where a text is not UTF-8:
  \<open>dump\<close> throws), the HMAC (\<open>None\<close>: the key is no base64), dates and random numbers are arguments.
\<close>

section \<open>The logger\<close>

datatype LogLevel = LOG_DEBUG | LOG_INFO | LOG_WARNING | LOG_ERROR | LOG_CRITICAL

fun level_number :: "LogLevel \<Rightarrow> nat" where
  "level_number LOG_DEBUG = 0"
| "level_number LOG_INFO = 1"
| "level_number LOG_WARNING = 2"
| "level_number LOG_ERROR = 3"
| "level_number LOG_CRITICAL = 4"

lemma level_number_inject: "level_number a = level_number b \<Longrightarrow> a = b"
  by (cases a; cases b) simp_all

instantiation LogLevel :: linorder
begin

definition less_eq_LogLevel :: "LogLevel \<Rightarrow> LogLevel \<Rightarrow> bool" where
  "a \<le> b \<longleftrightarrow> level_number a \<le> level_number b"

definition less_LogLevel :: "LogLevel \<Rightarrow> LogLevel \<Rightarrow> bool" where
  "a < b \<longleftrightarrow> level_number a < level_number b"

instance
  by standard (auto simp: less_eq_LogLevel_def less_LogLevel_def intro: level_number_inject)

end

fun level_to_string :: "LogLevel \<Rightarrow> string" where
  "level_to_string LOG_DEBUG = ''DEBUG''"
| "level_to_string LOG_INFO = ''INFO''"
| "level_to_string LOG_WARNING = ''WARNING''"
| "level_to_string LOG_ERROR = ''ERROR''"
| "level_to_string LOG_CRITICAL = ''CRITICAL''"

record Logger =
  lg_min_level :: LogLevel
  lg_workspace_id :: string
  lg_workspace_key :: string
  lg_log_analytics_enabled :: bool
  lg_log_buffer :: "json list"
  lg_last_flush :: int
  lg_output :: "string list"

record LogEnv =
  le_dump :: "json \<Rightarrow> string option"
  le_hmac :: "string \<Rightarrow> string \<Rightarrow> string option"
  le_timestamp :: string
  le_date :: string
  le_now :: int

definition Logger_new :: Logger where
  "Logger_new = \<lparr>lg_min_level = LOG_INFO, lg_workspace_id = '''', lg_workspace_key = '''', lg_log_analytics_enabled = False,
     lg_log_buffer = [], lg_last_flush = 0, lg_output = []\<rparr>"

definition lg_initialize :: "int \<Rightarrow> LogLevel \<Rightarrow> string \<Rightarrow> string \<Rightarrow> Logger option \<Rightarrow> Logger option" where
  "lg_initialize now min_level workspace_id workspace_key g = (case g of
     Some l \<Rightarrow> Some l
   | None \<Rightarrow> Some (Logger_new\<lparr>lg_min_level := min_level, lg_workspace_id := workspace_id, lg_workspace_key := workspace_key,
       lg_log_analytics_enabled := (workspace_id \<noteq> '''' \<and> workspace_key \<noteq> ''''), lg_last_flush := now\<rparr>))"

definition lg_instance :: "int \<Rightarrow> Logger option \<Rightarrow> Logger" where
  "lg_instance now g = (case g of Some l \<Rightarrow> l | None \<Rightarrow> the (lg_initialize now LOG_INFO '''' '''' g))"

definition batch_size :: nat where
  "batch_size = 100"

definition batch_interval :: int where
  "batch_interval = 10"

definition log_entry :: "LogEnv \<Rightarrow> LogLevel \<Rightarrow> string \<Rightarrow> (string \<times> string) list \<Rightarrow> json" where
  "log_entry env level message kvs =
    (let j = J_obj [(''timestamp'', J_str (le_timestamp env)), (''level'', J_str (level_to_string level)),
           (''message'', J_str message), (''service'', J_str ''protogate'')]
     in if kvs = [] then j else jset ''fields'' (J_obj (map (\<lambda>(k, v). (k, J_str v)) kvs)) j)"

definition lg_emit :: "LogEnv \<Rightarrow> json \<Rightarrow> Logger \<Rightarrow> Logger result" where
  "lg_emit env entry l = (case le_dump env entry of
     None \<Rightarrow> Inl type_error
   | Some line \<Rightarrow> Inr (l\<lparr>lg_output := lg_output l @ [line]\<rparr>))"

definition lg_cleared :: "LogEnv \<Rightarrow> Logger \<Rightarrow> Logger" where
  "lg_cleared env l = l\<lparr>lg_log_buffer := [], lg_last_flush := le_now env\<rparr>"

definition signature_string :: "LogEnv \<Rightarrow> string \<Rightarrow> string" where
  "signature_string env body = ''POST'' @ [CHR 0x0A] @ nat_string (length body) @ [CHR 0x0A] @ ''application/json''
     @ [CHR 0x0A] @ ''x-ms-date:'' @ le_date env @ [CHR 0x0A] @ ''/api/logs''"

text \<open>
  \<open>log\<close> and \<open>flush\<close> call each other; the first argument is fuel and \<open>None\<close> says that it ran out. A
  result \<open>Inl\<close> is an exception. Inside \<open>flush\<close> every exception is caught.
\<close>

fun lg_log :: "nat \<Rightarrow> LogEnv \<Rightarrow> LogLevel \<Rightarrow> string \<Rightarrow> (string \<times> string) list \<Rightarrow> Logger \<Rightarrow> Logger result option"
and lg_flush :: "nat \<Rightarrow> LogEnv \<Rightarrow> Logger \<Rightarrow> Logger result option" where
  "lg_log 0 env level message kvs l = None"
| "lg_log (Suc n) env level message kvs l =
    (if level < lg_min_level l then Some (Inr l)
     else let entry = log_entry env level message kvs in
       case lg_emit env entry l of
         Inl e \<Rightarrow> Some (Inl e)
       | Inr l1 \<Rightarrow>
           if lg_log_analytics_enabled l1
           then let l2 = l1\<lparr>lg_log_buffer := lg_log_buffer l1 @ [entry]\<rparr>
                in if batch_size \<le> length (lg_log_buffer l2)
                      \<or> batch_interval \<le> trunc_div (le_now env - lg_last_flush l2) 1000000000
                   then lg_flush n env l2 else Some (Inr l2)
           else Some (Inr l1))"
| "lg_flush 0 env l = None"
| "lg_flush (Suc n) env l =
    (if lg_log_buffer l = [] then Some (Inr l)
     else if \<not> lg_log_analytics_enabled l \<or> lg_workspace_id l = '''' \<or> lg_workspace_key l = ''''
     then Some (Inr (lg_cleared env l))
     else case le_dump env (J_arr (lg_log_buffer l)) of
       None \<Rightarrow> Some (Inr (lg_cleared env l))
     | Some body \<Rightarrow>
         (case le_hmac env (lg_workspace_key l) (signature_string env body) of
            None \<Rightarrow> Some (Inr (lg_cleared env l))
          | Some signature \<Rightarrow>
              (case lg_log n env LOG_DEBUG ''Would send batch to Log Analytics''
                  [(''batch_size'', nat_string (length (lg_log_buffer l))), (''body_bytes'', nat_string (length body)),
                   (''workspace_id'', lg_workspace_id l)] l of
                 None \<Rightarrow> None
               | Some (Inl e) \<Rightarrow> Some (Inr (lg_cleared env l))
               | Some (Inr l1) \<Rightarrow> Some (Inr (lg_cleared env l1)))))"

definition lg_debug :: "nat \<Rightarrow> LogEnv \<Rightarrow> string \<Rightarrow> (string \<times> string) list \<Rightarrow> Logger \<Rightarrow> Logger result option" where
  "lg_debug n env message kvs l = lg_log n env LOG_DEBUG message kvs l"

definition lg_info :: "nat \<Rightarrow> LogEnv \<Rightarrow> string \<Rightarrow> (string \<times> string) list \<Rightarrow> Logger \<Rightarrow> Logger result option" where
  "lg_info n env message kvs l = lg_log n env LOG_INFO message kvs l"

definition lg_warning :: "nat \<Rightarrow> LogEnv \<Rightarrow> string \<Rightarrow> (string \<times> string) list \<Rightarrow> Logger \<Rightarrow> Logger result option" where
  "lg_warning n env message kvs l = lg_log n env LOG_WARNING message kvs l"

definition lg_error :: "nat \<Rightarrow> LogEnv \<Rightarrow> string \<Rightarrow> (string \<times> string) list \<Rightarrow> Logger \<Rightarrow> Logger result option" where
  "lg_error n env message kvs l = lg_log n env LOG_ERROR message kvs l"

definition lg_critical :: "nat \<Rightarrow> LogEnv \<Rightarrow> string \<Rightarrow> (string \<times> string) list \<Rightarrow> Logger \<Rightarrow> Logger result option" where
  "lg_critical n env message kvs l = lg_log n env LOG_CRITICAL message kvs l"

definition set_min_level :: "LogLevel \<Rightarrow> Logger \<Rightarrow> Logger" where
  "set_min_level level l = l\<lparr>lg_min_level := level\<rparr>"

section \<open>The logger terminates unless it logs its own uploads\<close>

definition accepts_all :: "LogEnv \<Rightarrow> bool" where
  "accepts_all env \<longleftrightarrow> (\<forall>j. le_dump env j \<noteq> None) \<and> (\<forall>k t. le_hmac env k t \<noteq> None)"

lemma flush_diverges:
  assumes "accepts_all env" "lg_min_level l = LOG_DEBUG" "lg_log_analytics_enabled l" "lg_workspace_id l \<noteq> ''''"
    "lg_workspace_key l \<noteq> ''''" "batch_size \<le> length (lg_log_buffer l)"
  shows "lg_flush n env l = None"
    and "lg_log n env level message kvs l = None"
  using assms
proof (induction n arbitrary: l level message kvs)
  case (Suc n)
  {
    case 1
    have ne: "lg_log_buffer l \<noteq> []" using 1(6) by (auto simp: batch_size_def)
    obtain body where body: "le_dump env (J_arr (lg_log_buffer l)) = Some body"
      using 1(1) unfolding accepts_all_def by blast
    obtain sig where sig: "le_hmac env (lg_workspace_key l) (signature_string env body) = Some sig"
      using 1(1) unfolding accepts_all_def by blast
    show ?case using 1 ne body sig Suc.IH(2) by simp
  next
    case 2
    obtain line where line: "le_dump env (log_entry env level message kvs) = Some line"
      using 2(1) unfolding accepts_all_def by blast
    show ?case using 2 line Suc.IH(1) by (simp add: less_LogLevel_def lg_emit_def Let_def)
  }
qed simp_all

text \<open>
  C28. With the level \<open>DEBUG\<close> and Log Analytics on, the entry that fills a batch never returns: the
  upload logs a line, which is appended to the batch that is still full, which starts an upload.
\<close>

theorem debug_logging_diverges:
  assumes "accepts_all env" "lg_min_level l = LOG_DEBUG" "lg_log_analytics_enabled l" "lg_workspace_id l \<noteq> ''''"
    "lg_workspace_key l \<noteq> ''''" "batch_size \<le> length (lg_log_buffer l) + 1"
  shows "lg_log n env level message kvs l = None"
proof (cases n)
  case (Suc k)
  obtain line where line: "le_dump env (log_entry env level message kvs) = Some line"
    using assms(1) unfolding accepts_all_def by blast
  show ?thesis
    using assms line flush_diverges(1) [of env _ k]
    by (simp add: Suc less_LogLevel_def lg_emit_def Let_def)
qed simp

definition lg_inv :: "Logger \<Rightarrow> bool" where
  "lg_inv l \<longleftrightarrow> (lg_log_analytics_enabled l \<longrightarrow> lg_workspace_id l \<noteq> '''' \<and> lg_workspace_key l \<noteq> '''')
    \<and> length (lg_log_buffer l) < batch_size"

lemma flush_above_debug:
  assumes "LOG_DEBUG < lg_min_level l"
  shows "\<exists>l'. lg_flush (Suc (Suc n)) env l = Some (Inr l') \<and> lg_log_buffer l' = [] \<and> lg_min_level l' = lg_min_level l
    \<and> lg_output l' = lg_output l \<and> lg_log_analytics_enabled l' = lg_log_analytics_enabled l
    \<and> lg_workspace_id l' = lg_workspace_id l \<and> lg_workspace_key l' = lg_workspace_key l"
  using assms by (auto simp: lg_cleared_def split: option.splits)

text \<open>
  C26. Above \<open>DEBUG\<close> three levels of calls are enough: an entry below the least level changes nothing, any
  other is one line of output (or an exception, when it is not UTF-8, and then nothing else), and
  the batch stays below its size.
\<close>

theorem logging_terminates:
  assumes "LOG_DEBUG < lg_min_level l" "lg_inv l" "3 \<le> n"
  shows "\<exists>r. lg_log n env level message kvs l = Some r
    \<and> (case r of
        Inl e \<Rightarrow> lg_min_level l \<le> level \<and> le_dump env (log_entry env level message kvs) = None
      | Inr l' \<Rightarrow> lg_inv l' \<and> lg_min_level l' = lg_min_level l
          \<and> (if level < lg_min_level l then l' = l
             else lg_output l' = lg_output l @ [the (le_dump env (log_entry env level message kvs))]))"
proof -
  obtain k where n: "n = Suc (Suc (Suc k))" using assms(3) by (metis add_2_eq_Suc le_Suc_ex numeral_3_eq_3 add_Suc)
  show ?thesis
  proof (cases "level < lg_min_level l")
    case True
    then show ?thesis using assms(2) by (simp add: n)
  next
    case False
    show ?thesis
    proof (cases "le_dump env (log_entry env level message kvs)")
      case None
      then show ?thesis using False by (simp add: n lg_emit_def Let_def)
    next
      case (Some line)
      define l1 where "l1 = l\<lparr>lg_output := lg_output l @ [line]\<rparr>"
      define l2 where "l2 = l1\<lparr>lg_log_buffer := lg_log_buffer l1 @ [log_entry env level message kvs]\<rparr>"
      have "lg_log n env level message kvs l = (if lg_log_analytics_enabled l1
           then if batch_size \<le> length (lg_log_buffer l2)
                      \<or> batch_interval \<le> trunc_div (le_now env - lg_last_flush l2) 1000000000
                   then lg_flush (Suc (Suc k)) env l2 else Some (Inr l2) else Some (Inr l1))"
        using False Some by (simp only: n lg_log.simps lg_emit_def l1_def l2_def Let_def option.case sum.case if_False)
      moreover have "LOG_DEBUG < lg_min_level l2" using assms(1) by (simp add: l1_def l2_def)
      from flush_above_debug [OF this, of k env] obtain l' where l': "lg_flush (Suc (Suc k)) env l2 = Some (Inr l')"
        "lg_log_buffer l' = []" "lg_min_level l' = lg_min_level l2" "lg_output l' = lg_output l2"
        "lg_log_analytics_enabled l' = lg_log_analytics_enabled l2"
        "lg_workspace_id l' = lg_workspace_id l2" "lg_workspace_key l' = lg_workspace_key l2"
        by blast
      moreover have "lg_inv l'" using l' assms(2) by (simp add: lg_inv_def l1_def l2_def batch_size_def)
      ultimately show ?thesis using False Some assms(2)
        by (auto simp: lg_inv_def l1_def l2_def not_le)
    qed
  qed
qed

section \<open>The audit log\<close>

text \<open>
  An audit event becomes one call of the logger: level, message and fields (a map, whose order does
  not matter). \<open>dumped\<close> is the text of
  the event; \<open>shown\<close> is \<open>std::to_string\<close> of a \<open>double\<close>.
\<close>

type_synonym log_call = "LogLevel \<times> string \<times> (string \<times> string) list"

definition log_event :: "(json \<Rightarrow> string) \<Rightarrow> AuditEvent \<Rightarrow> log_call" where
  "log_event dumped event =
    (let field = [(''audit_event'', dumped (AuditEvent_to_json event))]
     in case ae_severity event of
          INFO \<Rightarrow> (LOG_INFO, ''AUDIT'', field)
        | WARNING \<Rightarrow> (LOG_WARNING, ''AUDIT'', field)
        | ERROR \<Rightarrow> (LOG_ERROR, ''AUDIT'', field)
        | CRITICAL \<Rightarrow> (LOG_ERROR, ''AUDIT_CRITICAL'', field))"

definition with_metadata :: "(string \<times> string) list \<Rightarrow> AuditEvent \<Rightarrow> AuditEvent" where
  "with_metadata m event = event\<lparr>ae_metadata := m\<rparr>"

definition log_ip_blocked :: "(json \<Rightarrow> string) \<Rightarrow> int \<Rightarrow> string \<Rightarrow> string \<Rightarrow> string \<Rightarrow> string \<Rightarrow> log_call" where
  "log_ip_blocked dumped now tid source_ip proto reason =
     log_event dumped (with_metadata [(''protocol'', proto), (''reason'', reason)]
       (AuditEvent_create now IP_BLOCKED WARNING ''IP address blocked by allowlist'' tid source_ip))"

definition log_rate_limit_exceeded ::
  "(json \<Rightarrow> string) \<Rightarrow> (rat \<Rightarrow> string) \<Rightarrow> int \<Rightarrow> string \<Rightarrow> string \<Rightarrow> string \<Rightarrow> rat \<Rightarrow> rat \<Rightarrow> log_call" where
  "log_rate_limit_exceeded dumped shown now tid source_ip limit_type current_rate limit =
     log_event dumped (with_metadata [(''current_rate'', shown current_rate), (''limit'', shown limit), (''limit_type'', limit_type)]
       (AuditEvent_create now RATE_LIMIT_EXCEEDED WARNING ''Rate limit exceeded'' tid source_ip))"

definition log_auth_failed :: "(json \<Rightarrow> string) \<Rightarrow> int \<Rightarrow> string \<Rightarrow> string \<Rightarrow> string \<Rightarrow> log_call" where
  "log_auth_failed dumped now tid source_ip reason =
     log_event dumped (with_metadata [(''reason'', reason)]
       (AuditEvent_create now AUTH_FAILED WARNING ''Authentication failed'' tid source_ip))"

definition log_tunnel_event ::
  "(json \<Rightarrow> string) \<Rightarrow> int \<Rightarrow> AuditEventType \<Rightarrow> string \<Rightarrow> string \<Rightarrow> (string \<times> string) list \<Rightarrow> log_call" where
  "log_tunnel_event dumped now ty tid user_id metadata =
    (let (sev, message) = (case ty of
            TUNNEL_CREATED \<Rightarrow> (INFO, ''Tunnel created'')
          | TUNNEL_DELETED \<Rightarrow> (INFO, ''Tunnel deleted'')
          | TUNNEL_SUSPENDED \<Rightarrow> (WARNING, ''Tunnel suspended'')
          | TUNNEL_RESUMED \<Rightarrow> (INFO, ''Tunnel resumed'')
          | _ \<Rightarrow> (INFO, ''Tunnel event''))
     in log_event dumped ((AuditEvent_create now ty sev message tid '''')\<lparr>ae_user_id := user_id, ae_metadata := metadata\<rparr>))"

definition log_agent_event ::
  "(json \<Rightarrow> string) \<Rightarrow> int \<Rightarrow> AuditEventType \<Rightarrow> string \<Rightarrow> string \<Rightarrow> string \<Rightarrow> (string \<times> string) list \<Rightarrow> log_call" where
  "log_agent_event dumped now ty tid agent_id source_ip metadata =
    (let message = (case ty of
            AGENT_CONNECTED \<Rightarrow> ''Agent connected''
          | AGENT_DISCONNECTED \<Rightarrow> ''Agent disconnected''
          | _ \<Rightarrow> ''Agent event'')
     in log_event dumped ((AuditEvent_create now ty INFO message tid source_ip)\<lparr>ae_agent_id := agent_id, ae_metadata := metadata\<rparr>))"

section \<open>Spans\<close>

datatype SpanStatus = UNSET | OK | SPAN_ERROR

record Span =
  sp_operation_name :: string
  sp_trace_id :: string
  sp_span_id :: string
  sp_parent_span_id :: "string option"
  sp_start_time :: int
  sp_end_time :: int
  sp_attributes :: "(string, string) umap"
  sp_events :: "(string \<times> (string \<times> string) list) list"
  sp_status :: SpanStatus
  sp_status_description :: string
  sp_ended :: bool
  sp_log :: "log_call list"

definition generate_span_id :: "u64 \<Rightarrow> string" where
  "generate_span_id r = hex16 r"

definition generate_trace_id :: "u64 \<Rightarrow> u64 \<Rightarrow> string" where
  "generate_trace_id high low = hex16 high @ hex16 low"

definition span_log :: "LogLevel \<Rightarrow> string \<Rightarrow> (string \<times> string) list \<Rightarrow> Span \<Rightarrow> Span" where
  "span_log level message kvs s = s\<lparr>sp_log := sp_log s @ [(level, message, kvs)]\<rparr>"

definition Span_child :: "int \<Rightarrow> u64 \<Rightarrow> string \<Rightarrow> string \<Rightarrow> string \<Rightarrow> Span" where
  "Span_child now r operation trace_id parent =
    (let s = \<lparr>sp_operation_name = operation, sp_trace_id = trace_id, sp_span_id = generate_span_id r,
           sp_parent_span_id = Some parent, sp_start_time = now, sp_end_time = 0, sp_attributes = [], sp_events = [],
           sp_status = UNSET, sp_status_description = '''', sp_ended = False, sp_log = []\<rparr>
     in span_log LOG_DEBUG ''Span started (child)'' [(''operation'', operation), (''parent_span_id'', parent),
          (''span_id'', sp_span_id s), (''trace_id'', trace_id)] s)"

definition Span_root :: "int \<Rightarrow> u64 \<Rightarrow> u64 \<Rightarrow> u64 \<Rightarrow> string \<Rightarrow> Span" where
  "Span_root now high low r operation =
    (let s = \<lparr>sp_operation_name = operation, sp_trace_id = generate_trace_id high low, sp_span_id = generate_span_id r,
           sp_parent_span_id = None, sp_start_time = now, sp_end_time = 0, sp_attributes = [], sp_events = [],
           sp_status = UNSET, sp_status_description = '''', sp_ended = False, sp_log = []\<rparr>
     in span_log LOG_DEBUG ''Span started (root)'' [(''operation'', operation), (''span_id'', sp_span_id s),
          (''trace_id'', sp_trace_id s)] s)"

datatype attribute = Attr_string string | Attr_int int | Attr_double rat | Attr_bool bool

text \<open>\<open>fixed\<close>: a \<open>double\<close> with two decimals.\<close>

definition attribute_text :: "(rat \<Rightarrow> string) \<Rightarrow> attribute \<Rightarrow> string" where
  "attribute_text fixed a = (case a of
     Attr_string s \<Rightarrow> s | Attr_int i \<Rightarrow> int_string i | Attr_double d \<Rightarrow> fixed d
   | Attr_bool b \<Rightarrow> if b then ''true'' else ''false'')"

definition add_attribute :: "(rat \<Rightarrow> string) \<Rightarrow> string \<Rightarrow> attribute \<Rightarrow> Span \<Rightarrow> Span" where
  "add_attribute fixed key a s = (if sp_ended s then s
     else s\<lparr>sp_attributes := AList.update key (attribute_text fixed a) (sp_attributes s)\<rparr>)"

definition add_event :: "string \<Rightarrow> (string \<times> string) list \<Rightarrow> Span \<Rightarrow> Span" where
  "add_event name attributes s = (if sp_ended s then s
     else span_log LOG_DEBUG ''Span event'' (AList.update ''span_id'' (sp_span_id s) (AList.update ''trace_id'' (sp_trace_id s)
            (AList.update ''span_event'' name attributes))) (s\<lparr>sp_events := sp_events s @ [(name, attributes)]\<rparr>))"

definition set_status :: "SpanStatus \<Rightarrow> string \<Rightarrow> Span \<Rightarrow> Span" where
  "set_status st description s = (if sp_ended s then s else s\<lparr>sp_status := st, sp_status_description := description\<rparr>)"

definition end_fields :: "int \<Rightarrow> Span \<Rightarrow> (string \<times> string) list" where
  "end_fields now s =
    (let f = AList.update ''duration_ms'' (int_string (to_ms (now - sp_start_time s)))
           (AList.update ''span_id'' (sp_span_id s) (AList.update ''trace_id'' (sp_trace_id s)
           (AList.update ''operation'' (sp_operation_name s) (sp_attributes s))));
         f1 = (case sp_parent_span_id s of None \<Rightarrow> f | Some p \<Rightarrow> AList.update ''parent_span_id'' p f);
         f2 = AList.update ''status'' (case sp_status s of OK \<Rightarrow> ''OK'' | SPAN_ERROR \<Rightarrow> ''ERROR'' | UNSET \<Rightarrow> ''UNSET'') f1
     in if sp_status_description s \<noteq> '''' then AList.update ''status_description'' (sp_status_description s) f2 else f2)"

definition span_end :: "int \<Rightarrow> Span \<Rightarrow> Span" where
  "span_end now s = (if sp_ended s then s
     else span_log (if sp_status s = SPAN_ERROR then LOG_ERROR else LOG_INFO) ''Span ended'' (end_fields now s)
            (s\<lparr>sp_ended := True, sp_end_time := now\<rparr>))"

definition span_destroy :: "int \<Rightarrow> Span \<Rightarrow> Span" where
  "span_destroy now s = (if \<not> sp_ended s then span_end now s else s)"

text \<open>The move constructor is the default one: the flag \<open>ended_\<close> of the source is copied, not set.\<close>

definition span_move :: "Span \<Rightarrow> Span \<times> Span" where
  "span_move s = (s\<lparr>sp_log := []\<rparr>, s\<lparr>sp_operation_name := '''', sp_trace_id := '''', sp_span_id := '''',
     sp_parent_span_id := map_option (\<lambda>_. '''') (sp_parent_span_id s),
     sp_attributes := [], sp_events := [], sp_status_description := ''''\<rparr>)"

record Tracer =
  tr_service_name :: string
  tr_app_insights :: string
  tr_enabled :: bool

definition tr_initialize :: "string \<Rightarrow> string \<Rightarrow> Tracer option \<Rightarrow> Tracer option" where
  "tr_initialize service_name connection g = (case g of
     Some t \<Rightarrow> Some t
   | None \<Rightarrow> Some \<lparr>tr_service_name = service_name, tr_app_insights = connection, tr_enabled = True\<rparr>)"

definition tr_instance :: "Tracer option \<Rightarrow> Tracer" where
  "tr_instance g = (case g of Some t \<Rightarrow> t | None \<Rightarrow> the (tr_initialize ''protogate-server'' '''' g))"

definition start_span :: "int \<Rightarrow> u64 \<Rightarrow> u64 \<Rightarrow> u64 \<Rightarrow> string \<Rightarrow> Tracer \<Rightarrow> Span option" where
  "start_span now high low r operation t = (if \<not> tr_enabled t then None else Some (Span_root now high low r operation))"

definition start_child_span :: "int \<Rightarrow> u64 \<Rightarrow> string \<Rightarrow> string \<Rightarrow> string \<Rightarrow> Tracer \<Rightarrow> Span option" where
  "start_child_span now r operation trace_id parent t =
    (if \<not> tr_enabled t then None else Some (Span_child now r operation trace_id parent))"

text \<open>The guard \<open>ScopedSpan\<close> holds a span, if tracing is enabled, and ends it before it is destroyed.\<close>

definition ScopedSpan_new :: "int \<Rightarrow> u64 \<Rightarrow> u64 \<Rightarrow> u64 \<Rightarrow> string \<Rightarrow> Tracer \<Rightarrow> Span option" where
  "ScopedSpan_new now high low r operation t = start_span now high low r operation t"

definition ScopedSpan_destroy :: "int \<Rightarrow> int \<Rightarrow> Span option \<Rightarrow> Span option" where
  "ScopedSpan_destroy now now' g =
    map_option (\<lambda>s. span_destroy now' (if \<not> sp_ended s then span_end now s else s)) g"

section \<open>A span is logged once\<close>

datatype span_op =
  Add_attribute string attribute | Add_event string "(string \<times> string) list" | Set_status SpanStatus string | End int

fun span_step :: "(rat \<Rightarrow> string) \<Rightarrow> Span \<Rightarrow> span_op \<Rightarrow> Span" where
  "span_step fixed s (Add_attribute k a) = add_attribute fixed k a s"
| "span_step fixed s (Add_event n m) = add_event n m s"
| "span_step fixed s (Set_status st d) = set_status st d s"
| "span_step fixed s (End now) = span_end now s"

definition ends_logged :: "Span \<Rightarrow> nat" where
  "ends_logged s = length (filter (\<lambda>(level, message, kvs). message = ''Span ended'') (sp_log s))"

lemmas span_defs = add_attribute_def add_event_def set_status_def span_end_def span_log_def

lemma span_step_ended: "sp_ended s \<Longrightarrow> span_step fixed s x = s"
  by (cases x) (simp_all add: span_defs)

lemma span_step_counts:
  "ends_logged (span_step fixed s x) = (if sp_ended s then ends_logged s else ends_logged s + (if sp_ended (span_step fixed s x) then 1 else 0))
   \<and> sp_trace_id (span_step fixed s x) = sp_trace_id s \<and> sp_span_id (span_step fixed s x) = sp_span_id s
   \<and> (sp_ended s \<longrightarrow> sp_ended (span_step fixed s x))"
  by (cases x) (auto simp: span_defs ends_logged_def)

text \<open>
  Whatever is done to a span, its end is logged exactly once when it is destroyed at the latest;
  what is done after the end has no effect. (A span that has been moved is destroyed twice and
  logged twice.)
\<close>

theorem span_logged_once:
  assumes "s = Span_child now r operation trace parent \<or> s = Span_root now high low r operation"
  shows "ends_logged (span_destroy t (foldl (span_step fixed) s xs)) = 1
    \<and> foldl (span_step fixed) (span_destroy t (foldl (span_step fixed) s xs)) ys = span_destroy t (foldl (span_step fixed) s xs)
    \<and> (case span_move s of (new, old) \<Rightarrow> ends_logged (span_destroy t new) + ends_logged (span_destroy t old) = 2)"
proof -
  have s: "\<not> sp_ended s" "ends_logged s = 0" using assms
    by (auto simp: Span_child_def Span_root_def Let_def ends_logged_def span_log_def)
  have "ends_logged (foldl (span_step fixed) u zs) = (if sp_ended (foldl (span_step fixed) u zs) then 1 else 0)"
    if "ends_logged u = (if sp_ended u then 1 else 0)" for u zs
    using that
  proof (induction zs arbitrary: u)
    case (Cons z zs)
    have "ends_logged (span_step fixed u z) = (if sp_ended (span_step fixed u z) then 1 else 0)"
      using span_step_counts [of fixed u z] Cons.prems by (auto split: if_splits)
    then show ?case using Cons.IH by simp
  qed simp
  then have "ends_logged (foldl (span_step fixed) s xs) = (if sp_ended (foldl (span_step fixed) s xs) then 1 else 0)"
    using s by simp
  then have one: "ends_logged (span_destroy t (foldl (span_step fixed) s xs)) = 1"
    "sp_ended (span_destroy t (foldl (span_step fixed) s xs))"
    by (auto simp: span_destroy_def span_end_def span_log_def ends_logged_def)
  have frozen: "foldl (span_step fixed) u zs = u" if "sp_ended u" for u zs
    using that by (induction zs) (simp_all add: span_step_ended)
  show ?thesis
    using one frozen s by (simp add: span_move_def span_destroy_def span_end_def span_log_def ends_logged_def)
qed

lemma scoped_span_logged: "ScopedSpan_destroy now now' (ScopedSpan_new t0 high low r op t) = None \<longleftrightarrow> \<not> tr_enabled t"
  "ScopedSpan_destroy now now' (ScopedSpan_new t0 high low r op t) = Some s \<Longrightarrow> ends_logged s = 1 \<and> sp_end_time s = now"
  by (auto simp: ScopedSpan_destroy_def ScopedSpan_new_def start_span_def span_destroy_def span_end_def span_log_def
      Span_root_def ends_logged_def Let_def split: if_splits)

section \<open>The logger of the agent\<close>

text \<open>
  spdlog keeps one logger per name: creating a second one throws. A line is written when its level is
  at least that of the logger.
\<close>

record AgentLogger =
  gl_logger :: "LogLevel option"
  gl_format :: string
  gl_lines :: "string list"

definition AgentLogger_new :: AgentLogger where
  "AgentLogger_new = \<lparr>gl_logger = None, gl_format = ''json'', gl_lines = []\<rparr>"

definition gl_init :: "string \<Rightarrow> string \<Rightarrow> AgentLogger \<Rightarrow> cpp_error option \<times> AgentLogger" where
  "gl_init level format g =
    (let g1 = g\<lparr>gl_format := format\<rparr> in
     if gl_logger g \<noteq> None then (Some (Runtime_error ''logger with name 'tunnel_agent' already exists''), g1)
     else (None, g1\<lparr>gl_logger := Some (if level = ''debug'' then LOG_DEBUG else if level = ''info'' then LOG_INFO
        else if level = ''warning'' then LOG_WARNING else if level = ''error'' then LOG_ERROR else LOG_INFO)\<rparr>))"

definition gl_text :: "(json \<Rightarrow> string) \<Rightarrow> LogLevel \<Rightarrow> string \<Rightarrow> (string \<times> string) list \<Rightarrow> AgentLogger \<Rightarrow> string" where
  "gl_text dumped level message kvs g =
    (if gl_format g = ''json''
     then let j = J_obj [(''level'', J_str (level_to_string level)), (''message'', J_str message), (''service'', J_str ''tunnel-agent'')]
          in dumped (if kvs \<noteq> [] then jset ''fields'' (J_obj (map (\<lambda>(k, v). (k, J_str v)) kvs)) j else j)
     else message @ (if kvs \<noteq> [] then '' {'' @ concat (map (\<lambda>(k, v). k @ ''='' @ v @ '' '') kvs) @ ''}'' else []))"

definition gl_log :: "(json \<Rightarrow> string) \<Rightarrow> LogLevel \<Rightarrow> string \<Rightarrow> (string \<times> string) list \<Rightarrow> AgentLogger \<Rightarrow> AgentLogger" where
  "gl_log dumped level message kvs g0 =
    (let g = (if gl_logger g0 = None then snd (gl_init ''info'' ''text'' g0) else g0)
     in case gl_logger g of
          None \<Rightarrow> g
        | Some least \<Rightarrow> if least \<le> level then g\<lparr>gl_lines := gl_lines g @ [gl_text dumped level message kvs g]\<rparr> else g)"

text \<open>A logger that has been used before it is initialised can never be: the agent would end with an error.\<close>

lemma logged_before_init: "\<exists>e. fst (gl_init level format (gl_log dumped l message kvs g)) = Some e"
  by (simp add: gl_log_def gl_init_def Let_def split: option.splits)

section \<open>Witnesses\<close>

definition sample_log_env :: LogEnv where
  "sample_log_env = \<lparr>le_dump = (\<lambda>_. Some ''{}''), le_hmac = (\<lambda>_ _. Some ''sig''), le_timestamp = ''t'', le_date = ''d'', le_now = 0\<rparr>"

definition sample_logger :: "LogLevel \<Rightarrow> Logger" where
  "sample_logger level = Logger_new\<lparr>lg_min_level := level, lg_workspace_id := ''w'', lg_workspace_key := ''k'',
     lg_log_analytics_enabled := True, lg_log_buffer := replicate 99 J_null\<rparr>"

lemma debug_logging_diverges_witness: "lg_log 1000 sample_log_env LOG_INFO ''x'' [] (sample_logger LOG_DEBUG) = None"
  using debug_logging_diverges [of sample_log_env "sample_logger LOG_DEBUG" 1000 LOG_INFO "''x''" "[]"]
  by (simp add: sample_log_env_def sample_logger_def accepts_all_def batch_size_def)

lemma logging_terminates_witness:
  "\<exists>l'. lg_log 3 sample_log_env LOG_ERROR ''x'' [] (sample_logger LOG_INFO) = Some (Inr l') \<and> lg_output l' = [''{}''] \<and> lg_inv l'"
proof -
  have i: "LOG_DEBUG < lg_min_level (sample_logger LOG_INFO)" "lg_inv (sample_logger LOG_INFO)"
    by (simp_all add: sample_logger_def lg_inv_def less_LogLevel_def batch_size_def)
  have n: "\<not> LOG_ERROR < lg_min_level (sample_logger LOG_INFO)" "lg_output (sample_logger LOG_INFO) = []"
    "le_dump sample_log_env j = Some ''{}''" for j
    by (simp_all add: sample_logger_def less_LogLevel_def Logger_new_def sample_log_env_def)
  show ?thesis
    using logging_terminates [OF i, of 3 sample_log_env LOG_ERROR "''x''" "[]"] n
    by (auto simp del: lg_log.simps split: sum.splits) (metis sumE)
qed

lemma span_logged_once_witness:
  "ends_logged (span_destroy 9 (foldl (span_step (\<lambda>_. '''')) (Span_root 1 2 3 4 ''op'') [End 5, Set_status OK '''', End 6])) = 1"
  using span_logged_once [OF disjI2 [OF refl], of 9 "\<lambda>_. ''''" 1 2 3 4 "''op''" "[End 5, Set_status OK '''', End 6]"] by blast

end
