(* ===== verification/Signing.thy ===== *)
theory Signing
  imports Logging Metrics "HOL-Library.List_Lexorder" "HOL-Library.Char_ord"
begin

text \<open>
  What \<open>src/observability/logger.cpp\<close> and \<open>metrics.cpp\<close> write beside the data: the time of an entry, the
  date of an upload and its signature. \<open>gmtime\<close> and the formats of \<open>strftime\<close> are the standard library's;
  base64 and HMAC are OpenSSL's and arguments. The main result is that the time stamps of the log are
  ordered like the times they stand for.
\<close>

section \<open>The calendar\<close>

record tm =
  tm_year :: int
  tm_mon :: nat
  tm_mday :: int
  tm_hour :: int
  tm_min :: int
  tm_sec :: int
  tm_wday :: nat

text \<open>Days are counted from the first of January of the year 1.\<close>

definition days_before_year :: "int \<Rightarrow> int" where
  "days_before_year y = 365 * (y - 1) + (y - 1) div 4 - (y - 1) div 100 + (y - 1) div 400"

definition is_leap :: "int \<Rightarrow> bool" where
  "is_leap y \<longleftrightarrow> y mod 4 = 0 \<and> (y mod 100 \<noteq> 0 \<or> y mod 400 = 0)"

definition year_of :: "int \<Rightarrow> int" where
  "year_of d = (let y = 400 * d div 146097 + 1
     in if d < days_before_year y then y - 1 else if days_before_year (y + 1) \<le> d then y + 1 else y)"

definition month_starts :: "bool \<Rightarrow> int list" where
  "month_starts leap = (let l = if leap then 1 else 0
     in [0, 31, 59 + l, 90 + l, 120 + l, 151 + l, 181 + l, 212 + l, 243 + l, 273 + l, 304 + l, 334 + l])"

definition month_of :: "bool \<Rightarrow> int \<Rightarrow> nat" where
  "month_of leap doy = length (filter (\<lambda>s. s \<le> doy) (month_starts leap)) - 1"

definition gmtime :: "int \<Rightarrow> tm" where
  "gmtime t =
    (let d = t div 86400 + days_before_year 1970; s = t mod 86400; y = year_of d;
         doy = d - days_before_year y; m = month_of (is_leap y) doy
     in \<lparr>tm_year = y, tm_mon = m, tm_mday = doy - month_starts (is_leap y) ! m + 1, tm_hour = s div 3600,
         tm_min = s div 60 mod 60, tm_sec = s mod 60, tm_wday = nat ((t div 86400 + 4) mod 7)\<rparr>)"

section \<open>Texts\<close>

text \<open>\<open>setfill('0') << setw(w)\<close>, and the numbers of \<open>strftime\<close>.\<close>

definition zero_pad :: "nat \<Rightarrow> int \<Rightarrow> string" where
  "zero_pad w i = replicate (w - length (int_string i)) (CHR ''0'') @ int_string i"

definition day_names :: "string list" where
  "day_names = [''Sun'', ''Mon'', ''Tue'', ''Wed'', ''Thu'', ''Fri'', ''Sat'']"

definition month_names :: "string list" where
  "month_names = [''Jan'', ''Feb'', ''Mar'', ''Apr'', ''May'', ''Jun'', ''Jul'', ''Aug'', ''Sep'', ''Oct'', ''Nov'', ''Dec'']"

definition time_text :: "tm \<Rightarrow> string" where
  "time_text x = zero_pad 2 (tm_hour x) @ '':'' @ zero_pad 2 (tm_min x) @ '':'' @ zero_pad 2 (tm_sec x)"

text \<open>\<open>now\<close> is the system clock in nanoseconds since 1970.\<close>

definition get_iso8601_timestamp :: "int \<Rightarrow> string" where
  "get_iso8601_timestamp now =
    (let x = gmtime (trunc_div now 1000000000); all_ms = trunc_div now 1000000; ms = all_ms - 1000 * trunc_div all_ms 1000
     in int_string (tm_year x) @ ''-'' @ zero_pad 2 (int (tm_mon x) + 1) @ ''-'' @ zero_pad 2 (tm_mday x) @ ''T'' @ time_text x
        @ ''.'' @ zero_pad 3 ms @ ''Z'')"

definition get_rfc1123_date :: "int \<Rightarrow> string" where
  "get_rfc1123_date now =
    (let x = gmtime (trunc_div now 1000000000)
     in day_names ! tm_wday x @ '', '' @ zero_pad 2 (tm_mday x) @ '' '' @ month_names ! tm_mon x @ '' ''
        @ int_string (tm_year x) @ '' '' @ time_text x @ '' GMT'')"

definition Metrics_get_rfc1123_date :: "int \<Rightarrow> string" where
  "Metrics_get_rfc1123_date now =
    (let gmt = gmtime (trunc_div now 1000000000)
     in day_names ! tm_wday gmt @ '', '' @ zero_pad 2 (tm_mday gmt) @ '' '' @ month_names ! tm_mon gmt @ '' ''
        @ int_string (tm_year gmt) @ '' '' @ time_text gmt @ '' GMT'')"

lemma rfc1123_example: "get_rfc1123_date 951782400000000000 = ''Tue, 29 Feb 2000 00:00:00 GMT''"
  by code_simp

lemma iso8601_example: "get_iso8601_timestamp 1704067199007000000 = ''2023-12-31T23:59:59.007Z''"
  by code_simp

section \<open>The calendar is in order\<close>

lemma div_range: "0 < k \<Longrightarrow> k * (n div k) \<le> n \<and> n < k * (n div k) + k" for n k :: int
  using mult_div_mod_eq [of k n] pos_mod_sign [of k n] pos_mod_bound [of k n] by linarith

lemma days_bounds:
  "400 * days_before_year (n + 1) \<le> 146097 * n + 396" "146097 * n - 699 \<le> 400 * days_before_year (n + 1)"
proof -
  have "days_before_year (n + 1) = 365 * n + n div 4 - n div 100 + n div 400" by (simp add: days_before_year_def)
  then show "400 * days_before_year (n + 1) \<le> 146097 * n + 396" "146097 * n - 699 \<le> 400 * days_before_year (n + 1)"
    using div_range [of 4 n] div_range [of 100 n] div_range [of 400 n] by linarith+
qed

lemma year_of_spec: "days_before_year (year_of d) \<le> d" "d < days_before_year (year_of d + 1)"
proof -
  define n where "n = 400 * d div 146097"
  have n: "146097 * n \<le> 400 * d" "400 * d < 146097 * n + 146097"
    using div_range [of 146097 "400 * d"] by (simp_all add: n_def)
  have a: "400 * days_before_year n \<le> 146097 * n - 145701" using days_bounds(1) [of "n - 1"] by simp
  have b: "146097 * n + 291495 \<le> 400 * days_before_year (n + 3)" using days_bounds(2) [of "n + 2"] by (simp add: add.commute)
  have "days_before_year n \<le> d" using a n(1) by linarith
  moreover have "d < days_before_year (n + 3)" using b n(2) by linarith
  ultimately show "days_before_year (year_of d) \<le> d" "d < days_before_year (year_of d + 1)"
    by (simp_all add: year_of_def n_def [symmetric] Let_def add.commute)
qed

lemma step_div: "0 < k \<Longrightarrow> (n + 1) div k = n div k + (if (n + 1) mod k = 0 then 1 else 0)" for n k :: int
proof -
  assume k: "0 < k"
  define q r where "q = n div k" and "r = n mod k"
  have n: "n = k * q + r" "0 \<le> r" "r < k" using k by (simp_all add: q_def r_def)
  show ?thesis
  proof (cases "r + 1 = k")
    case True
    then have "n + 1 = k * (q + 1)" using n by (simp add: algebra_simps)
    then show ?thesis using k by (simp add: q_def [symmetric])
  next
    case False
    then have "(n + 1) div k = q" "(n + 1) mod k = r + 1"
      using n by (auto intro!: int_div_pos_eq int_mod_pos_eq)
    then show ?thesis using n(2) by (simp add: q_def [symmetric])
  qed
qed

lemma year_length: "days_before_year (y + 1) = days_before_year y + (if is_leap y then 366 else 365)"
proof -
  have s: "y div k = (y - 1) div k + (if y mod k = 0 then 1 else 0)" if "0 < k" for k :: int
    using step_div [OF that, of "y - 1"] by simp
  have m: "y mod 400 = 0 \<longrightarrow> y mod 100 = 0" "y mod 100 = 0 \<longrightarrow> y mod 4 = 0"
    using mod_mod_cancel [of 100 400 y] mod_mod_cancel [of 4 100 y] by (simp_all, metis mod_0)+
  have sum: "d1 = d0 + 365 + i - j + k" if "d1 = 365 * y + a' - b' + c'" "d0 = 365 * (y - 1) + a - b + c"
    "a' = a + i" "b' = b + j" "c' = c + k" for d1 d0 a b c a' b' c' i j k :: int
    using that by simp
  have "days_before_year (y + 1) = 365 * y + y div 4 - y div 100 + y div 400" by (simp add: days_before_year_def)
  from sum [OF this days_before_year_def s s s]
  have "days_before_year (y + 1) = days_before_year y + 365 + (if y mod 4 = 0 then 1 else 0)
      - (if y mod 100 = 0 then 1 else 0) + (if y mod 400 = 0 then 1 else 0)" by simp
  then show ?thesis
    using m by (cases "y mod 4 = 0"; cases "y mod 100 = 0"; cases "y mod 400 = 0") (simp_all add: is_leap_def)
qed

lemma days_mono: "y \<le> z \<Longrightarrow> days_before_year y \<le> days_before_year z"
  by (induction z rule: int_ge_induct) (auto simp: year_length intro: order_trans)

lemma year_of_mono: "d \<le> d' \<Longrightarrow> year_of d \<le> year_of d'"
  using year_of_spec [of d] year_of_spec [of d'] days_mono [of "year_of d' + 1" "year_of d"] by linarith

lemma month_of_mono: "a \<le> b \<Longrightarrow> month_of leap a \<le> month_of leap b"
proof -
  assume "a \<le> b"
  then have "length (filter (\<lambda>s. s \<le> a) xs) \<le> length (filter (\<lambda>s. s \<le> b) xs)" for xs :: "int list"
    by (induction xs) auto
  then show ?thesis by (simp add: month_of_def diff_le_mono)
qed

lemma month_of_bounds:
  assumes "0 \<le> doy" "doy < (if leap then 366 else 365)"
  shows "month_of leap doy < 12" "month_starts leap ! month_of leap doy \<le> doy" "doy - month_starts leap ! month_of leap doy < 31"
proof -
  have "month_of leap doy < 12 \<and> month_starts leap ! month_of leap doy \<le> doy \<and> doy - month_starts leap ! month_of leap doy < 31"
  proof (cases leap)
    case True
    consider "doy < 31" | "31 \<le> doy" "doy < 60" | "60 \<le> doy" "doy < 91" | "91 \<le> doy" "doy < 121"
      | "121 \<le> doy" "doy < 152" | "152 \<le> doy" "doy < 182" | "182 \<le> doy" "doy < 213" | "213 \<le> doy" "doy < 244"
      | "244 \<le> doy" "doy < 274" | "274 \<le> doy" "doy < 305" | "305 \<le> doy" "doy < 335" | "335 \<le> doy" by linarith
    then show ?thesis using assms(1) assms(2) [unfolded if_P [OF True]] by cases (simp_all add: month_of_def month_starts_def True)
  next
    case False
    consider "doy < 31" | "31 \<le> doy" "doy < 59" | "59 \<le> doy" "doy < 90" | "90 \<le> doy" "doy < 120"
      | "120 \<le> doy" "doy < 151" | "151 \<le> doy" "doy < 181" | "181 \<le> doy" "doy < 212" | "212 \<le> doy" "doy < 243"
      | "243 \<le> doy" "doy < 273" | "273 \<le> doy" "doy < 304" | "304 \<le> doy" "doy < 334" | "334 \<le> doy" by linarith
    then show ?thesis using assms(1) assms(2) [unfolded if_not_P [OF False]] by cases (simp_all add: month_of_def month_starts_def False)
  qed
  then show "month_of leap doy < 12" "month_starts leap ! month_of leap doy \<le> doy" "doy - month_starts leap ! month_of leap doy < 31"
    by blast+
qed

text \<open>Between two times, the fields of the later one are larger in the order year, month, day, time of day.\<close>

definition fields :: "tm \<Rightarrow> int list" where
  "fields x = [tm_year x, int (tm_mon x), tm_mday x, tm_hour x, tm_min x, tm_sec x]"

lemma date_less:
  assumes "a < b" "y = year_of a" "z = year_of b" "m = month_of (is_leap y) (a - days_before_year y)"
    and "k = month_of (is_leap z) (b - days_before_year z)"
  shows "y < z \<or> y = z \<and> (m < k \<or> m = k \<and> a - days_before_year y - month_starts (is_leap y) ! m + 1
    < b - days_before_year z - month_starts (is_leap z) ! k + 1)"
proof (cases "y = z")
  case True
  then have "m \<le> k" unfolding assms(4,5) using assms(1) by (simp add: month_of_mono)
  then show ?thesis using True assms(1) by auto
next
  case False
  then show ?thesis using year_of_mono [of a b] assms(1) by (simp add: assms(2,3))
qed

lemma mod_less_same: "x < y \<Longrightarrow> x div c = y div c \<Longrightarrow> x mod c < y mod c" for x y c :: int
  using mult_div_mod_eq [of c x] mult_div_mod_eq [of c y] by (metis add_less_cancel_left)

lemma clock_less:
  fixes a b :: int
  assumes "0 \<le> a" "a < b"
  shows "a div 3600 < b div 3600 \<or> a div 3600 = b div 3600 \<and> (a div 60 mod 60 < b div 60 mod 60
    \<or> a div 60 mod 60 = b div 60 mod 60 \<and> a mod 60 < b mod 60)"
proof -
  have h: "x div 3600 = x div 60 div 60" for x :: int by (simp add: zdiv_zmult2_eq)
  have less: "x div c < y div c \<or> x div c = y div c \<and> x mod c < y mod c" if "x < y" "0 < c" for x y c :: int
  proof (cases "x div c = y div c")
    case True
    then show ?thesis using that(1) mod_less_same by simp
  next
    case False
    then show ?thesis using that zdiv_mono1 [of x y c] by simp
  qed
  show ?thesis unfolding h using less [OF assms(2), of 60] less [of "a div 60" "b div 60" 60] by auto
qed

lemma gmtime_less:
  assumes "s < t"
  shows "fields (gmtime s) < fields (gmtime t)"
proof (cases "s div 86400 < t div 86400")
  case True
  from date_less [OF _ refl refl refl refl, of "s div 86400 + days_before_year 1970" "t div 86400 + days_before_year 1970"] True
  show ?thesis unfolding fields_def gmtime_def Let_def by auto
next
  case False
  then have d: "s div 86400 = t div 86400" using assms zdiv_mono1 [of s t 86400] by simp
  then have "s mod 86400 < t mod 86400"
    using assms by (intro mod_less_same)
  from clock_less [OF _ this] show ?thesis unfolding fields_def gmtime_def Let_def d by auto
qed

lemma gmtime_bounds:
  assumes "0 \<le> t" "t < 253402300800" "x = gmtime t"
  shows "1970 \<le> tm_year x \<and> tm_year x < 10000" "tm_mon x < 12" "0 < tm_mday x \<and> tm_mday x \<le> 31"
    "0 \<le> tm_hour x \<and> tm_hour x < 24" "0 \<le> tm_min x \<and> tm_min x < 60" "0 \<le> tm_sec x \<and> tm_sec x < 60"
proof -
  define d where "d = t div 86400 + days_before_year 1970"
  have t: "0 \<le> t div 86400" "t div 86400 < 2932897" using assms(1,2) by (simp_all add: div_less_iff_less_mult)
  have "days_before_year 1970 = 719162" "days_before_year 10000 = 3652059" by (simp_all add: days_before_year_def)
  then have "days_before_year 1970 \<le> d" "d < days_before_year 10000" using t by (simp_all add: d_def)
  then have "1970 < year_of d + 1" "year_of d < 10000"
    using year_of_spec [of d] days_mono [of "year_of d + 1" 1970] days_mono [of 10000 "year_of d"] by linarith+
  moreover have x: "tm_year x = year_of d" by (simp only: assms(3) gmtime_def Let_def d_def tm.simps)
  ultimately show "1970 \<le> tm_year x \<and> tm_year x < 10000" by simp
  have "0 \<le> d - days_before_year (year_of d)" "d - days_before_year (year_of d) < (if is_leap (year_of d) then 366 else 365)"
    using year_of_spec [of d] year_length [of "year_of d"] by simp_all
  note mb = month_of_bounds [OF this]
  have "tm_mon x = month_of (is_leap (year_of d)) (d - days_before_year (year_of d))"
    "tm_mday x = d - days_before_year (year_of d) - month_starts (is_leap (year_of d)) ! tm_mon x + 1"
    by (simp_all only: assms(3) gmtime_def Let_def d_def tm.simps)
  then show "tm_mon x < 12" "0 < tm_mday x \<and> tm_mday x \<le> 31" using mb by simp_all
  have "0 \<le> t mod 86400" "t mod 86400 < 86400" by simp_all
  then show "0 \<le> tm_hour x \<and> tm_hour x < 24" "0 \<le> tm_min x \<and> tm_min x < 60" "0 \<le> tm_sec x \<and> tm_sec x < 60"
    by (simp_all add: assms(3) gmtime_def Let_def div_less_iff_less_mult pos_imp_zdiv_nonneg_iff)
qed

section \<open>The text keeps the order\<close>

fun digits :: "nat \<Rightarrow> nat \<Rightarrow> string" where
  "digits 0 n = []"
| "digits (Suc w) n = digits w (n div 10) @ [digit_char (n mod 10)]"

lemma length_digits [simp]: "length (digits w n) = w"
  by (induction w n rule: digits.induct) simp_all

lemma append_less:
  "length xs = length ys \<Longrightarrow> xs @ us < ys @ vs \<longleftrightarrow> xs < ys \<or> xs = ys \<and> us < (vs :: 'a :: linorder list)"
  by (induction xs ys rule: list_induct2) auto

lemma digit_char_less: "m < n \<Longrightarrow> n < 10 \<Longrightarrow> digit_char m < digit_char n"
  by (simp add: digit_char_def less_char_def)

lemma digits_less: "m < n \<Longrightarrow> n < 10 ^ w \<Longrightarrow> digits w m < digits w n"
proof (induction w arbitrary: m n)
  case (Suc w)
  show ?case
  proof (cases "m div 10 = n div 10")
    case True
    then have "m mod 10 < n mod 10" using Suc.prems(1) by (metis div_mult_mod_eq nat_add_left_cancel_less)
    then show ?thesis using True by (simp add: append_less digit_char_less)
  next
    case False
    then have "m div 10 < n div 10" using Suc.prems(1) by (simp add: div_le_mono order_less_le)
    moreover have "n div 10 < 10 ^ w" using Suc.prems(2) by (simp add: less_mult_imp_div_less mult.commute)
    ultimately show ?thesis using Suc.IH by (simp add: append_less)
  qed
qed simp

lemma zero_pad_digits: "0 < w \<Longrightarrow> n < 10 ^ w \<Longrightarrow> zero_pad w (int n) = digits w n"
proof (induction w arbitrary: n)
  case (Suc w)
  show ?case
  proof (cases "w = 0")
    case True
    then show ?thesis using Suc.prems by (simp add: zero_pad_def int_string_def nat_string.simps [of n])
  next
    case False
    have "n div 10 < 10 ^ w" using Suc.prems(2) by (simp add: less_mult_imp_div_less mult.commute)
    then have IH: "zero_pad w (int (n div 10)) = digits w (n div 10)" using Suc.IH False by simp
    show ?thesis
    proof (cases "n < 10")
      case True
      have z: "nat_string 0 = ''0''" by code_simp
      have "zero_pad w 0 = replicate w (CHR ''0'')"
        using False by (cases w) (simp_all add: zero_pad_def int_string_def z replicate_append_same)
      then show ?thesis using IH True by (simp add: zero_pad_def int_string_def nat_string.simps [of n])
    next
      case False
      then have "nat_string n = nat_string (n div 10) @ [digit_char (n mod 10)]" by (subst nat_string.simps) simp
      then show ?thesis using IH by (simp add: zero_pad_def int_string_def)
    qed
  qed
qed simp

lemma length_nat_string: "10 ^ w \<le> n \<Longrightarrow> w < length (nat_string n)"
proof (induction w arbitrary: n)
  case (Suc w)
  have "10 * 10 ^ w \<le> n" using Suc.prems by simp
  moreover have "(1 :: nat) \<le> 10 ^ w" by simp
  ultimately have "\<not> n < 10" "10 ^ w \<le> n div 10" by linarith+
  then show ?case using Suc.IH [of "n div 10"] by (subst nat_string.simps) simp
qed simp

lemma zero_pad_int: "0 < w \<Longrightarrow> 0 \<le> i \<Longrightarrow> i < 10 ^ w \<Longrightarrow> zero_pad w i = digits w (nat i)"
  using zero_pad_digits [of w "nat i"] by (simp add: nat_less_iff)

lemma year_text:
  assumes "1000 \<le> i" "i < 10000"
  shows "int_string i = digits 4 (nat i)"
proof -
  have "3 < length (int_string i)" using length_nat_string [of 3 "nat i"] assms(1) by (simp add: int_string_def)
  then have "zero_pad 4 i = int_string i" by (simp add: zero_pad_def)
  then show ?thesis using zero_pad_int [of 4 i] assms by simp
qed

text \<open>Milliseconds of the year 1970 to the year 9999.\<close>

definition four_digit_year :: "int \<Rightarrow> bool" where
  "four_digit_year now \<longleftrightarrow> 0 \<le> now \<and> now < 253402300800000000000"

lemma in_seconds: "four_digit_year now \<Longrightarrow> 0 \<le> now div 1000000000" "four_digit_year now \<Longrightarrow> now div 1000000000 < 253402300800"
  using div_range [of 1000000000 now] by (simp_all add: four_digit_year_def pos_imp_zdiv_nonneg_iff)

lemma iso_text:
  assumes "four_digit_year now" "x = gmtime (now div 1000000000)"
  shows "get_iso8601_timestamp now = digits 4 (nat (tm_year x)) @ ''-'' @ digits 2 (Suc (tm_mon x)) @ ''-''
    @ digits 2 (nat (tm_mday x)) @ ''T'' @ digits 2 (nat (tm_hour x)) @ '':'' @ digits 2 (nat (tm_min x)) @ '':''
    @ digits 2 (nat (tm_sec x)) @ ''.'' @ digits 3 (nat (now div 1000000 mod 1000)) @ ''Z''"
proof -
  have now: "0 \<le> now" "trunc_div now c = now div c" for c using assms(1) by (simp_all add: four_digit_year_def trunc_div_def)
  have ms: "trunc_div (now div 1000000) 1000 = now div 1000000 div 1000"
    using now(1) by (simp add: trunc_div_def pos_imp_zdiv_nonneg_iff)
  note b = gmtime_bounds [OF in_seconds [OF assms(1)] assms(2)]
  have "zero_pad 2 (int (tm_mon x) + 1) = digits 2 (Suc (tm_mon x))"
    using zero_pad_digits [of 2 "Suc (tm_mon x)"] b(2) by (simp add: add.commute)
  moreover have "zero_pad 3 (now div 1000000 - 1000 * (now div 1000000 div 1000)) = digits 3 (nat (now div 1000000 mod 1000))"
    unfolding minus_mult_div_eq_mod using pos_mod_bound [of 1000 "now div 1000000"] by (intro zero_pad_int) simp_all
  ultimately show ?thesis
    using b by (simp add: get_iso8601_timestamp_def Let_def time_text_def now(2) ms assms(2) [symmetric] year_text zero_pad_int)
qed

lemma iso_less:
  assumes "four_digit_year a" "four_digit_year b" "a div 1000000 < b div 1000000"
  shows "get_iso8601_timestamp a < get_iso8601_timestamp b"
proof -
  define x y where "x = gmtime (a div 1000000000)" and "y = gmtime (b div 1000000000)"
  have s: "n div 1000000000 = n div 1000000 div 1000" for n :: int by (simp add: zdiv_zmult2_eq [symmetric])
  note bx = gmtime_bounds [OF in_seconds [OF assms(1)] x_def] and by' = gmtime_bounds [OF in_seconds [OF assms(2)] y_def]
  have lt: "digits w (nat i) < digits w (nat j)" if "i < j" "0 \<le> i" "j < 10 ^ w" for i j :: int and w
    using that by (intro digits_less) (simp_all add: nat_less_iff)
  have field: "digits w (nat i) @ us < digits w (nat j) @ vs" if "i < j \<or> i = j \<and> us < vs" "0 \<le> i" "j < 10 ^ w"
    for i j :: int and us vs w
    using that lt by (auto simp: append_less)
  consider "fields x < fields y" | "x = y" "a div 1000000 mod 1000 < b div 1000000 mod 1000"
  proof (cases "a div 1000000000 = b div 1000000000")
    case True
    then have "a div 1000000 mod 1000 < b div 1000000 mod 1000"
      using assms(3) by (intro mod_less_same) (simp_all only: s)
    then show thesis using that(2) True by (simp add: x_def y_def)
  next
    case False
    then have "a div 1000000000 < b div 1000000000"
      using zdiv_mono1 [of "a div 1000000" "b div 1000000" 1000] assms(3) by (simp add: s)
    then show thesis using that(1) gmtime_less by (simp add: x_def y_def)
  qed
  then show ?thesis
  proof cases
    case 1
    let ?L = "\<lambda>x n. digits 2 (nat (tm_sec x)) @ ''.'' @ digits 3 (nat (n div 1000000 mod 1000)) @ ''Z''"
    let ?C = "\<lambda>x n. digits 2 (nat (tm_hour x)) @ '':'' @ digits 2 (nat (tm_min x)) @ '':'' @ ?L x n"
    let ?D = "\<lambda>x n. digits 2 (nat (int (tm_mon x) + 1)) @ ''-'' @ digits 2 (nat (tm_mday x)) @ ''T'' @ ?C x n"
    have "tm_sec x < tm_sec y \<Longrightarrow> ?L x a < ?L y b" using bx by' by (intro field) simp_all
    then have "[tm_hour x, tm_min x, tm_sec x] < [tm_hour y, tm_min y, tm_sec y] \<Longrightarrow> ?C x a < ?C y b"
      using bx by' by (intro field) (auto intro!: field)
    then have "tl (fields x) < tl (fields y) \<Longrightarrow> ?D x a < ?D y b"
      using bx by' by (intro field) (auto simp: fields_def intro!: field)
    then have "digits 4 (nat (tm_year x)) @ ''-'' @ ?D x a < digits 4 (nat (tm_year y)) @ ''-'' @ ?D y b"
      using bx by' 1 by (intro field) (auto simp: fields_def)
    then show ?thesis unfolding iso_text [OF assms(1) x_def] iso_text [OF assms(2) y_def]
      by (simp add: nat_add_distrib)
  next
    case 2
    have "digits 3 (nat (a div 1000000 mod 1000)) < digits 3 (nat (b div 1000000 mod 1000))"
      using pos_mod_bound [of 1000 "b div 1000000"] 2(2) by (intro lt) simp_all
    then show ?thesis unfolding iso_text [OF assms(1) x_def] iso_text [OF assms(2) y_def] 2(1) by (simp add: append_less)
  qed
qed

text \<open>
  C27. The time stamps of the log are ordered like the times: as texts, from 1970 to the end of the year 9999 and to the
  millisecond. Sorting the entries by their text sorts them by time.
\<close>

theorem log_timestamps_sort:
  assumes "four_digit_year a" "four_digit_year b"
  shows "get_iso8601_timestamp a < get_iso8601_timestamp b \<longleftrightarrow> a div 1000000 < b div 1000000"
proof -
  have "n div 1000000000 = n div 1000000 div 1000" for n :: int by (simp add: zdiv_zmult2_eq [symmetric])
  then have "get_iso8601_timestamp a = get_iso8601_timestamp b" if "a div 1000000 = b div 1000000"
    using that iso_text [OF assms(1) refl] iso_text [OF assms(2) refl] by metis
  then show ?thesis using iso_less [OF assms] iso_less [OF assms(2,1)] by (metis less_asym linorder_neqE)
qed

section \<open>Signatures\<close>

text \<open>
  \<open>ssl_base64_read text n\<close> is what \<open>BIO_read\<close> gives of the decoded text with a buffer of \<open>n\<close> bytes, no
  byte where it fails.
\<close>

record OpenSSL =
  ssl_base64_read :: "string \<Rightarrow> nat \<Rightarrow> bytes"
  ssl_hmac_sha256 :: "bytes \<Rightarrow> string \<Rightarrow> bytes"
  ssl_base64_write :: "bytes \<Rightarrow> string"

definition compute_hmac_sha256 :: "OpenSSL \<Rightarrow> string \<Rightarrow> string \<Rightarrow> string result" where
  "compute_hmac_sha256 ssl key_base64 data =
    (let key = ssl_base64_read ssl key_base64 (length key_base64)
     in if key = [] then Inl (Runtime_error ''Failed to decode base64 key'')
        else Inr (ssl_base64_write ssl (ssl_hmac_sha256 ssl key data)))"

definition Metrics_compute_hmac_sha256 :: "OpenSSL \<Rightarrow> string \<Rightarrow> string \<Rightarrow> string result" where
  "Metrics_compute_hmac_sha256 ssl key_base64 data =
    (let decoded_key = ssl_base64_read ssl key_base64 256
     in if decoded_key = [] then Inl (Runtime_error ''Failed to decode base64 workspace key'')
        else Inr (ssl_base64_write ssl (ssl_hmac_sha256 ssl decoded_key data)))"

text \<open>The environment of the logger and the arguments of the export of the metrics, made of these.\<close>

definition result_option :: "'a result \<Rightarrow> 'a option" where
  "result_option r = (case r of Inl e \<Rightarrow> None | Inr x \<Rightarrow> Some x)"

definition logger_env :: "(json \<Rightarrow> string option) \<Rightarrow> OpenSSL \<Rightarrow> int \<Rightarrow> int \<Rightarrow> LogEnv" where
  "logger_env dump ssl now steady = \<lparr>le_dump = dump, le_hmac = (\<lambda>k s. result_option (compute_hmac_sha256 ssl k s)),
     le_timestamp = get_iso8601_timestamp now, le_date = get_rfc1123_date now, le_now = steady\<rparr>"

text \<open>
  The two signatures of a text are the same for keys of up to 256 bytes. Of a longer key the metrics use
  the first 256 bytes and the logger all.
\<close>

lemma signatures:
  assumes "\<forall>k n. ssl_base64_read ssl k n = take n (decode k)" "\<forall>k. length (decode k) \<le> length k" "decode k \<noteq> []"
  shows "compute_hmac_sha256 ssl k s = Inr (ssl_base64_write ssl (ssl_hmac_sha256 ssl (decode k) s))"
    "Metrics_compute_hmac_sha256 ssl k s = Inr (ssl_base64_write ssl (ssl_hmac_sha256 ssl (take 256 (decode k)) s))"
    "length (decode k) \<le> 256 \<Longrightarrow> Metrics_compute_hmac_sha256 ssl k s = compute_hmac_sha256 ssl k s"
  using assms by (simp_all add: compute_hmac_sha256_def Metrics_compute_hmac_sha256_def)

section \<open>Witnesses\<close>

lemma log_timestamps_sort_witness:
  "get_iso8601_timestamp 999999999 < get_iso8601_timestamp 1704067199007000000
    \<and> \<not> get_iso8601_timestamp 1704067199007999999 < get_iso8601_timestamp 1704067199007000000"
proof -
  have "four_digit_year 999999999" "four_digit_year 1704067199007000000" "four_digit_year 1704067199007999999"
    by (simp_all add: four_digit_year_def)
  then show ?thesis
    using log_timestamps_sort [of 999999999 1704067199007000000]
      log_timestamps_sort [of 1704067199007999999 1704067199007000000] by simp
qed

end
