(* ===== verification/Async_Utils.thy ===== *)
theory Async_Utils
  imports Prelude
begin

text \<open>
  \<open>src/utils/async_utils.h\<close>: a timeout on a timer of Boost.Asio, the wrapper of an operation that is
  cancelled with its object, and the two ways to hand work to an \<open>io_context\<close>. A callback is the number
  of the \<open>start\<close> that brought it. Of the timer the model has what its documentation says: setting a new
  expiry and \<open>cancel\<close> queue the handlers of pending waits with an error; a wait whose time has come is
  queued without one, and can no longer be cancelled; a queued handler runs when the loop takes it.
\<close>

section \<open>The timeout\<close>

datatype wait =
  Waiting int nat
| Queued bool nat

record TimeoutHandler =
  th_waits :: "wait list"
  th_next :: nat
  th_called :: "nat list"

definition TimeoutHandler_new :: TimeoutHandler where
  "TimeoutHandler_new = \<lparr>th_waits = [], th_next = 0, th_called = []\<rparr>"

fun abort :: "wait \<Rightarrow> wait" where
  "abort (Waiting e c) = Queued False c"
| "abort (Queued ok c) = Queued ok c"

definition th_cancel :: "TimeoutHandler \<Rightarrow> TimeoutHandler" where
  "th_cancel s = s\<lparr>th_waits := map abort (th_waits s)\<rparr>"

text \<open>\<open>expires_after\<close> cancels, then \<open>async_wait\<close> adds a wait.\<close>

definition th_start :: "int \<Rightarrow> int \<Rightarrow> TimeoutHandler \<Rightarrow> TimeoutHandler" where
  "th_start now timeout s = (let s1 = th_cancel s
     in s1\<lparr>th_waits := th_waits s1 @ [Waiting (now + timeout) (th_next s1)], th_next := th_next s1 + 1\<rparr>)"

fun elapse :: "int \<Rightarrow> wait \<Rightarrow> wait" where
  "elapse now (Waiting e c) = (if e \<le> now then Queued True c else Waiting e c)"
| "elapse now (Queued ok c) = Queued ok c"

definition th_elapse :: "int \<Rightarrow> TimeoutHandler \<Rightarrow> TimeoutHandler" where
  "th_elapse now s = s\<lparr>th_waits := map (elapse now) (th_waits s)\<rparr>"

text \<open>The handler of the wait: the callback is called unless there was an error.\<close>

definition th_handler :: "nat \<Rightarrow> TimeoutHandler \<Rightarrow> TimeoutHandler" where
  "th_handler k s = (if k < length (th_waits s) then (case th_waits s ! k of
       Waiting e c \<Rightarrow> s
     | Queued ok c \<Rightarrow> (if ok then s\<lparr>th_called := th_called s @ [c]\<rparr> else s)
         \<lparr>th_waits := take k (th_waits s) @ drop (Suc k) (th_waits s)\<rparr>) else s)"

section \<open>Operations and work\<close>

text \<open>\<open>op\<close> stands for what the operation and the posted handlers do; the handler of \<open>cancel\<close> is empty.\<close>

datatype 'w work = Run 'w | Cancellation

record 'w AsyncOperation =
  ao_operation :: 'w
  ao_queue :: "'w work list"
  ao_done :: "'w list"

definition ao_start :: "'w AsyncOperation \<Rightarrow> 'w AsyncOperation" where
  "ao_start s = s\<lparr>ao_done := ao_done s @ [ao_operation s]\<rparr>"

definition ao_cancel :: "'w AsyncOperation \<Rightarrow> 'w AsyncOperation" where
  "ao_cancel s = s\<lparr>ao_queue := ao_queue s @ [Cancellation]\<rparr>"

definition ao_destroy :: "'w AsyncOperation \<Rightarrow> 'w AsyncOperation" where
  "ao_destroy s = ao_cancel s"

definition async_post :: "'w \<Rightarrow> 'w AsyncOperation \<Rightarrow> 'w AsyncOperation" where
  "async_post w s = s\<lparr>ao_queue := ao_queue s @ [Run w]\<rparr>"

text \<open>\<open>inside\<close>: the caller is a thread that runs the loop.\<close>

definition async_dispatch :: "bool \<Rightarrow> 'w \<Rightarrow> 'w AsyncOperation \<Rightarrow> 'w AsyncOperation" where
  "async_dispatch inside w s = (if inside then s\<lparr>ao_done := ao_done s @ [w]\<rparr> else async_post w s)"

fun run_queue :: "'w work list \<Rightarrow> 'w list" where
  "run_queue [] = []"
| "run_queue (Run w # q) = w # run_queue q"
| "run_queue (Cancellation # q) = run_queue q"

text \<open>Cancelling undoes nothing: what was started and posted still runs.\<close>

lemma cancel_undoes_nothing:
  "ao_done (ao_cancel s) = ao_done s" "run_queue (ao_queue (ao_cancel s)) = run_queue (ao_queue s)"
proof -
  have "run_queue (q @ [Cancellation]) = run_queue q" for q :: "'a work list"
    by (induction q rule: run_queue.induct) simp_all
  then show "ao_done (ao_cancel s) = ao_done s" "run_queue (ao_queue (ao_cancel s)) = run_queue (ao_queue s)"
    by (simp_all add: ao_cancel_def)
qed

section \<open>A cancelled callback is not called\<close>

datatype th_step = Start int int | Cancel | Elapse int | Handler nat

fun th_do :: "TimeoutHandler \<Rightarrow> th_step \<Rightarrow> TimeoutHandler" where
  "th_do s (Start now timeout) = th_start now timeout s"
| "th_do s Cancel = th_cancel s"
| "th_do s (Elapse now) = th_elapse now s"
| "th_do s (Handler k) = th_handler k s"

fun wait_id :: "wait \<Rightarrow> nat" where
  "wait_id (Waiting e c) = c"
| "wait_id (Queued ok c) = c"

lemma wait_id_simps [simp]: "wait_id (abort w) = wait_id w" "wait_id (elapse now w) = wait_id w"
  by (cases w; simp)+

definition th_ok :: "TimeoutHandler \<Rightarrow> bool" where
  "th_ok s \<longleftrightarrow> distinct (map wait_id (th_waits s) @ th_called s)
     \<and> (\<forall>c \<in> set (map wait_id (th_waits s) @ th_called s). c < th_next s)"

lemma th_ok_start: "th_ok s \<Longrightarrow> th_ok (th_start now timeout s)"
  by (auto simp: th_ok_def th_start_def th_cancel_def Let_def comp_def less_Suc_eq)

lemma th_ok_handler: "th_ok s \<Longrightarrow> th_ok (th_handler k s)"
proof (cases "k < length (th_waits s)")
  case True
  assume ok: "th_ok s"
  define a w b where "a = take k (th_waits s)" and "w = th_waits s ! k" and "b = drop (Suc k) (th_waits s)"
  have ws: "th_waits s = a @ w # b" using id_take_nth_drop [OF True] by (simp add: a_def w_def b_def)
  have h: "th_handler k s = (case w of Waiting e c \<Rightarrow> s
     | Queued ok c \<Rightarrow> (if ok then s\<lparr>th_called := th_called s @ [c]\<rparr> else s)\<lparr>th_waits := a @ b\<rparr>)"
    unfolding th_handler_def using True by (simp add: a_def w_def b_def split: wait.split)
  show ?thesis using ok unfolding h by (cases w) (auto simp: th_ok_def ws)
qed (simp add: th_handler_def)

interpretation timeout: step_machine th_do th_ok
proof unfold_locales
  fix s e
  assume "th_ok s"
  then show "th_ok (th_do s e)"
    by (cases e) (simp_all add: th_ok_start th_ok_handler, simp_all add: th_ok_def th_cancel_def th_elapse_def comp_def)
qed

text \<open>A callback that can no longer be called: if there is a wait for it, its handler is queued with the error.\<close>

definition dead :: "nat \<Rightarrow> TimeoutHandler \<Rightarrow> bool" where
  "dead c s \<longleftrightarrow> c < th_next s \<and> c \<notin> set (th_called s) \<and> (\<forall>w \<in> set (th_waits s). wait_id w = c \<longrightarrow> w = Queued False c)"

lemma dead_map:
  assumes "c < th_next s" "c \<notin> set (th_called s)" "\<And>w. wait_id (f w) = wait_id w"
    and "\<And>w. w \<in> set (th_waits s) \<Longrightarrow> wait_id w = c \<Longrightarrow> f w = Queued False c"
  shows "dead c (s\<lparr>th_waits := map f (th_waits s)\<rparr>)"
  using assms by (simp add: dead_def)

lemma dead_start: "dead c (th_cancel s) \<Longrightarrow> dead c (th_start now timeout s)"
  by (auto simp: dead_def th_start_def Let_def)

lemma dead_handler:
  assumes "dead c s"
  shows "dead c (th_handler k s)"
proof (cases "k < length (th_waits s)")
  case True
  have sub: "set (take k (th_waits s) @ drop (Suc k) (th_waits s)) \<subseteq> set (th_waits s)"
    by (auto dest: in_set_takeD in_set_dropD)
  show ?thesis
  proof (cases "th_waits s ! k")
    case (Queued ok d)
    have "ok \<longrightarrow> d \<noteq> c" using assms Queued nth_mem [OF True] by (fastforce simp: dead_def)
    then show ?thesis using assms sub True Queued unfolding dead_def th_handler_def by auto
  qed (simp add: th_handler_def True assms)
qed (simp add: th_handler_def assms)

interpretation cancelled: step_machine th_do "dead c" for c
proof unfold_locales
  fix s e
  assume d: "dead c s"
  have q: "w = Queued False c" if "w \<in> set (th_waits s)" "wait_id w = c" for w
    using d that by (simp add: dead_def)
  have f: "c < th_next s" "c \<notin> set (th_called s)" using d by (simp_all add: dead_def)
  have m: "dead c (th_cancel s)" "dead c (th_elapse now s)" for now
  proof -
    have a: "abort w = Queued False c" "elapse now w = Queued False c" if "w \<in> set (th_waits s)" "wait_id w = c" for w
      unfolding q [OF that] by simp_all
    show "dead c (th_cancel s)" unfolding th_cancel_def by (rule dead_map [OF f]) (simp_all add: a)
    show "dead c (th_elapse now s)" unfolding th_elapse_def by (rule dead_map [OF f]) (simp_all add: a)
  qed
  then show "dead c (th_do s e)" using d by (cases e) (simp_all add: dead_start dead_handler)
qed

text \<open>
  Whatever happens afterwards, a callback is called at most once, and one whose wait is still running when the timeout is
  cancelled or started again is not called any more. One whose time has come before is, also after
  \<open>cancel\<close>.
\<close>

theorem timeout_cancelled:
  assumes "s = foldl th_do TimeoutHandler_new before" "Waiting e c \<in> set (th_waits s)" "x = Cancel \<or> x = Start now timeout"
  shows "distinct (th_called (foldl th_do s (x # later))) \<and> c \<notin> set (th_called (foldl th_do s (x # later)))"
proof -
  have "th_ok TimeoutHandler_new" by (simp add: th_ok_def TimeoutHandler_new_def)
  then have ok: "th_ok s" unfolding assms(1) by (rule timeout.run_inv)
  then have "th_ok (foldl th_do s (x # later))" by (rule timeout.run_inv)
  moreover have "dead c (th_do s x)"
  proof -
    have "c \<in> wait_id ` set (th_waits s)" using assms(2) by force
    then have "c < th_next s" "c \<notin> set (th_called s)" using ok by (auto simp: th_ok_def)
    moreover have "abort w = Queued False c" if "w \<in> set (th_waits s)" "wait_id w = c" for w
    proof -
      have "inj_on wait_id (set (th_waits s))" using ok by (simp add: th_ok_def distinct_map)
      then have "w = Waiting e c" using inj_onD [of wait_id _ w "Waiting e c"] that assms(2) by simp
      then show ?thesis by simp
    qed
    ultimately have "dead c (th_cancel s)" unfolding th_cancel_def by (intro dead_map) simp_all
    then show ?thesis using assms(3) dead_start by auto
  qed
  then have "dead c (foldl th_do (th_do s x) later)" by (rule cancelled.run_inv)
  ultimately show ?thesis by (simp add: th_ok_def dead_def)
qed

lemma timeout_cancelled_witness:
  "0 \<notin> set (th_called (foldl th_do (foldl th_do TimeoutHandler_new [Start 5 10]) [Start 7 10, Elapse 20, Handler 0, Handler 0]))
   \<and> th_called (foldl th_do TimeoutHandler_new [Start 5 10, Start 7 10, Elapse 20, Handler 0, Handler 0]) = [1]"
  using timeout_cancelled [OF refl, of 15 0 "[Start 5 10]" "Start 7 10" 7 10 "[Elapse 20, Handler 0, Handler 0]"]
  by (simp add: TimeoutHandler_new_def th_start_def th_cancel_def th_elapse_def th_handler_def Let_def)

lemma elapsed_is_called: "th_called (foldl th_do TimeoutHandler_new [Start 5 10, Elapse 15, Cancel, Handler 0]) = [0]"
  by (simp add: TimeoutHandler_new_def th_start_def th_cancel_def th_elapse_def th_handler_def Let_def)

end
