(* ===== verification/Agent_Config.thy ===== *)
theory Agent_Config
  imports Tunnel_Model
begin

text \<open>
  \<open>src/tunnel-agent/src/config/agent_config.{h,cpp}\<close> and the way \<open>main.cpp\<close> of the agent chooses among
  the sources of its configuration and reads the address of the local service. The file system is a
  function from paths to the outcome of opening and parsing a file, the environment one from names.
\<close>

section \<open>The configuration\<close>

record ServerConfig =
  srv_host :: string
  srv_port :: u16
  srv_verify_tls :: bool

record TunnelConfig =
  tun_id :: string
  tun_token :: string

record LocalConfig =
  loc_url :: string
  loc_timeout_seconds :: int

record HealthConfig =
  heartbeat_interval_seconds :: int
  heartbeat_timeout_seconds :: int

record ReconnectConfig =
  initial_delay_seconds :: int
  max_delay_seconds :: int
  max_attempts :: int

record LoggingConfig =
  log_level :: string
  log_format :: string

record AgentConfig =
  cfg_server :: ServerConfig
  cfg_tunnel :: TunnelConfig
  cfg_local :: LocalConfig
  cfg_health :: HealthConfig
  cfg_reconnect :: ReconnectConfig
  cfg_logging :: LoggingConfig

definition default_config :: AgentConfig where
  "default_config = \<lparr>
     cfg_server = \<lparr>srv_host = ''localhost'', srv_port = 8443, srv_verify_tls = True\<rparr>,
     cfg_tunnel = \<lparr>tun_id = '''', tun_token = ''''\<rparr>,
     cfg_local = \<lparr>loc_url = ''http://localhost:3000'', loc_timeout_seconds = 1800\<rparr>,
     cfg_health = \<lparr>heartbeat_interval_seconds = 30, heartbeat_timeout_seconds = 60\<rparr>,
     cfg_reconnect = \<lparr>initial_delay_seconds = 1, max_delay_seconds = 60, max_attempts = 0\<rparr>,
     cfg_logging = \<lparr>log_level = ''info'', log_format = ''json''\<rparr>\<rparr>"

section \<open>From a file\<close>

datatype config_file = No_file | Bad_json | Json_file json

text \<open>\<open>get<int>\<close> and \<open>get<unsigned short>\<close> of nlohmann/json cut a number to the width of the type.\<close>

definition json_int32 :: "json \<Rightarrow> int result" where
  "json_int32 j = bind_result (json_arith j) (\<lambda>i. Inr (sint (word_of_int i :: u32)))"

definition json_u16 :: "json \<Rightarrow> u16 result" where
  "json_u16 j = bind_result (json_arith j) (\<lambda>i. Inr (word_of_int i))"

fun json_bool :: "json \<Rightarrow> bool result" where
  "json_bool (J_bool b) = Inr b"
| "json_bool j = Inl type_error"

definition config_of_json :: "json \<Rightarrow> AgentConfig result" where
  "config_of_json j =
    (let field = (\<lambda>s k. jget k (jget s j)) in
     bind_result (json_string (field ''server'' ''host'')) (\<lambda>host.
     bind_result (json_u16 (field ''server'' ''port'')) (\<lambda>port.
     bind_result (json_bool (field ''server'' ''verify_tls'')) (\<lambda>verify.
     bind_result (json_string (field ''tunnel'' ''id'')) (\<lambda>tid.
     bind_result (json_string (field ''tunnel'' ''token'')) (\<lambda>token.
     bind_result (json_string (field ''local'' ''url'')) (\<lambda>url.
     bind_result (json_int32 (field ''local'' ''timeout_seconds'')) (\<lambda>timeout.
     bind_result (json_int32 (field ''health'' ''heartbeat_interval_seconds'')) (\<lambda>hi.
     bind_result (json_int32 (field ''health'' ''heartbeat_timeout_seconds'')) (\<lambda>ht.
     bind_result (json_int32 (field ''reconnect'' ''initial_delay_seconds'')) (\<lambda>rd.
     bind_result (json_int32 (field ''reconnect'' ''max_delay_seconds'')) (\<lambda>rm.
     bind_result (json_int32 (field ''reconnect'' ''max_attempts'')) (\<lambda>ra.
     bind_result (json_string (field ''logging'' ''level'')) (\<lambda>level.
     bind_result (json_string (field ''logging'' ''format'')) (\<lambda>format.
     Inr \<lparr>cfg_server = \<lparr>srv_host = host, srv_port = port, srv_verify_tls = verify\<rparr>,
          cfg_tunnel = \<lparr>tun_id = tid, tun_token = token\<rparr>,
          cfg_local = \<lparr>loc_url = url, loc_timeout_seconds = timeout\<rparr>,
          cfg_health = \<lparr>heartbeat_interval_seconds = hi, heartbeat_timeout_seconds = ht\<rparr>,
          cfg_reconnect = \<lparr>initial_delay_seconds = rd, max_delay_seconds = rm, max_attempts = ra\<rparr>,
          cfg_logging = \<lparr>log_level = level, log_format = format\<rparr>\<rparr>)))))))))))))))"

definition from_json_file :: "(string \<Rightarrow> config_file) \<Rightarrow> string \<Rightarrow> AgentConfig result" where
  "from_json_file files path = (case files path of
     No_file \<Rightarrow> Inl (Runtime_error (''Failed to open config file: '' @ path))
   | Bad_json \<Rightarrow> Inl (Runtime_error ''parse_error'')
   | Json_file j \<Rightarrow> config_of_json j)"

section \<open>From the command line and the environment\<close>

definition set_server :: "(ServerConfig \<Rightarrow> ServerConfig) \<Rightarrow> AgentConfig \<Rightarrow> AgentConfig" where
  "set_server f c = c\<lparr>cfg_server := f (cfg_server c)\<rparr>"

definition set_tunnel :: "(TunnelConfig \<Rightarrow> TunnelConfig) \<Rightarrow> AgentConfig \<Rightarrow> AgentConfig" where
  "set_tunnel f c = c\<lparr>cfg_tunnel := f (cfg_tunnel c)\<rparr>"

definition set_url :: "string \<Rightarrow> AgentConfig \<Rightarrow> AgentConfig" where
  "set_url url c = c\<lparr>cfg_local := (cfg_local c)\<lparr>loc_url := url\<rparr>\<rparr>"

text \<open>\<open>std::stoi\<close> assigned to an \<open>unsigned short\<close>.\<close>

definition parse_port :: "string \<Rightarrow> u16 result" where
  "parse_port s = bind_result (stoi 10 s) (\<lambda>i. Inr (word_of_int i))"

definition server_address :: "string \<Rightarrow> AgentConfig \<Rightarrow> AgentConfig result" where
  "server_address server c = (case find_char CHR '':'' server of
     None \<Rightarrow> Inr (set_server (\<lambda>v. v\<lparr>srv_host := server\<rparr>) c)
   | Some n \<Rightarrow> bind_result (parse_port (drop (n + 1) server)) (\<lambda>port.
       Inr (set_server (\<lambda>v. v\<lparr>srv_host := take n server, srv_port := port\<rparr>) c)))"

text \<open>\<open>s.rfind(c)\<close>\<close>

definition rfind_char :: "char \<Rightarrow> string \<Rightarrow> nat option" where
  "rfind_char c s = map_option (\<lambda>n. length s - 1 - n) (find_char c (rev s))"

definition target_port_option :: "string \<Rightarrow> AgentConfig \<Rightarrow> AgentConfig" where
  "target_port_option port c = (let url = loc_url (cfg_local c)
     in case rfind_char CHR '':'' url of None \<Rightarrow> c | Some n \<Rightarrow> set_url (take (n + 1) url @ port) c)"

text \<open>The options that take a value, \<open>--config\<close> apart.\<close>

definition value_options :: "string list" where
  "value_options = [''--server'', ''--token'', ''--tunnel-id'', ''--local-url'', ''--server-host'', ''--server-port'',
     ''--target-host'', ''--target-port'', ''--log-file'']"

definition value_option :: "string \<Rightarrow> string \<Rightarrow> AgentConfig \<Rightarrow> AgentConfig result" where
  "value_option arg v c =
    (if arg = ''--server'' then server_address v c
     else if arg = ''--token'' then Inr (set_tunnel (\<lambda>t. t\<lparr>tun_token := v\<rparr>) c)
     else if arg = ''--tunnel-id'' then Inr (set_tunnel (\<lambda>t. t\<lparr>tun_id := v\<rparr>) c)
     else if arg = ''--local-url'' then Inr (set_url v c)
     else if arg = ''--server-host'' then Inr (set_server (\<lambda>s. s\<lparr>srv_host := v\<rparr>) c)
     else if arg = ''--server-port''
     then bind_result (parse_port v) (\<lambda>port. Inr (set_server (\<lambda>s. s\<lparr>srv_port := port\<rparr>) c))
     else if arg = ''--target-host'' then Inr (set_url (''http://'' @ v @ '':3000'') c)
     else if arg = ''--target-port'' then Inr (target_port_option v c)
     else Inr c)"

definition flag_option :: "string \<Rightarrow> AgentConfig \<Rightarrow> AgentConfig result" where
  "flag_option arg c =
    (if arg = ''--no-verify-tls'' then Inr (set_server (\<lambda>s. s\<lparr>srv_verify_tls := False\<rparr>) c)
     else if arg = ''--verify-tls'' then Inr (set_server (\<lambda>s. s\<lparr>srv_verify_tls := True\<rparr>) c)
     else if arg = ''--help'' \<or> arg = ''-h'' then Inl (Runtime_error ''HELP_REQUESTED'')
     else Inr c)"

text \<open>An option at the end of the line, without its value, is ignored.\<close>

fun parse_args :: "(string \<Rightarrow> config_file) \<Rightarrow> string list \<Rightarrow> AgentConfig \<Rightarrow> AgentConfig result" where
  "parse_args files [] c = Inr c"
| "parse_args files [arg] c = flag_option arg c"
| "parse_args files (arg # v # rest) c =
    (if arg = ''--config'' then from_json_file files v
     else if arg \<in> set value_options then bind_result (value_option arg v c) (parse_args files rest)
     else bind_result (flag_option arg c) (parse_args files (v # rest)))"

definition from_cli_args :: "(string \<Rightarrow> config_file) \<Rightarrow> string list \<Rightarrow> AgentConfig result" where
  "from_cli_args files args = parse_args files args default_config"

definition from_environment :: "(string \<Rightarrow> string option) \<Rightarrow> AgentConfig result" where
  "from_environment env =
    bind_result (case env ''TUNNEL_SERVER'' of None \<Rightarrow> Inr default_config | Some v \<Rightarrow> server_address v default_config) (\<lambda>c.
      let c1 = (case env ''TUNNEL_TOKEN'' of None \<Rightarrow> c | Some v \<Rightarrow> set_tunnel (\<lambda>t. t\<lparr>tun_token := v\<rparr>) c);
          c2 = (case env ''TUNNEL_ID'' of None \<Rightarrow> c1 | Some v \<Rightarrow> set_tunnel (\<lambda>t. t\<lparr>tun_id := v\<rparr>) c1)
      in Inr (case env ''LOCAL_URL'' of None \<Rightarrow> c2 | Some v \<Rightarrow> set_url v c2))"

definition cfg_validate :: "AgentConfig \<Rightarrow> unit result" where
  "cfg_validate c =
    (if srv_host (cfg_server c) = '''' then Inl (Runtime_error ''Server host is required'')
     else if srv_port (cfg_server c) = 0 then Inl (Runtime_error ''Server port is required'')
     else if tun_id (cfg_tunnel c) = '''' then Inl (Runtime_error ''Tunnel ID is required'')
     else if tun_token (cfg_tunnel c) = '''' then Inl (Runtime_error ''Tunnel token is required'')
     else if loc_url (cfg_local c) = '''' then Inl (Runtime_error ''Local URL is required'')
     else if loc_timeout_seconds (cfg_local c) \<le> 0 then Inl (Runtime_error ''Local timeout must be positive'')
     else if heartbeat_interval_seconds (cfg_health c) \<le> 0
     then Inl (Runtime_error ''Heartbeat interval must be positive'')
     else if heartbeat_timeout_seconds (cfg_health c) \<le> heartbeat_interval_seconds (cfg_health c)
     then Inl (Runtime_error ''Heartbeat timeout must be greater than interval'')
     else Inr ())"

section \<open>The choice of \<open>main\<close>\<close>

datatype agent_start = Shows_help | Fatal_error cpp_error | Runs AgentConfig

definition load_config ::
  "(string \<Rightarrow> config_file) \<Rightarrow> (string \<Rightarrow> string option) \<Rightarrow> string list \<Rightarrow> AgentConfig result" where
  "load_config files env args = (case from_cli_args files args of
     Inr c \<Rightarrow> Inr c
   | Inl _ \<Rightarrow> (case from_environment env of Inr c \<Rightarrow> Inr c | Inl _ \<Rightarrow> from_json_file files ''config.json''))"

definition agent_main ::
  "(string \<Rightarrow> config_file) \<Rightarrow> (string \<Rightarrow> string option) \<Rightarrow> string list \<Rightarrow> agent_start" where
  "agent_main files env args =
    (if ''--help'' \<in> set args \<or> ''-h'' \<in> set args then Shows_help
     else case bind_result (load_config files env args) (\<lambda>c. bind_result (cfg_validate c) (\<lambda>_. Inr c)) of
            Inl e \<Rightarrow> Fatal_error e
          | Inr c \<Rightarrow> Runs c)"

section \<open>The address of the local service\<close>

text \<open>
  The URL of the local service is read twice: by the forwarder of requests
  (\<open>RequestForwarder::parse_local_url\<close>) and, for TCP, by \<open>run_agent\<close> itself.
\<close>

record LocalUrl =
  local_host :: string
  local_port :: string
  local_path_prefix :: string

definition parse_local_url :: "string \<Rightarrow> LocalUrl result" where
  "parse_local_url url = (case find_string ''://'' url of
     None \<Rightarrow> Inl (Invalid_argument ''Invalid local URL: missing scheme'')
   | Some scheme_end \<Rightarrow>
       let rest = drop (scheme_end + 3) url;
           path_start = find_char CHR ''/'' rest;
           host_end = (case path_start of None \<Rightarrow> length rest | Some n \<Rightarrow> n);
           prefix = (case path_start of None \<Rightarrow> ''/'' | Some n \<Rightarrow> drop n rest)
       in Inr (case find_char CHR '':'' rest of
            Some p \<Rightarrow>
              if path_start = None \<or> p < host_end
              then \<lparr>local_host = take p rest, local_port = take (host_end - p - 1) (drop (p + 1) rest), local_path_prefix = prefix\<rparr>
              else \<lparr>local_host = take host_end rest, local_port = ''80'', local_path_prefix = prefix\<rparr>
          | None \<Rightarrow> \<lparr>local_host = take host_end rest, local_port = ''80'', local_path_prefix = prefix\<rparr>))"

definition tcp_target :: "string \<Rightarrow> (string \<times> u16) result" where
  "tcp_target url0 =
    (let url = (case find_string ''://'' url0 of None \<Rightarrow> url0 | Some n \<Rightarrow> drop (n + 3) url0)
     in case find_char CHR '':'' url of
          None \<Rightarrow> Inr (''localhost'', 8080)
        | Some n \<Rightarrow>
            let port_str = drop (n + 1) url;
                port_str1 = (case find_char CHR ''/'' port_str of None \<Rightarrow> port_str | Some m \<Rightarrow> take m port_str)
            in bind_result (parse_port port_str1) (\<lambda>port. Inr (take n url, port)))"

section \<open>Which sources are read\<close>

lemma value_option_ok:
  "arg \<notin> {''--server'', ''--server-port''} \<Longrightarrow> \<exists>c'. value_option arg v c = Inr c'
     \<and> (arg \<noteq> ''--tunnel-id'' \<longrightarrow> tun_id (cfg_tunnel c') = tun_id (cfg_tunnel c))
     \<and> (arg \<noteq> ''--token'' \<longrightarrow> tun_token (cfg_tunnel c') = tun_token (cfg_tunnel c))"
  by (auto simp: value_option_def set_tunnel_def set_server_def set_url_def target_port_option_def Let_def split: option.splits)

lemma flag_option_ok:
  "arg \<notin> {''--help'', ''-h''} \<Longrightarrow> \<exists>c'. flag_option arg c = Inr c' \<and> cfg_tunnel c' = cfg_tunnel c"
  by (auto simp: flag_option_def set_server_def)

lemma parse_args_ok:
  assumes "set args \<inter> {''--config'', ''--server'', ''--server-port'', ''--help'', ''-h''} = {}"
  shows "\<exists>c'. parse_args files args c = Inr c' \<and> (\<forall>files'. parse_args files' args c = Inr c')
    \<and> (''--tunnel-id'' \<notin> set args \<longrightarrow> tun_id (cfg_tunnel c') = tun_id (cfg_tunnel c))
    \<and> (''--token'' \<notin> set args \<longrightarrow> tun_token (cfg_tunnel c') = tun_token (cfg_tunnel c))"
  using assms
proof (induction files args c rule: parse_args.induct)
  case (2 files arg c)
  then show ?case using flag_option_ok [of arg c] by auto
next
  case (3 files arg v rest c)
  show ?case
  proof (cases "arg \<in> set value_options")
    case True
    have ns: "arg \<notin> {''--server'', ''--server-port''}" using 3(3) by auto
    obtain c1 where c1: "value_option arg v c = Inr c1"
      "arg \<noteq> ''--tunnel-id'' \<longrightarrow> tun_id (cfg_tunnel c1) = tun_id (cfg_tunnel c)"
      "arg \<noteq> ''--token'' \<longrightarrow> tun_token (cfg_tunnel c1) = tun_token (cfg_tunnel c)"
      using value_option_ok [OF ns, of v c] by blast
    have a: "arg \<noteq> ''--config''" using 3(3) by auto
    then have eq: "parse_args fs (arg # v # rest) c = parse_args fs rest c1" for fs using True c1(1) by simp
    have "set rest \<inter> {''--config'', ''--server'', ''--server-port'', ''--help'', ''-h''} = {}" using 3(3) by auto
    note IH = 3(1) [OF a True this, of c1]
    show ?thesis unfolding eq using IH c1(2,3) by (elim exE) (intro exI, auto)
  next
    case False
    obtain c1 where c1: "flag_option arg c = Inr c1" "cfg_tunnel c1 = cfg_tunnel c"
      using flag_option_ok [of arg c] 3(3) by auto
    have a: "arg \<noteq> ''--config''" using 3(3) by auto
    then have eq: "parse_args fs (arg # v # rest) c = parse_args fs (v # rest) c1" for fs using False c1(1) by simp
    have "set (v # rest) \<inter> {''--config'', ''--server'', ''--server-port'', ''--help'', ''-h''} = {}" using 3(3) by auto
    note IH = 3(2) [OF a False this, of c1]
    show ?thesis unfolding eq using IH c1(2) by (elim exE) (intro exI, auto)
  qed
qed simp

text \<open>
  The configuration of the environment and of \<open>config.json\<close> is never looked at unless the command
  line is wrong: with no \<open>--config\<close> and no port to parse among the arguments the agent starts the
  same way whatever they hold, and without its own \<open>--tunnel-id\<close> and \<open>--token\<close> it does not start.
\<close>

theorem environment_is_ignored:
  assumes "set args \<inter> {''--config'', ''--server'', ''--server-port'', ''--help'', ''-h''} = {}"
  shows "agent_main files env args = agent_main files' env' args
    \<and> (''--tunnel-id'' \<notin> set args \<or> ''--token'' \<notin> set args \<longrightarrow> (\<exists>e. agent_main files env args = Fatal_error e))"
proof -
  obtain c where c: "\<forall>files'. parse_args files' args default_config = Inr c"
    "''--tunnel-id'' \<notin> set args \<longrightarrow> tun_id (cfg_tunnel c) = ''''"
    "''--token'' \<notin> set args \<longrightarrow> tun_token (cfg_tunnel c) = ''''"
    using parse_args_ok [OF assms, of files default_config] by (auto simp: default_config_def)
  have "agent_main files env args = (case bind_result (cfg_validate c) (\<lambda>_. Inr c) of Inl e \<Rightarrow> Fatal_error e | Inr c \<Rightarrow> Runs c)"
    for files env using c(1) assms by (auto simp: agent_main_def load_config_def from_cli_args_def)
  moreover have "\<exists>e. cfg_validate c = Inl e" if "tun_id (cfg_tunnel c) = '''' \<or> tun_token (cfg_tunnel c) = ''''"
    using that by (auto simp: cfg_validate_def)
  ultimately show ?thesis using c(2,3) by auto
qed

section \<open>The two readings of the URL\<close>

lemma find_scheme: "CHR '':'' \<notin> set scheme \<Longrightarrow> find_string ''://'' (scheme @ ''://'' @ rest) = Some (length scheme)"
proof (rule find_string_append)
  fix i assume "CHR '':'' \<notin> set scheme" "i < length scheme"
  then have "(scheme @ ''://'' @ rest) ! i \<noteq> CHR '':''" by (auto simp: nth_append in_set_conv_nth)
  moreover have "i < length (scheme @ ''://'' @ rest)" using \<open>i < length scheme\<close> by simp
  ultimately show "take (length ''://'') (drop i (scheme @ ''://'' @ rest)) \<noteq> ''://''"
    by (metis Cons_nth_drop_Suc length_Cons list.inject take_Suc_Cons)
qed

text \<open>
  Of a URL \<open>scheme://host:port/path\<close> both readings get the host and the port; without a port
  requests go to port 80 of the host, but TCP connections to port 8080 of \<open>localhost\<close>, whatever the
  host is.
\<close>

theorem url_readings:
  assumes "CHR '':'' \<notin> set scheme" "CHR '':'' \<notin> set host" "CHR ''/'' \<notin> set host"
    and "path = [] \<or> hd path = CHR ''/''" "port < 65536"
    and "u = scheme @ ''://'' @ host @ CHR '':'' # nat_string port @ path" "v = scheme @ ''://'' @ host @ path"
  shows "parse_local_url u = Inr \<lparr>local_host = host, local_port = nat_string port,
           local_path_prefix = (if path = [] then ''/'' else path)\<rparr>
    \<and> tcp_target u = Inr (host, word_of_nat port)
    \<and> (CHR '':'' \<notin> set path \<longrightarrow>
         parse_local_url v = Inr \<lparr>local_host = host, local_port = ''80'', local_path_prefix = (if path = [] then ''/'' else path)\<rparr>
         \<and> tcp_target v = Inr (''localhost'', 8080))"
proof -
  have d: "CHR ''/'' \<notin> set (nat_string port)" using nat_string_chars [of "CHR ''/''" port] by (auto simp: is_digit_def digit_val_def)
  have p: "find_char CHR ''/'' path = (if path = [] then None else Some 0)" using assms(4) by (cases path) auto
  have port: "parse_port (nat_string port) = Inr (word_of_nat port)"
    using stoi_nat_string [of port] assms(5) by (simp add: parse_port_def)
  note fu = find_scheme [OF assms(1), of "host @ CHR '':'' # nat_string port @ path"]
  note fv = find_scheme [OF assms(1), of "host @ path"]
  have 1: "find_char CHR ''/'' (nat_string port @ path) = (if path = [] then None else Some (length (nat_string port)))"
    using find_char_first [OF d, of path] p by simp
  have 2: "find_char CHR ''/'' (host @ CHR '':'' # nat_string port @ path)
      = (if path = [] then None else Some (length host + 1 + length (nat_string port)))"
    using find_char_first [OF assms(3), of "CHR '':'' # nat_string port @ path"] 1 by simp
  have 3: "find_char CHR ''/'' (host @ path) = (if path = [] then None else Some (length host))"
    using find_char_first [OF assms(3), of path] p by simp
  have 4: "find_char CHR '':'' (host @ CHR '':'' # nat_string port @ path) = Some (length host)"
    using find_char_append [OF assms(2)] by simp
  have 5: "find_char CHR '':'' (host @ path) = None" if "CHR '':'' \<notin> set path" using that assms(2) by simp
  have dr: "drop (length scheme + 3) (scheme @ ''://'' @ rest) = rest" for rest by simp
  have u: "parse_local_url u = Inr \<lparr>local_host = host, local_port = nat_string port,
      local_path_prefix = (if path = [] then ''/'' else path)\<rparr>" "tcp_target u = Inr (host, word_of_nat port)"
    unfolding parse_local_url_def tcp_target_def assms(6) fu option.case Let_def dr 2 4 by (auto simp: 1 port)
  have v: "parse_local_url v = Inr \<lparr>local_host = host, local_port = ''80'',
      local_path_prefix = (if path = [] then ''/'' else path)\<rparr>" "tcp_target v = Inr (''localhost'', 8080)"
    if "CHR '':'' \<notin> set path"
    unfolding parse_local_url_def tcp_target_def assms(7) fv option.case Let_def dr 3 5 [OF that] by (auto simp: port)
  show ?thesis using u v by blast
qed

section \<open>Witnesses\<close>

lemma environment_is_ignored_witness:
  "\<exists>e. agent_main (\<lambda>_. No_file) (\<lambda>n. Some ''x'') [''--token'', ''tnl_a''] = Fatal_error e"
  using environment_is_ignored [of "[''--token'', ''tnl_a'']" "\<lambda>_. No_file" "\<lambda>n. Some ''x''"] by simp

lemma url_readings_witness:
  "parse_local_url ''http://db:5432'' = Inr \<lparr>local_host = ''db'', local_port = ''5432'', local_path_prefix = ''/''\<rparr>
   \<and> tcp_target ''http://db:5432'' = Inr (''db'', 5432) \<and> tcp_target ''http://db'' = Inr (''localhost'', 8080)"
proof -
  have n: "nat_string 5432 = ''5432''" by (simp add: nat_string.simps digit_char_def) code_simp
  note r = url_readings [of "''http''" "''db''" "''''" 5432, OF _ _ _ _ _ refl refl, unfolded n]
  show ?thesis using r by simp
qed

end
