(* ===== verification/Agent_Main.thy ===== *)
theory Agent_Main
  imports Agent_Config Http2_Session "HOL-Library.List_Lexorder" "HOL-Library.Char_ord"
begin

text \<open>
  The agent around its session: \<open>src/tunnel-agent/src/utils/reconnect\<close>, \<open>health/heartbeat\<close>,
  \<open>client/tls_client\<close>, \<open>forwarder/request_forwarder\<close> and the loop \<open>run_agent\<close> of \<open>main.cpp\<close>. Times of the
  monotonic clock are nanoseconds. Sockets, TLS and the local service are the environment: the
  outcome of connecting, and the answer \<open>exchange\<close> that the service gives to a request.
\<close>

section \<open>Reconnecting\<close>

record ReconnectionManager =
  rm_initial_delay_ms :: int
  rm_max_delay_ms :: int
  rm_current_delay_ms :: int
  rm_can_reconnect :: bool

definition ReconnectionManager_new :: "int \<Rightarrow> int \<Rightarrow> ReconnectionManager" where
  "ReconnectionManager_new i m = \<lparr>rm_initial_delay_ms = i, rm_max_delay_ms = m, rm_current_delay_ms = i, rm_can_reconnect = True\<rparr>"

definition rm_reset :: "ReconnectionManager \<Rightarrow> ReconnectionManager" where
  "rm_reset r = r\<lparr>rm_current_delay_ms := rm_initial_delay_ms r, rm_can_reconnect := True\<rparr>"

definition get_next_delay_ms :: "ReconnectionManager \<Rightarrow> int \<times> ReconnectionManager" where
  "get_next_delay_ms r = (rm_current_delay_ms r,
     r\<lparr>rm_current_delay_ms := min (rm_current_delay_ms r * 2) (rm_max_delay_ms r)\<rparr>)"

definition should_reconnect :: "ReconnectionManager \<Rightarrow> bool" where
  "should_reconnect r = rm_can_reconnect r"

section \<open>Heartbeat\<close>

record HeartbeatManager =
  hb_interval_ms :: int
  hb_timeout_ms :: int
  hb_last_ping_time :: int
  hb_last_ack_time :: int
  hb_started :: bool

definition HeartbeatManager_new :: "int \<Rightarrow> int \<Rightarrow> HeartbeatManager" where
  "HeartbeatManager_new interval timeout = \<lparr>hb_interval_ms = interval, hb_timeout_ms = timeout,
     hb_last_ping_time = 0, hb_last_ack_time = 0, hb_started = False\<rparr>"

definition hb_start :: "int \<Rightarrow> HeartbeatManager \<Rightarrow> HeartbeatManager" where
  "hb_start now h = h\<lparr>hb_last_ping_time := now, hb_last_ack_time := now, hb_started := True\<rparr>"

definition hb_stop :: "HeartbeatManager \<Rightarrow> HeartbeatManager" where
  "hb_stop h = h\<lparr>hb_started := False\<rparr>"

definition should_send_ping :: "int \<Rightarrow> HeartbeatManager \<Rightarrow> bool" where
  "should_send_ping now h = (if \<not> hb_started h then False else to_ms (now - hb_last_ping_time h) \<ge> hb_interval_ms h)"

definition hb_is_timed_out :: "int \<Rightarrow> HeartbeatManager \<Rightarrow> bool" where
  "hb_is_timed_out now h = (if \<not> hb_started h then False else to_ms (now - hb_last_ack_time h) \<ge> hb_timeout_ms h)"

definition record_ping_ack :: "int \<Rightarrow> HeartbeatManager \<Rightarrow> HeartbeatManager" where
  "record_ping_ack now h = h\<lparr>hb_last_ack_time := now\<rparr>"

section \<open>The TLS client\<close>

text \<open>\<open>tls_socket\<close>: whether the socket has been created and, if so, whether it is open.\<close>

record TLSClient =
  tls_host :: string
  tls_port :: u16
  tls_verify_tls :: bool
  tls_verify_peer :: bool
  tls_connected :: bool
  tls_socket :: "bool option"

definition TLSClient_new :: "string \<Rightarrow> u16 \<Rightarrow> bool \<Rightarrow> TLSClient" where
  "TLSClient_new host port verify = \<lparr>tls_host = host, tls_port = port, tls_verify_tls = verify,
     tls_verify_peer = verify, tls_connected = False, tls_socket = None\<rparr>"

datatype connect_outcome =
  Resolve_fails string
| Sni_fails
| Connect_fails string
| Handshake_fails string
| Connects

definition tls_connect :: "connect_outcome \<Rightarrow> TLSClient \<Rightarrow> cpp_error option \<times> TLSClient" where
  "tls_connect outcome t = (case outcome of
     Resolve_fails m \<Rightarrow> (Some (Runtime_error m), t\<lparr>tls_connected := False\<rparr>)
   | Sni_fails \<Rightarrow> (Some (Runtime_error ''Failed to set SNI hostname''), t\<lparr>tls_socket := Some False, tls_connected := False\<rparr>)
   | Connect_fails m \<Rightarrow> (Some (Runtime_error m), t\<lparr>tls_socket := Some False, tls_connected := False\<rparr>)
   | Handshake_fails m \<Rightarrow> (Some (Runtime_error m), t\<lparr>tls_socket := Some True, tls_connected := False\<rparr>)
   | Connects \<Rightarrow> (None, t\<lparr>tls_socket := Some True, tls_connected := True\<rparr>))"

definition tls_disconnect :: "TLSClient \<Rightarrow> TLSClient" where
  "tls_disconnect t = (if \<not> tls_connected t \<or> tls_socket t = None then t
     else t\<lparr>tls_socket := Some False, tls_connected := False\<rparr>)"

definition tls_is_connected :: "TLSClient \<Rightarrow> bool" where
  "tls_is_connected t \<longleftrightarrow> tls_connected t \<and> tls_socket t = Some True"

definition get_alpn_protocol :: "string option \<Rightarrow> TLSClient \<Rightarrow> string" where
  "get_alpn_protocol selected t = (if tls_socket t = None then '''' else case selected of None \<Rightarrow> '''' | Some p \<Rightarrow> p)"

section \<open>Forwarding of requests\<close>

record RequestForwarder =
  rf_local :: LocalUrl
  rf_timeout_ms :: int

definition RequestForwarder_new :: "string \<Rightarrow> int \<Rightarrow> RequestForwarder result" where
  "RequestForwarder_new url timeout_ms = bind_result (parse_local_url url) (\<lambda>u. Inr \<lparr>rf_local = u, rf_timeout_ms = timeout_ms\<rparr>)"

text \<open>
  The message as the code builds it with Boost.Beast: \<open>req.set\<close> replaces every field of that name,
  compared without regard to case; \<open>lr_prepared\<close> says that \<open>prepare_payload\<close> was called.
\<close>

record LocalRequest =
  lr_method :: string
  lr_target :: string
  lr_fields :: "(string \<times> string) list"
  lr_body :: bytes
  lr_prepared :: bool

record LocalResponse =
  lo_status :: int
  lo_fields :: "(string \<times> string) list"
  lo_body :: bytes

record ForwardResponse =
  fr_status_code :: int
  fr_headers :: "(string, string) umap"
  fr_body :: bytes

definition set_field :: "string \<Rightarrow> string \<Rightarrow> (string \<times> string) list \<Rightarrow> (string \<times> string) list" where
  "set_field name value fs = filter (\<lambda>(n, v). to_lower n \<noteq> to_lower name) fs @ [(name, value)]"

text \<open>The headers are a \<open>std::map\<close>: they are copied in the order of their names.\<close>

definition local_request :: "RequestForwarder \<Rightarrow> HTTP2Request \<Rightarrow> LocalRequest" where
  "local_request f r =
    (let fields0 = set_field ''User-Agent'' ''Protogate-Agent/1.0''
           (set_field ''Host'' (local_host (rf_local f) @ '':'' @ local_port (rf_local f)) []);
         fields = foldl (\<lambda>fs (k, v). if k \<noteq> [] \<and> hd k \<noteq> CHR '':'' then set_field k v fs else fs) fields0
           (sort_key fst (rq_headers r))
     in \<lparr>lr_method = rq_method r, lr_target = rq_path r, lr_fields = fields, lr_body = rq_body r,
         lr_prepared = (rq_body r \<noteq> [])\<rparr>)"

definition make_error_response :: "int \<Rightarrow> string \<Rightarrow> ForwardResponse" where
  "make_error_response status_code message = \<lparr>fr_status_code = status_code,
     fr_headers = [(''content-type'', ''text/plain'')], fr_body = map (\<lambda>c. word_of_nat (of_char c)) message\<rparr>"

definition rf_forward :: "(LocalRequest \<Rightarrow> string + LocalResponse) \<Rightarrow> RequestForwarder \<Rightarrow> HTTP2Request \<Rightarrow> ForwardResponse" where
  "rf_forward exchange f r = (case exchange (local_request f r) of
     Inr res \<Rightarrow> \<lparr>fr_status_code = lo_status res,
        fr_headers = foldl (\<lambda>m (k, v). AList.update k v m) [] (lo_fields res), fr_body = lo_body res\<rparr>
   | Inl what \<Rightarrow> make_error_response 502 (''Bad Gateway: '' @ what))"

section \<open>One session\<close>

text \<open>What happens while the event loop of a session runs; the numbers are results of \<open>nghttp2_session_send\<close>.\<close>

datatype agent_event =
  Timer int bool int int
| Ping_acked int
| Peer_closed
| Signal
| Request HTTP2Request int int

record AgentSession =
  ag_running :: bool
  ag_session :: HTTP2Session
  ag_heartbeat :: HeartbeatManager
  ag_timer :: bool

definition heartbeat_check :: "int \<Rightarrow> bool \<Rightarrow> int \<Rightarrow> int \<Rightarrow> AgentSession \<Rightarrow> AgentSession" where
  "heartbeat_check now ec ping_rv events_rv a0 =
    (let a = a0\<lparr>ag_timer := False\<rparr> in
     if ec \<or> \<not> ag_running a \<or> \<not> hs_active (ag_session a) then a
     else let a1 = (if should_send_ping now (ag_heartbeat a)
                then a\<lparr>ag_session := hs_send_ping ping_rv (ag_session a)\<rparr> else a)
          in if hb_is_timed_out now (ag_heartbeat a1)
             then a1\<lparr>ag_running := False, ag_session := hs_stop (ag_session a1)\<rparr>
             else a1\<lparr>ag_session := hs_process_events events_rv (ag_session a1), ag_timer := True\<rparr>)"

definition on_tunnel_request ::
  "(LocalRequest \<Rightarrow> string + LocalResponse) \<Rightarrow> RequestForwarder \<Rightarrow> int \<Rightarrow> int \<Rightarrow> HTTP2Request \<Rightarrow> HTTP2Session \<Rightarrow> HTTP2Session" where
  "on_tunnel_request exchange f submit_rv send_rv r s =
    (let response = rf_forward exchange f r
     in send_response submit_rv send_rv (rq_stream_id r) (fr_status_code response)
          (sort_key fst (fr_headers response)) (fr_body response) s)"

fun agent_step ::
  "(LocalRequest \<Rightarrow> string + LocalResponse) \<Rightarrow> RequestForwarder \<Rightarrow> AgentSession \<Rightarrow> agent_event \<Rightarrow> AgentSession" where
  "agent_step exchange f a (Timer now ec rv1 rv2) = (if ag_timer a then heartbeat_check now ec rv1 rv2 a else a)"
| "agent_step exchange f a (Ping_acked now) = a\<lparr>ag_session := hs_on_frame_recv H2_PING FLAG_ACK 0 (ag_session a),
     ag_heartbeat := (if hs_on_ping_ack (ag_session a) then record_ping_ack now (ag_heartbeat a) else ag_heartbeat a)\<rparr>"
| "agent_step exchange f a Peer_closed = a\<lparr>ag_session := (ag_session a)\<lparr>hs_active := False\<rparr>\<rparr>"
| "agent_step exchange f a Signal = a\<lparr>ag_running := False\<rparr>"
| "agent_step exchange f a (Request r rv1 rv2) = a\<lparr>ag_session := on_tunnel_request exchange f rv1 rv2 r (ag_session a)\<rparr>"

section \<open>The loop\<close>

record attempt =
  at_tls :: connect_outcome
  at_alpn :: string
  at_write :: "string option"
  at_reads :: "nat \<Rightarrow> read_outcome"
  at_rv :: int
  at_now :: int
  at_events :: "agent_event list"
  at_signal :: bool

datatype loop_action = Try_connect | Session_ready | Sleep_ms int

record AgentLoop =
  al_running :: bool
  al_reconnect :: ReconnectionManager
  al_actions :: "loop_action list"
  al_in_session :: bool

definition AgentLoop_new :: AgentLoop where
  "AgentLoop_new = \<lparr>al_running = True, al_reconnect = ReconnectionManager_new 1000 60000, al_actions = [], al_in_session = False\<rparr>"

definition start_agent_session :: "AgentConfig \<Rightarrow> attempt \<Rightarrow> (RequestForwarder \<times> AgentSession) result" where
  "start_agent_session cfg att =
    (case fst (tls_connect (at_tls att) (TLSClient_new (srv_host (cfg_server cfg)) (srv_port (cfg_server cfg)) (srv_verify_tls (cfg_server cfg)))) of
       Some e \<Rightarrow> Inl e
     | None \<Rightarrow>
         bind_result (RequestForwarder_new (loc_url (cfg_local cfg)) (loc_timeout_seconds (cfg_local cfg) * 1000)) (\<lambda>f.
         bind_result (tcp_target (loc_url (cfg_local cfg))) (\<lambda>(host, port).
         let s = hs_set_ping_ack_callback (hs_set_tcp_forwarder (Some (TCPForwarder_new host port))
               (HTTP2Session_new (tun_id (cfg_tunnel cfg)) (tun_token (cfg_tunnel cfg))))
         in bind_result (hs_start (at_alpn att) (at_write att) (at_reads att) (at_rv att) s) (\<lambda>s1.
            Inr (f, \<lparr>ag_running = True, ag_session = s1,
              ag_heartbeat = hb_start (at_now att) (HeartbeatManager_new (heartbeat_interval_seconds (cfg_health cfg) * 1000)
                 (heartbeat_timeout_seconds (cfg_health cfg) * 1000)), ag_timer = True\<rparr>)))))"

definition al_act :: "loop_action \<Rightarrow> AgentLoop \<Rightarrow> AgentLoop" where
  "al_act x l = l\<lparr>al_actions := al_actions l @ [x]\<rparr>"

text \<open>The delay before the next attempt; \<open>sig\<close>: the signal comes during the sleep.\<close>

definition al_delay :: "bool \<Rightarrow> AgentLoop \<Rightarrow> AgentLoop" where
  "al_delay sig l =
    (if al_running l \<and> should_reconnect (al_reconnect l)
     then let (delay_ms, r) = get_next_delay_ms (al_reconnect l);
              l1 = al_act (Sleep_ms delay_ms) (l\<lparr>al_reconnect := r\<rparr>)
          in if sig then l1\<lparr>al_running := False\<rparr> else l1
     else l)"

text \<open>
  One entry of the list per round of the loop. A round whose events leave the session active and
  the agent running does not end.
\<close>

fun run_agent_loop :: "(LocalRequest \<Rightarrow> string + LocalResponse) \<Rightarrow> AgentConfig \<Rightarrow> attempt list \<Rightarrow> AgentLoop \<Rightarrow> AgentLoop" where
  "run_agent_loop exchange cfg [] l = l"
| "run_agent_loop exchange cfg (att # atts) l =
    (if \<not> (al_running l \<and> should_reconnect (al_reconnect l)) then l
     else let l1 = al_act Try_connect l in
       case start_agent_session cfg att of
         Inl e \<Rightarrow> run_agent_loop exchange cfg atts (al_delay (at_signal att) l1)
       | Inr (f, a) \<Rightarrow>
           let l2 = al_act Session_ready (l1\<lparr>al_reconnect := rm_reset (al_reconnect l1)\<rparr>);
               b = foldl (agent_step exchange f) a (at_events att)
           in if ag_running b \<and> hs_active (ag_session b) then l2\<lparr>al_in_session := True\<rparr>
              else run_agent_loop exchange cfg atts (al_delay (at_signal att) (l2\<lparr>al_running := ag_running b\<rparr>)))"

section \<open>Requests at the local service\<close>

lemma set_field_fresh: "\<forall>(n, v) \<in> set fs. to_lower n \<noteq> to_lower name \<Longrightarrow> set_field name value fs = fs @ [(name, value)]"
  by (auto simp: set_field_def filter_id_conv)

lemma fold_set_field:
  assumes "distinct (map fst hs)" "\<forall>(k, v) \<in> set hs. to_lower k = k" "\<forall>(n, v) \<in> set fs. to_lower n \<notin> fst ` set hs"
  shows "foldl (\<lambda>fs (k, v). if k \<noteq> [] \<and> hd k \<noteq> CHR '':'' then set_field k v fs else fs) fs hs
    = fs @ filter (\<lambda>(k, v). k \<noteq> [] \<and> hd k \<noteq> CHR '':'') hs"
  using assms
proof (induction hs arbitrary: fs)
  case (Cons h hs)
  obtain k v where h: "h = (k, v)" by (cases h)
  show ?case
  proof (cases "k \<noteq> [] \<and> hd k \<noteq> CHR '':''")
    case True
    have "set_field k v fs = fs @ [(k, v)]" using Cons.prems(2,3) by (intro set_field_fresh) (auto simp: h)
    moreover have "to_lower k = k" "k \<notin> fst ` set hs" using Cons.prems by (auto simp: h image_iff)
    then have "foldl (\<lambda>fs (k, v). if k \<noteq> [] \<and> hd k \<noteq> CHR '':'' then set_field k v fs else fs) (fs @ [(k, v)]) hs
        = (fs @ [(k, v)]) @ filter (\<lambda>(k, v). k \<noteq> [] \<and> hd k \<noteq> CHR '':'') hs"
      using Cons.prems by (intro Cons.IH) auto
    ultimately show ?thesis using True by (simp add: h)
  next
    case False
    have "\<forall>(n, v) \<in> set fs. to_lower n \<notin> fst ` set hs" using Cons.prems(3) by auto
    then show ?thesis using False Cons.IH [of fs] Cons.prems(1,2) by (auto simp: h)
  qed
qed simp

text \<open>
  The request of the tunnel reaches the local service with its method, path and body, the host
  replaced by the local one and its lower-case headers in the order of their names, the pseudo
  headers left out; the path of the configured URL is not put in front.
\<close>

theorem local_request_fields:
  assumes "umap_wf (rq_headers r)" "\<forall>(k, v) \<in> set (rq_headers r). to_lower k = k"
    and "''host'' \<notin> keys_of (rq_headers r)" "''user-agent'' \<notin> keys_of (rq_headers r)"
    and "RequestForwarder_new url timeout = Inr f" "parse_local_url url = Inr u"
  shows "local_request f r = \<lparr>lr_method = rq_method r, lr_target = rq_path r,
    lr_fields = [(''Host'', local_host u @ '':'' @ local_port u), (''User-Agent'', ''Protogate-Agent/1.0'')]
      @ filter (\<lambda>(k, v). k \<noteq> [] \<and> hd k \<noteq> CHR '':'') (sort_key fst (rq_headers r)),
    lr_body = rq_body r, lr_prepared = (rq_body r \<noteq> [])\<rparr>"
proof -
  have f: "rf_local f = u" using assms(5,6) by (auto simp: RequestForwarder_new_def)
  have l: "to_lower ''Host'' = ''host''" "to_lower ''User-Agent'' = ''user-agent''" by code_simp+
  let ?hs = "sort_key fst (rq_headers r)"
  have k: "fst ` set ?hs = keys_of (rq_headers r)" by simp
  have d: "distinct (map fst ?hs)"
    using assms(1) by (simp add: umap_wf_def distinct_map)
  show ?thesis
    unfolding local_request_def f Let_def using fold_set_field [OF d, of "[(''Host'', local_host u @ '':'' @ local_port u),
        (''User-Agent'', ''Protogate-Agent/1.0'')]"] assms(2-4)
    by (simp add: l set_field_def k)
qed

lemma foldl_update_lookup:
  "map_of (foldl (\<lambda>m (k, v). AList.update k v m) m fs) name = (case map_of (rev fs) name of Some v \<Rightarrow> Some v | None \<Rightarrow> map_of m name)"
  by (induction fs arbitrary: m) (auto simp: map_simps split: option.splits)

text \<open>
  The answer that goes back through the tunnel: status and body of the service, and of the header
  lines with one name only the last (of several cookies one is kept); 502 when the service fails.
\<close>

theorem local_response_headers:
  "(exchange (local_request f r) = Inr res \<longrightarrow>
      fr_status_code (rf_forward exchange f r) = lo_status res \<and> fr_body (rf_forward exchange f r) = lo_body res
      \<and> map_of (fr_headers (rf_forward exchange f r)) name = map_of (rev (lo_fields res)) name)
   \<and> (exchange (local_request f r) = Inl what \<longrightarrow> fr_status_code (rf_forward exchange f r) = 502)"
  by (auto simp: rf_forward_def make_error_response_def foldl_update_lookup split: option.splits)

section \<open>Reconnecting with a growing delay\<close>

lemma delay_step: "min (min (1000 * 2 ^ k) 60000 * 2) 60000 = (min (1000 * 2 ^ Suc k) 60000 :: int)"
  by (simp add: min_def)

lemma run_agent_loop_failures:
  assumes "\<forall>att \<in> set atts. (\<exists>e. start_agent_session cfg att = Inl e) \<and> \<not> at_signal att"
    and "al_running l" "al_reconnect l = \<lparr>rm_initial_delay_ms = 1000, rm_max_delay_ms = 60000,
          rm_current_delay_ms = min (1000 * 2 ^ k) 60000, rm_can_reconnect = True\<rparr>"
  shows "al_actions (run_agent_loop exchange cfg atts l) = al_actions l
      @ concat (map (\<lambda>i. [Try_connect, Sleep_ms (min (1000 * 2 ^ i) 60000)]) [k..<k + length atts])
    \<and> al_running (run_agent_loop exchange cfg atts l)"
  using assms
proof (induction atts arbitrary: l k)
  case (Cons att atts)
  let ?l = "al_delay False (al_act Try_connect l)"
  obtain e where e: "start_agent_session cfg att = Inl e" "\<not> at_signal att" using Cons.prems(1) by auto
  have "al_running ?l" "al_actions ?l = al_actions l @ [Try_connect, Sleep_ms (min (1000 * 2 ^ k) 60000)]"
    using Cons.prems(2,3) by (simp_all add: al_delay_def al_act_def should_reconnect_def get_next_delay_ms_def)
  moreover have "al_reconnect ?l = \<lparr>rm_initial_delay_ms = 1000, rm_max_delay_ms = 60000,
          rm_current_delay_ms = min (1000 * 2 ^ Suc k) 60000, rm_can_reconnect = True\<rparr>"
    using Cons.prems(2,3) delay_step [of k] by (simp add: al_delay_def al_act_def should_reconnect_def get_next_delay_ms_def)
  moreover have "[k..<k + length (att # atts)] = k # [Suc k..<Suc k + length atts]"
    by (metis add_Suc add_Suc_right length_Cons less_add_Suc1 upt_conv_Cons)
  ultimately show ?case using Cons.IH [of ?l "Suc k"] Cons.prems e by (simp add: should_reconnect_def)
qed simp

text \<open>
  C25. An agent that cannot connect tries for ever, with delays of 1 s doubled up to one minute: the
  delays and the number of attempts of its configuration are not used.
\<close>

theorem agent_never_gives_up:
  assumes "\<forall>att \<in> set atts. (\<exists>e. start_agent_session cfg att = Inl e) \<and> \<not> at_signal att"
  shows "al_actions (run_agent_loop exchange cfg atts AgentLoop_new)
      = concat (map (\<lambda>i. [Try_connect, Sleep_ms (min (1000 * 2 ^ i) 60000)]) [0..<length atts])
    \<and> al_running (run_agent_loop exchange cfg atts AgentLoop_new)"
  using run_agent_loop_failures [OF assms, of AgentLoop_new 0 exchange] by (simp add: AgentLoop_new_def ReconnectionManager_new_def)

section \<open>The end of a session\<close>

lemma agent_step_stopped: "\<not> ag_running a \<Longrightarrow> \<not> ag_running (agent_step exchange f a e)"
  by (cases e) (auto simp: heartbeat_check_def Let_def)

lemma agent_steps_stopped: "\<not> ag_running a \<Longrightarrow> \<not> ag_running (foldl (agent_step exchange f) a es)"
  by (induction es arbitrary: a) (simp_all add: agent_step_stopped)

text \<open>
  C35. A missing answer to the heartbeat ends the agent, not only the session: it does not connect
  again, whatever would follow.
\<close>

theorem heartbeat_timeout_is_final:
  assumes "al_running l" "should_reconnect (al_reconnect l)" "start_agent_session cfg att = Inr (f, a)"
    and "at_events att = es @ Timer now False rv1 rv2 # es'" "b = foldl (agent_step exchange f) a es"
    and "ag_timer b" "ag_running b" "hs_active (ag_session b)" "hb_is_timed_out now (ag_heartbeat b)"
  shows "al_actions (run_agent_loop exchange cfg (att # atts) l) = al_actions l @ [Try_connect, Session_ready]
    \<and> \<not> al_running (run_agent_loop exchange cfg (att # atts) l)"
proof -
  have "\<not> ag_running (agent_step exchange f b (Timer now False rv1 rv2))"
    using assms(6-9) by (simp add: heartbeat_check_def Let_def)
  then have n: "\<not> ag_running (foldl (agent_step exchange f) a (at_events att))"
    using agent_steps_stopped assms(4,5) by simp
  have stop: "run_agent_loop exchange cfg atts l' = l'" if "\<not> al_running l'" for l'
    using that by (cases atts) simp_all
  show ?thesis
    using assms(1-3) n by (simp add: al_act_def al_delay_def stop Let_def)
qed

section \<open>Heartbeats\<close>

lemma hs_start_active: "hs_start alpn w rs rv s = Inr t \<Longrightarrow> hs_active t"
  by (auto simp: hs_start_def Let_def hs_start_async_read_def hs_act_def split: if_splits option.splits)

lemma start_session_state:
  assumes "start_agent_session cfg att = Inr (f, a)"
  shows "ag_running a" "ag_timer a" "hs_active (ag_session a)"
    "ag_heartbeat a = \<lparr>hb_interval_ms = heartbeat_interval_seconds (cfg_health cfg) * 1000,
       hb_timeout_ms = heartbeat_timeout_seconds (cfg_health cfg) * 1000, hb_last_ping_time = at_now att,
       hb_last_ack_time = at_now att, hb_started = True\<rparr>"
  using assms hs_start_active
  by (auto simp: start_agent_session_def Let_def hb_start_def HeartbeatManager_new_def split: option.splits)

definition pings :: "HTTP2Session \<Rightarrow> nat" where
  "pings s = length (filter (\<lambda>x. x = Hs_submit_ping) (hs_actions s))"

lemma pings_check:
  assumes "ag_running a" "ag_timer a" "hs_active (ag_session a)" "should_send_ping t (ag_heartbeat a)"
    "\<not> hb_is_timed_out t (ag_heartbeat a)" "b = agent_step exchange f a (Timer t False 0 0)"
  shows "ag_running b \<and> ag_timer b \<and> hs_active (ag_session b) \<and> ag_heartbeat b = ag_heartbeat a
    \<and> pings (ag_session b) = pings (ag_session a) + 1"
  using assms by (simp add: heartbeat_check_def Let_def hs_send_ping_def hs_process_events_def hs_send_data_def hs_act_def pings_def)

lemma to_ms_ge: "0 \<le> n \<Longrightarrow> n * 1000000 \<le> t \<Longrightarrow> n \<le> to_ms t"
  by (simp add: to_ms_def trunc_div_def zdiv_mono1 [of "n * 1000000" t 1000000, simplified])

lemma to_ms_less: "t < n * 1000000 \<Longrightarrow> 0 \<le> t \<Longrightarrow> to_ms t < n"
  by (simp add: to_ms_def trunc_div_def div_less_iff_less_mult)

text \<open>
  Once the first interval of a session has passed, every check sends a PING, ten in a second
  instead of one per interval: the time of the last PING is never renewed.
\<close>

theorem ping_flood:
  assumes "start_agent_session cfg att = Inr (f, a)" "cfg_validate cfg = Inr ()"
    and "\<forall>t \<in> set ts. at_now att + heartbeat_interval_seconds (cfg_health cfg) * 1000000000 \<le> t
          \<and> t < at_now att + heartbeat_timeout_seconds (cfg_health cfg) * 1000000000"
    and "b = foldl (agent_step exchange f) a (map (\<lambda>t. Timer t False 0 0) ts)"
  shows "pings (ag_session b) = pings (ag_session a) + length ts"
proof -
  let ?i = "heartbeat_interval_seconds (cfg_health cfg)" and ?o = "heartbeat_timeout_seconds (cfg_health cfg)"
  note st = start_session_state [OF assms(1)]
  have i: "0 < ?i" using assms(2) by (auto simp: cfg_validate_def split: if_splits)
  have due: "should_send_ping t (ag_heartbeat a) \<and> \<not> hb_is_timed_out t (ag_heartbeat a)" if "t \<in> set ts" for t
  proof -
    have t: "?i * 1000 * 1000000 \<le> t - at_now att" "t - at_now att < ?o * 1000 * 1000000" using assms(3) that by force+
    then have "?i * 1000 \<le> to_ms (t - at_now att)" using i by (intro to_ms_ge) simp_all
    moreover have "to_ms (t - at_now att) < ?o * 1000" using t i by (intro to_ms_less) simp_all
    ultimately show ?thesis by (simp add: st(4) should_send_ping_def hb_is_timed_out_def)
  qed
  have "ag_running x \<Longrightarrow> ag_timer x \<Longrightarrow> hs_active (ag_session x) \<Longrightarrow> ag_heartbeat x = ag_heartbeat a \<Longrightarrow> set us \<subseteq> set ts
      \<Longrightarrow> pings (ag_session (foldl (agent_step exchange f) x (map (\<lambda>t. Timer t False 0 0) us))) = pings (ag_session x) + length us"
    for x us
  proof (induction us arbitrary: x)
    case (Cons u us)
    let ?y = "agent_step exchange f x (Timer u False 0 0)"
    have "ag_running ?y \<and> ag_timer ?y \<and> hs_active (ag_session ?y) \<and> ag_heartbeat ?y = ag_heartbeat x
        \<and> pings (ag_session ?y) = pings (ag_session x) + 1"
      using Cons.prems due [of u] by (intro pings_check [OF _ _ _ _ _ refl]) simp_all
    then show ?case using Cons.IH [of ?y] Cons.prems by (simp del: agent_step.simps)
  qed simp
  then show ?thesis using st(1-3) assms(4) by simp
qed

section \<open>Witnesses\<close>

definition sample_agent_config :: AgentConfig where
  "sample_agent_config = default_config\<lparr>cfg_tunnel := \<lparr>tun_id = ''t1'', tun_token = ''tnl_a''\<rparr>\<rparr>"

definition sample_attempt :: attempt where
  "sample_attempt = \<lparr>at_tls = Connects, at_alpn = ''h2'', at_write = None, at_reads = (\<lambda>_. Would_block), at_rv = 0, at_now = 0,
     at_events = [Timer 60000000000 False 0 0], at_signal = False\<rparr>"

lemma sample_urls:
  "parse_local_url ''http://localhost:3000'' = Inr \<lparr>local_host = ''localhost'', local_port = ''3000'', local_path_prefix = ''/''\<rparr>"
  "tcp_target ''http://localhost:3000'' = Inr (''localhost'', 3000)"
  by code_simp+

lemma sample_start: "\<exists>f a. start_agent_session sample_agent_config sample_attempt = Inr (f, a)"
  by (simp add: start_agent_session_def sample_agent_config_def sample_attempt_def default_config_def tls_connect_def
      RequestForwarder_new_def sample_urls Let_def hs_start_def)

lemma sample_config_ok: "cfg_validate sample_agent_config = Inr ()"
  "cfg_health sample_agent_config = \<lparr>heartbeat_interval_seconds = 30, heartbeat_timeout_seconds = 60\<rparr>"
  by (simp_all add: cfg_validate_def sample_agent_config_def default_config_def)

lemma local_request_fields_witness:
  "\<exists>f. RequestForwarder_new ''http://localhost:3000'' 1000 = Inr f
   \<and> lr_fields (local_request f (HTTP2Request_new\<lparr>rq_headers := [(''accept'', ''a'')]\<rparr>))
     = [(''Host'', ''localhost:3000''), (''User-Agent'', ''Protogate-Agent/1.0''), (''accept'', ''a'')]"
proof -
  have l: "to_lower ''accept'' = ''accept''" by code_simp
  obtain f where f: "RequestForwarder_new ''http://localhost:3000'' 1000 = Inr f"
    by (simp add: RequestForwarder_new_def sample_urls)
  then show ?thesis
    using local_request_fields [OF _ _ _ _ f sample_urls(1), of "HTTP2Request_new\<lparr>rq_headers := [(''accept'', ''a'')]\<rparr>"]
    by (simp add: umap_wf_def l)
qed

lemma local_response_headers_witness:
  "fr_status_code (rf_forward (\<lambda>_. Inl ''Connection refused'') f r) = 502"
  using local_response_headers [of "\<lambda>_. Inl ''Connection refused''" f r] by simp

lemma upt_2: "[0..<2] = [0, 1]"
  by code_simp

lemma agent_never_gives_up_witness:
  "al_actions (run_agent_loop (\<lambda>_. Inl '''') sample_agent_config (replicate 2 (sample_attempt\<lparr>at_tls := Connect_fails ''refused''\<rparr>)) AgentLoop_new)
    = [Try_connect, Sleep_ms 1000, Try_connect, Sleep_ms 2000]"
proof -
  have "\<forall>att \<in> set (replicate 2 (sample_attempt\<lparr>at_tls := Connect_fails ''refused''\<rparr>)).
      (\<exists>e. start_agent_session sample_agent_config att = Inl e) \<and> \<not> at_signal att"
    by (simp add: start_agent_session_def tls_connect_def sample_attempt_def)
  then show ?thesis
    using agent_never_gives_up [of "replicate 2 (sample_attempt\<lparr>at_tls := Connect_fails ''refused''\<rparr>)" sample_agent_config] by (simp add: upt_2)
qed

lemma heartbeat_timeout_is_final_witness:
  "\<not> al_running (run_agent_loop (\<lambda>_. Inl '''') sample_agent_config [sample_attempt, sample_attempt] AgentLoop_new)"
proof -
  obtain f a where a: "start_agent_session sample_agent_config sample_attempt = Inr (f, a)" using sample_start by blast
  note st = start_session_state [OF a]
  have "hb_is_timed_out 60000000000 (ag_heartbeat a)"
    by (simp add: st(4) sample_config_ok(2) hb_is_timed_out_def to_ms_def trunc_div_def sample_attempt_def)
  moreover have "at_events sample_attempt = [] @ Timer 60000000000 False 0 0 # []" by (simp add: sample_attempt_def)
  ultimately show ?thesis
    using heartbeat_timeout_is_final [OF _ _ a, of AgentLoop_new "[]" 60000000000 0 0 "[]" a] st(1-3)
    by (simp add: AgentLoop_new_def ReconnectionManager_new_def should_reconnect_def)
qed

lemma ping_flood_witness:
  "\<exists>f a. start_agent_session sample_agent_config sample_attempt = Inr (f, a)
    \<and> pings (ag_session (foldl (agent_step (\<lambda>_. Inl '''') f) a (map (\<lambda>t. Timer t False 0 0) [30000000000, 30100000000, 30200000000])))
      = pings (ag_session a) + 3"
proof -
  obtain f a where a: "start_agent_session sample_agent_config sample_attempt = Inr (f, a)" using sample_start by blast
  have "at_now sample_attempt = 0" by (simp add: sample_attempt_def)
  then show ?thesis
    using a ping_flood [OF a sample_config_ok(1) _ refl, of "[30000000000, 30100000000, 30200000000]"]
    by (simp add: sample_config_ok(2) del: agent_step.simps)
qed

end
