(* ===== verification/Server_Config.thy ===== *)
theory Server_Config
  imports Agent_Server
begin

text \<open>
  \<open>src/src/utils/config.{h,cpp}\<close>, the configuration of the server from its environment, and
  \<open>src/src/utils/errors.{h,cpp}\<close>, its catalogue of error codes. The environment is a function from
  names to values; a \<open>std::uint32_t\<close> that receives the result of \<open>std::stoul\<close> keeps its low 32 bits.
\<close>

section \<open>The configuration\<close>

record Config =
  cf_port :: u16
  cf_agent_port :: u16
  cf_key_vault_uri :: string
  cf_dns_zone :: string
  cf_log_analytics_workspace_id :: "string option"
  cf_log_analytics_key :: "string option"
  cf_application_insights_key :: "string option"
  cf_tcp_ports :: "u16 list"
  cf_max_concurrent_tunnels :: u32
  cf_max_connections_per_tunnel :: u32
  cf_io_thread_pool_size :: u32
  cf_tunnel_establish_timeout_ms :: u32
  cf_request_timeout_ms :: u32
  cf_idle_timeout_ms :: u32

type_synonym environment = "string \<Rightarrow> string option"

definition get_env :: "environment \<Rightarrow> string \<Rightarrow> string option" where
  "get_env env name = (case env name of None \<Rightarrow> None | Some v \<Rightarrow> if v = '''' then None else Some v)"

text \<open>A port number: \<open>std::stoi\<close> and the bounds; the handler adds its own text to either failure.\<close>

definition port_number :: "string \<Rightarrow> string \<Rightarrow> u16 result" where
  "port_number err s = (case stoi 10 s of
     Inl _ \<Rightarrow> Inl (Runtime_error (err @ s))
   | Inr p \<Rightarrow> if p < 1 \<or> 65535 < p then Inl (Runtime_error (err @ s)) else Inr (word_of_int p))"

definition env_port :: "environment \<Rightarrow> string \<Rightarrow> u16 \<Rightarrow> u16 result" where
  "env_port env name dflt = (case get_env env name of
     None \<Rightarrow> Inr dflt
   | Some s \<Rightarrow> port_number (''Invalid '' @ name @ '' value: '') s)"

function parse_port_list :: "string \<Rightarrow> u16 list \<Rightarrow> u16 list result" where
  "parse_port_list text ports =
    (case getline (CHR '','') text of
       None \<Rightarrow> Inr ports
     | Some (field, rest) \<Rightarrow>
       let token = trim blanks field
       in if token = '''' then parse_port_list rest ports
          else bind_result (port_number ''Invalid port in TCP_PORTS: '' token)
                 (\<lambda>p. parse_port_list rest (ports @ [p])))"
  by pat_completeness auto
termination
  by (relation "measure (\<lambda>(text, ports). length text)") (auto dest: getline_shorter)

declare parse_port_list.simps [simp del]

definition env_u32 :: "environment \<Rightarrow> string \<Rightarrow> u32 \<Rightarrow> u32 result" where
  "env_u32 env name dflt = (case get_env env name of
     None \<Rightarrow> Inr dflt
   | Some s \<Rightarrow> bind_result (stoul s) (\<lambda>v. Inr (ucast v)))"

definition required :: "environment \<Rightarrow> string \<Rightarrow> string result" where
  "required env name = (case get_env env name of
     None \<Rightarrow> Inl (Runtime_error (name @ '' environment variable is required''))
   | Some v \<Rightarrow> Inr v)"

definition Config_validate :: "Config \<Rightarrow> unit result" where
  "Config_validate c =
    (if cf_key_vault_uri c = '''' \<or> find_string ''https://'' (cf_key_vault_uri c) \<noteq> Some 0
        \<or> find_string ''.vault.azure.net'' (cf_key_vault_uri c) = None
     then Inl (Runtime_error ''KEY_VAULT_URI must be in format: https://<name>.vault.azure.net'')
     else if cf_dns_zone c = '''' \<or> find_char CHR ''.'' (cf_dns_zone c) = None
     then Inl (Runtime_error ''DNS_ZONE must be a valid domain name'')
     else if cf_port c = cf_agent_port c
     then Inl (Runtime_error ''PORT and AGENT_PORT cannot be the same'')
     else if list_ex (\<lambda>p. p = cf_port c \<or> p = cf_agent_port c) (cf_tcp_ports c)
     then Inl (Runtime_error ''TCP_PORTS cannot include PORT or AGENT_PORT values'')
     else if cf_max_concurrent_tunnels c = 0 \<or> 10000 < cf_max_concurrent_tunnels c
     then Inl (Runtime_error ''MAX_CONCURRENT_TUNNELS must be between 1 and 10000'')
     else if cf_max_connections_per_tunnel c = 0
     then Inl (Runtime_error ''MAX_CONNECTIONS_PER_TUNNEL must be greater than 0'')
     else Inr ())"

definition Config_from_environment :: "environment \<Rightarrow> Config result" where
  "Config_from_environment env =
    bind_result (env_port env ''PORT'' 443) (\<lambda>port.
    bind_result (env_port env ''AGENT_PORT'' 8443) (\<lambda>agent_port.
    bind_result (required env ''KEY_VAULT_URI'') (\<lambda>uri.
    bind_result (required env ''DNS_ZONE'') (\<lambda>zone.
    bind_result (case get_env env ''TCP_PORTS'' of None \<Rightarrow> Inr [] | Some s \<Rightarrow> parse_port_list s []) (\<lambda>tcp_ports.
    bind_result (env_u32 env ''MAX_CONCURRENT_TUNNELS'' 50) (\<lambda>max_tunnels.
    bind_result (env_u32 env ''MAX_CONNECTIONS_PER_TUNNEL'' 10000) (\<lambda>max_conns.
    bind_result (env_u32 env ''IO_THREAD_POOL_SIZE'' 0) (\<lambda>pool_size.
      let c = \<lparr>cf_port = port, cf_agent_port = agent_port, cf_key_vault_uri = uri, cf_dns_zone = zone,
               cf_log_analytics_workspace_id = get_env env ''LOG_ANALYTICS_WORKSPACE_ID'',
               cf_log_analytics_key = get_env env ''LOG_ANALYTICS_KEY'',
               cf_application_insights_key = get_env env ''APPLICATION_INSIGHTS_KEY'',
               cf_tcp_ports = tcp_ports, cf_max_concurrent_tunnels = max_tunnels,
               cf_max_connections_per_tunnel = max_conns, cf_io_thread_pool_size = pool_size,
               cf_tunnel_establish_timeout_ms = 30000, cf_request_timeout_ms = 1800000,
               cf_idle_timeout_ms = 300000\<rparr>
      in bind_result (Config_validate c) (\<lambda>_. Inr c)))))))))"

section \<open>What a configuration is worth\<close>

text \<open>What the rest of the server may rely on.\<close>

definition Config_wf :: "Config \<Rightarrow> bool" where
  "Config_wf c \<longleftrightarrow> starts_with ''https://'' (cf_key_vault_uri c)
     \<and> (\<exists>a b. cf_key_vault_uri c = a @ ''.vault.azure.net'' @ b)
     \<and> CHR ''.'' \<in> set (cf_dns_zone c)
     \<and> cf_port c \<noteq> 0 \<and> cf_agent_port c \<noteq> 0 \<and> cf_port c \<noteq> cf_agent_port c
     \<and> (\<forall>p \<in> set (cf_tcp_ports c). p \<noteq> 0 \<and> p \<noteq> cf_port c \<and> p \<noteq> cf_agent_port c)
     \<and> cf_max_concurrent_tunnels c \<in> {1..10000} \<and> cf_max_connections_per_tunnel c \<noteq> 0"

lemma find_string_found: "find_string p s = Some n \<Longrightarrow> \<exists>b. s = take n s @ p @ b"
proof (induction s arbitrary: n)
  case Nil
  then show ?case by (subst (asm) find_string.simps) (auto split: if_splits)
next
  case (Cons c s)
  show ?case
  proof (cases "take (length p) (c # s) = p")
    case True
    then have "n = 0" using Cons.prems by (subst (asm) find_string.simps) simp
    then show ?thesis using True by (metis append_take_drop_id append_Nil take0)
  next
    case False
    then obtain m where "n = Suc m" "find_string p s = Some m"
      using Cons.prems by (subst (asm) find_string.simps) auto
    then show ?thesis using Cons.IH [of m] by simp
  qed
qed

lemma port_number_nonzero: "port_number err s = Inr p \<Longrightarrow> p \<noteq> 0"
proof -
  assume "port_number err s = Inr p"
  then obtain i where i: "\<not> i < 1" "\<not> 65535 < i" "p = word_of_int i"
    by (auto simp: port_number_def split: sum.splits if_splits)
  then have "uint p = i" by (simp add: uint_word_of_int)
  then show ?thesis using i(1) by auto
qed

lemma env_port_nonzero: "env_port env name d = Inr p \<Longrightarrow> d \<noteq> 0 \<Longrightarrow> p \<noteq> 0"
  by (auto simp: env_port_def split: option.splits dest: port_number_nonzero)

lemma parse_port_list_nonzero: "parse_port_list s ports = Inr r \<Longrightarrow> 0 \<notin> set ports \<Longrightarrow> 0 \<notin> set r"
proof (induction s ports arbitrary: r rule: parse_port_list.induct)
  case (1 s ports)
  show ?case
  proof (cases "getline (CHR '','') s")
    case None
    then show ?thesis using 1(3,4) by (simp add: parse_port_list.simps [of s])
  next
    case (Some g)
    obtain field rest where g: "g = (field, rest)" by fastforce
    show ?thesis
    proof (cases "trim blanks field = ''''")
      case True
      then show ?thesis
        using 1(1) [OF Some g [symmetric] refl True, of r] 1(3,4) Some g by (simp add: parse_port_list.simps [of s])
    next
      case False
      then obtain p where p: "port_number ''Invalid port in TCP_PORTS: '' (trim blanks field) = Inr p"
        "parse_port_list rest (ports @ [p]) = Inr r"
        using 1(3) Some g by (auto simp: parse_port_list.simps [of s])
      then show ?thesis
        using 1(2) [OF Some g [symmetric] refl False, of p r] port_number_nonzero [OF p(1)] 1(4) by simp
    qed
  qed
qed

lemma accepted_ports:
  assumes "Config_from_environment env = Inr c"
  shows "Config_validate c = Inr ()" "cf_port c \<noteq> cf_agent_port c" "cf_port c \<notin> set (cf_tcp_ports c)"
    "cf_agent_port c \<notin> set (cf_tcp_ports c)"
proof -
  show v: "Config_validate c = Inr ()"
    using assms unfolding Config_from_environment_def Let_def bind_result_Inr_iff by fastforce
  show "cf_port c \<noteq> cf_agent_port c" "cf_port c \<notin> set (cf_tcp_ports c)" "cf_agent_port c \<notin> set (cf_tcp_ports c)"
    using v by (auto simp: Config_validate_def list_ex_iff split: if_splits)
qed

text \<open>
  C24. A configuration that is accepted is well formed: an address of a key vault, a DNS zone of at least
  two labels, ports that are not 0, the two of the server different and none of the TCP ports equal
  to either, and limits that are not 0.
\<close>

theorem configuration_is_well_formed:
  assumes "Config_from_environment env = Inr c"
  shows "Config_wf c"
proof -
  note d = assms [unfolded Config_from_environment_def Let_def bind_result_Inr_iff]
  note v = accepted_ports(1) [OF assms]
  have p: "cf_port c \<noteq> 0" "cf_agent_port c \<noteq> 0" using d by (auto dest!: env_port_nonzero)
  have "0 \<notin> set (cf_tcp_ports c)"
    using d by (auto split: option.splits dest: parse_port_list_nonzero)
  moreover have "starts_with ''https://'' (cf_key_vault_uri c)"
    using v find_string_found [of "''https://''" "cf_key_vault_uri c" 0]
    by (auto simp: Config_validate_def starts_with_iff split: if_splits)
  moreover have "\<exists>a b. cf_key_vault_uri c = a @ ''.vault.azure.net'' @ b"
    using v find_string_found [of "''.vault.azure.net''" "cf_key_vault_uri c"]
    by (fastforce simp: Config_validate_def split: if_splits)
  ultimately show ?thesis using v p
    by (auto simp: Config_wf_def Config_validate_def list_ex_iff word_gt_0 word_le_less_eq not_less
        word_less_1 split: if_splits)
qed

section \<open>The list of TCP ports\<close>

text \<open>A list as an operator writes it: ports with spaces and tabs around them, separated by commas.\<close>

definition port_field :: "string \<times> u16 \<times> string \<Rightarrow> string" where
  "port_field = (\<lambda>(a, p, b). a @ nat_string (unat p) @ b)"

fun port_list_text :: "(string \<times> u16 \<times> string) list \<Rightarrow> string" where
  "port_list_text [] = ''''"
| "port_list_text [e] = port_field e"
| "port_list_text (e # es) = port_field e @ CHR '','' # port_list_text es"

definition port_entry_ok :: "string \<times> u16 \<times> string \<Rightarrow> bool" where
  "port_entry_ok = (\<lambda>(a, p, b). set a \<subseteq> set blanks \<and> set b \<subseteq> set blanks \<and> p \<noteq> 0)"

lemma trim_padded:
  assumes "set a \<subseteq> set cs" "set b \<subseteq> set cs" "m \<noteq> ''''" "\<forall>c \<in> set m. c \<notin> set cs"
  shows "trim cs (a @ m @ b) = m"
proof -
  have "dropWhile (\<lambda>c. c \<in> set cs) (a @ m @ b) = m @ b"
    using assms(1,3,4) by (subst dropWhile_append2) (auto intro: dropWhile_hd)
  moreover have "dropWhile (\<lambda>c. c \<in> set cs) (rev b @ rev m) = rev m"
    using assms(2,3,4) by (subst dropWhile_append2) (auto intro!: dropWhile_hd simp: hd_rev)
  ultimately show ?thesis by (simp add: trim_def)
qed

lemma port_field_trim: "port_entry_ok (a, p, b) \<Longrightarrow> trim blanks (port_field (a, p, b)) = nat_string (unat p)"
  unfolding port_field_def port_entry_ok_def prod.case
  using nat_string_chars [of "CHR '' ''" "unat p"] nat_string_chars [of "CHR 0x09" "unat p"]
  by (intro trim_padded) (auto simp: is_space_def)

lemma port_field_comma: "port_entry_ok e \<Longrightarrow> CHR '','' \<notin> set (port_field e)"
  using nat_string_chars [of "CHR '',''"] by (auto simp: port_field_def port_entry_ok_def is_digit_def digit_val_def)

lemma port_number_nat_string: "p \<noteq> 0 \<Longrightarrow> port_number err (nat_string (unat p)) = Inr p"
proof -
  assume "p \<noteq> 0"
  then have "unat p \<noteq> 0" by (simp add: unat_eq_0)
  moreover have "unat p < 65536" using unsigned_less [of p, where 'a = nat] by simp
  ultimately show ?thesis
    using stoi_nat_string [of "unat p"] by (simp add: port_number_def del: of_nat_unat) simp
qed

lemma parse_port_list_step:
  assumes "port_entry_ok (a, p, b)" "getline (CHR '','') s = Some (port_field (a, p, b), rest)"
  shows "parse_port_list s ports = parse_port_list rest (ports @ [p])"
  using assms by (subst parse_port_list.simps)
    (simp add: port_field_trim Let_def port_number_nat_string port_entry_ok_def)

text \<open>
  The list of ports that is read is the list that was written, in its order, whatever blanks stand
  around the ports.
\<close>

theorem tcp_ports_round_trip:
  assumes "list_all port_entry_ok es"
  shows "parse_port_list (port_list_text es) ports = Inr (ports @ map (\<lambda>(a, p, b). p) es)"
  using assms
proof (induction es arbitrary: ports rule: port_list_text.induct)
  case 1
  show ?case by (simp add: parse_port_list.simps getline_def)
next
  case (2 e)
  obtain a p b where e: "e = (a, p, b)" by (cases e)
  have "port_field e \<noteq> ''''" by (simp add: e port_field_def)
  then have "parse_port_list (port_field e) ports = parse_port_list '''' (ports @ [p])"
    using 2 port_field_comma [of e] unfolding e by (intro parse_port_list_step) (simp_all add: getline_last)
  then show ?case by (simp add: e parse_port_list.simps [of "''''"] getline_def)
next
  case (3 e e' es)
  obtain a p b where e: "e = (a, p, b)" by (cases e)
  have "parse_port_list (port_list_text (e # e' # es)) ports = parse_port_list (port_list_text (e' # es)) (ports @ [p])"
    using 3(2) port_field_comma [of e] unfolding e by (intro parse_port_list_step) (simp_all add: getline_append)
  then show ?case using 3 by (simp add: e)
qed

section \<open>Limits of more than 32 bits\<close>

lemma stoul_nat_string:
  assumes "n < 2 ^ 64"
  shows "stoul (nat_string n) = Inr (word_of_nat n)" "stoul (CHR ''-'' # nat_string n) = Inr (- word_of_nat n)"
proof -
  obtain c cs where c: "nat_string n = c # cs" by (cases "nat_string n") simp_all
  have d: "is_digit 10 c" "\<not> is_space c" using nat_string_chars [of c n] c by simp_all
  have sg: "c \<noteq> CHR ''-''" "c \<noteq> CHR ''+''" using d(1) by (auto simp: is_digit_def digit_val_def)
  have tw: "takeWhile (is_digit 10) cs = cs"
    using nat_string_chars [of _ n] c by (simp add: takeWhile_eq_all_conv)
  have "\<not> is_space CHR ''-''" by (simp add: is_space_def)
  then show "stoul (nat_string n) = Inr (word_of_nat n)" "stoul (CHR ''-'' # nat_string n) = Inr (- word_of_nat n)"
    using assms d sg by (simp_all add: stoul_def Let_def c tw digits_value_nat_string [of n, unfolded c])
qed

lemma ucast_narrow:
  "ucast (word_of_nat n :: u64) = (word_of_nat (n mod 2 ^ 32) :: u32)"
  "n < 2 ^ 64 \<Longrightarrow> ucast (- word_of_nat n :: u64) = (word_of_nat ((2 ^ 64 - n) mod 2 ^ 32) :: u32)"
proof -
  show "ucast (word_of_nat m :: u64) = (word_of_nat (m mod 2 ^ 32) :: u32)" for m
    unfolding take_bit_eq_mod [symmetric] by (rule bit_word_eqI) (simp add: bit_simps)
  note this [of "2 ^ 64 - n"]
  moreover assume "n < 2 ^ 64"
  moreover from this have "(word_of_nat (2 ^ 64 - n) :: u64) = - word_of_nat n" by (simp add: of_nat_diff)
  ultimately show "ucast (- word_of_nat n :: u64) = (word_of_nat ((2 ^ 64 - n) mod 2 ^ 32) :: u32)" by metis
qed

lemma env_u32_number:
  "n < 2 ^ 64 \<Longrightarrow> env name = Some (nat_string n) \<Longrightarrow> env_u32 env name d = Inr (word_of_nat (n mod 2 ^ 32))"
  "n < 2 ^ 64 \<Longrightarrow> env name = Some (CHR ''-'' # nat_string n) \<Longrightarrow>
     env_u32 env name d = Inr (word_of_nat ((2 ^ 64 - n) mod 2 ^ 32))"
  by (simp_all add: env_u32_def get_env_def stoul_nat_string ucast_narrow del: of_nat_mod)

definition limit_names :: "string list" where
  "limit_names = [''MAX_CONCURRENT_TUNNELS'', ''MAX_CONNECTIONS_PER_TUNNEL'', ''IO_THREAD_POOL_SIZE'']"

lemma from_environment_cong:
  assumes "\<And>name. name \<notin> set limit_names \<Longrightarrow> env name = env' name"
    and "\<And>name d. name \<in> set limit_names \<Longrightarrow> env_u32 env name d = env_u32 env' name d"
  shows "Config_from_environment env = Config_from_environment env'"
proof -
  have "get_env env name = get_env env' name" if "name \<notin> set limit_names" for name
    using assms(1) [OF that] by (simp add: get_env_def)
  then show ?thesis using assms(2)
    by (simp add: Config_from_environment_def env_port_def required_def limit_names_def)
qed

text \<open>
  The limits are cut to 32 bits before they are checked: a limit of \<open>2^32 + 1\<close> is one of 1, and a
  negative one is a large positive one.
\<close>

theorem limits_are_cut:
  assumes "name \<in> set limit_names" "n < 2 ^ 64"
  shows "Config_from_environment (env(name \<mapsto> nat_string n))
      = Config_from_environment (env(name \<mapsto> nat_string (n mod 2 ^ 32)))
    \<and> Config_from_environment (env(name \<mapsto> CHR ''-'' # nat_string n))
      = Config_from_environment (env(name \<mapsto> nat_string ((2 ^ 64 - n) mod 2 ^ 32)))"
proof -
  have same: "env_u32 (env(name \<mapsto> s)) other d = env_u32 (env(name \<mapsto> t)) other d" if "other \<noteq> name" for other d s t
    using that by (simp add: env_u32_def get_env_def)
  have lt: "m mod 2 ^ 32 < 2 ^ 64" for m :: nat by (rule less_le_trans [OF mod_less_divisor]) simp_all
  note e = env_u32_number [where name = name]
  have "env_u32 (env(name \<mapsto> nat_string n)) other d = env_u32 (env(name \<mapsto> nat_string (n mod 2 ^ 32))) other d"
    for other d
    using same e(1) [OF assms(2), of "env(name \<mapsto> nat_string n)"]
      e(1) [OF lt, of "env(name \<mapsto> nat_string (n mod 2 ^ 32))" n] by (cases "other = name") simp_all
  moreover have "env_u32 (env(name \<mapsto> CHR ''-'' # nat_string n)) other d
      = env_u32 (env(name \<mapsto> nat_string ((2 ^ 64 - n) mod 2 ^ 32))) other d" for other d
    using same e(2) [OF assms(2), of "env(name \<mapsto> CHR ''-'' # nat_string n)"]
      e(1) [OF lt, of "env(name \<mapsto> nat_string ((2 ^ 64 - n) mod 2 ^ 32))" "2 ^ 64 - n"]
    by (cases "other = name") simp_all
  ultimately show ?thesis using assms(1) by (intro conjI from_environment_cong) auto
qed

section \<open>The catalogue of errors\<close>

datatype ErrorCode =
  config_invalid | config_missing_required
| auth_token_invalid | auth_token_expired | auth_token_missing | auth_unauthorized
| network_connection_failed | network_connection_closed | network_timeout | network_tls_handshake_failed
| network_invalid_protocol
| tunnel_not_found | tunnel_already_exists | tunnel_agent_not_connected | tunnel_capacity_exceeded | tunnel_suspended
| proxy_upstream_error | proxy_request_too_large | proxy_response_too_large | proxy_invalid_request
| storage_key_vault_error | storage_cache_full | storage_not_found
| system_resource_exhausted | system_internal_error | system_not_implemented

fun error_value :: "ErrorCode \<Rightarrow> int" where
  "error_value config_invalid = 1"
| "error_value config_missing_required = 2"
| "error_value auth_token_invalid = 100"
| "error_value auth_token_expired = 101"
| "error_value auth_token_missing = 102"
| "error_value auth_unauthorized = 103"
| "error_value network_connection_failed = 200"
| "error_value network_connection_closed = 201"
| "error_value network_timeout = 202"
| "error_value network_tls_handshake_failed = 203"
| "error_value network_invalid_protocol = 204"
| "error_value tunnel_not_found = 300"
| "error_value tunnel_already_exists = 301"
| "error_value tunnel_agent_not_connected = 302"
| "error_value tunnel_capacity_exceeded = 303"
| "error_value tunnel_suspended = 304"
| "error_value proxy_upstream_error = 400"
| "error_value proxy_request_too_large = 401"
| "error_value proxy_response_too_large = 402"
| "error_value proxy_invalid_request = 403"
| "error_value storage_key_vault_error = 500"
| "error_value storage_cache_full = 501"
| "error_value storage_not_found = 502"
| "error_value system_resource_exhausted = 600"
| "error_value system_internal_error = 601"
| "error_value system_not_implemented = 602"

text \<open>The \<open>switch\<close> on the integer cast to the enumeration.\<close>

definition error_texts :: "(ErrorCode \<times> string) list" where
  "error_texts =
    [(config_invalid, ''Invalid configuration''),
     (config_missing_required, ''Missing required configuration parameter''),
     (auth_token_invalid, ''Invalid authentication token''),
     (auth_token_expired, ''Authentication token has expired''),
     (auth_token_missing, ''Authentication token is missing''),
     (auth_unauthorized, ''Unauthorized access''),
     (network_connection_failed, ''Network connection failed''),
     (network_connection_closed, ''Network connection closed''),
     (network_timeout, ''Network operation timed out''),
     (network_tls_handshake_failed, ''TLS handshake failed''),
     (network_invalid_protocol, ''Invalid network protocol''),
     (tunnel_not_found, ''Tunnel not found''),
     (tunnel_already_exists, ''Tunnel already exists''),
     (tunnel_agent_not_connected, ''Tunnel agent is not connected''),
     (tunnel_capacity_exceeded, ''Maximum tunnel capacity exceeded''),
     (tunnel_suspended, ''Tunnel is suspended''),
     (proxy_upstream_error, ''Upstream proxy error''),
     (proxy_request_too_large, ''Request payload too large''),
     (proxy_response_too_large, ''Response payload too large''),
     (proxy_invalid_request, ''Invalid proxy request''),
     (storage_key_vault_error, ''Azure Key Vault operation failed''),
     (storage_cache_full, ''Storage cache is full''),
     (storage_not_found, ''Storage item not found''),
     (system_resource_exhausted, ''System resources exhausted''),
     (system_internal_error, ''Internal server error''),
     (system_not_implemented, ''Feature not implemented'')]"

definition error_message :: "int \<Rightarrow> string" where
  "error_message ev = (case map_of (map (\<lambda>(e, t). (error_value e, t)) error_texts) ev of
     None \<Rightarrow> ''Unknown error'' | Some t \<Rightarrow> t)"

lemma error_texts_distinct: "distinct (map (error_value \<circ> fst) error_texts)" "distinct (''Unknown error'' # map snd error_texts)"
  by code_simp+

lemma error_texts_complete: "e \<in> fst ` set error_texts"
  by (cases e) (simp_all add: error_texts_def)

text \<open>Every code of the enumeration has a number and a text of its own; no other number has a text.\<close>

lemma error_catalogue:
  "error_message (error_value e) = error_message (error_value e') \<longleftrightarrow> e = e'"
  "error_message n = ''Unknown error'' \<longleftrightarrow> n \<notin> range error_value"
proof -
  let ?m = "map (\<lambda>(e, t). (error_value e, t)) error_texts"
  have k: "map fst ?m = map (error_value \<circ> fst) error_texts" by (simp add: case_prod_beta)
  have dm: "distinct (map fst ?m)" unfolding k by (rule error_texts_distinct)
  have known: "error_message (error_value e) = t \<longleftrightarrow> (e, t) \<in> set error_texts" for e t
  proof -
    obtain u where u: "(e, u) \<in> set error_texts" using error_texts_complete [of e] by force
    then have "error_message (error_value e) = u"
      using map_of_is_SomeI [OF dm, of "error_value e" u] by (force simp: error_message_def)
    moreover have "u = t" if "(e, t) \<in> set error_texts"
      using that u map_of_is_SomeI [OF dm, of "error_value e" u] map_of_is_SomeI [OF dm, of "error_value e" t] by force
    ultimately show ?thesis using u by auto
  qed
  have inj: "e = e'" if "(e, t) \<in> set error_texts" "(e', t) \<in> set error_texts" for e e' t
    using that error_texts_distinct(2) inj_onD [of snd "set error_texts" "(e, t)" "(e', t)"] by (simp add: distinct_map)
  show "error_message (error_value e) = error_message (error_value e') \<longleftrightarrow> e = e'"
    using known [of e] known [of e'] inj by metis
  show "error_message n = ''Unknown error'' \<longleftrightarrow> n \<notin> range error_value"
  proof
    assume "error_message n = ''Unknown error''"
    then show "n \<notin> range error_value" using known error_texts_distinct(2) by (force simp: distinct.simps)
  next
    assume "n \<notin> range error_value"
    then have "map_of ?m n = None" by (force simp: map_of_eq_None_iff)
    then show "error_message n = ''Unknown error''" by (simp add: error_message_def)
  qed
qed

section \<open>Witnesses\<close>

definition sample_environment :: environment where
  "sample_environment = [''KEY_VAULT_URI'' \<mapsto> ''https://a.vault.azure.net'', ''DNS_ZONE'' \<mapsto> ''a.io'',
     ''TCP_PORTS'' \<mapsto> ''22, 5432'']"

definition sample_config :: Config where
  "sample_config = \<lparr>cf_port = 443, cf_agent_port = 8443, cf_key_vault_uri = ''https://a.vault.azure.net'', cf_dns_zone = ''a.io'',
     cf_log_analytics_workspace_id = None, cf_log_analytics_key = None, cf_application_insights_key = None,
     cf_tcp_ports = [22, 5432], cf_max_concurrent_tunnels = 50, cf_max_connections_per_tunnel = 10000,
     cf_io_thread_pool_size = 0, cf_tunnel_establish_timeout_ms = 30000, cf_request_timeout_ms = 1800000,
     cf_idle_timeout_ms = 300000\<rparr>"

lemma sample_environment_accepted: "Config_from_environment sample_environment = Inr sample_config"
  by code_simp

lemma configuration_is_well_formed_witness:
  "\<exists>c. Config_from_environment sample_environment = Inr c \<and> Config_wf c"
  using sample_environment_accepted configuration_is_well_formed by blast

lemma tcp_ports_round_trip_witness:
  "parse_port_list (port_list_text [('''', 22, ''''), ('' '', 5432, ''  '')]) [] = Inr [22, 5432]"
  using tcp_ports_round_trip [of "[('''', 22, ''''), ('' '', 5432, ''  '')]" "[]"] by (simp add: port_entry_ok_def)

lemma limits_are_cut_witness:
  "Config_from_environment (sample_environment(''MAX_CONCURRENT_TUNNELS'' \<mapsto> nat_string 4294967297))
   = Config_from_environment (sample_environment(''MAX_CONCURRENT_TUNNELS'' \<mapsto> nat_string 1))"
  using limits_are_cut [of "''MAX_CONCURRENT_TUNNELS''" 4294967297 sample_environment] by (simp add: limit_names_def)

end
