(* ===== verification/Server_Main.thy ===== *)
theory Server_Main
  imports Server_Config Tls_Manager Http_Server Tcp_Server Metrics
begin

text \<open>
  \<open>src/src/server/io_context_pool.{h,cpp}\<close> and \<open>src/src/server/main.cpp\<close>: how the server is put together
  from its components, started and shut down. An \<open>io_context\<close> is its index in the pool. The caches
  and the registry, which the C++ components share, are given to each component in the same state.
  \<open>binds used port\<close> tells whether the operating system lets a listener have the port when those of
  \<open>used\<close> are taken.
\<close>

section \<open>The pool of contexts\<close>

record IOContextPool =
  io_stopped :: "bool list"
  io_work_guards :: nat
  io_threads :: "nat list"
  io_next :: nat

text \<open>\<open>hw\<close>: the number of processors, 0 where it is not known.\<close>

definition IOContextPool_new :: "nat \<Rightarrow> nat \<Rightarrow> IOContextPool" where
  "IOContextPool_new hw pool_size =
    (let n = (if pool_size = 0 then if hw = 0 then 2 else hw else pool_size)
     in \<lparr>io_stopped = replicate n False, io_work_guards = n, io_threads = [], io_next = 0\<rparr>)"

definition io_size :: "IOContextPool \<Rightarrow> nat" where
  "io_size p = length (io_stopped p)"

definition io_start :: "IOContextPool \<Rightarrow> IOContextPool" where
  "io_start p = p\<lparr>io_threads := io_threads p @ [0..<io_size p]\<rparr>"

text \<open>The joins return: each thread runs a context that has been stopped.\<close>

definition io_stop :: "IOContextPool \<Rightarrow> IOContextPool" where
  "io_stop p = p\<lparr>io_work_guards := 0, io_stopped := map (\<lambda>_. True) (io_stopped p), io_threads := []\<rparr>"

definition get_io_context :: "IOContextPool \<Rightarrow> nat \<times> IOContextPool" where
  "get_io_context p = (io_next p, p\<lparr>io_next := (io_next p + 1) mod io_size p\<rparr>)"

fun take_contexts :: "nat \<Rightarrow> IOContextPool \<Rightarrow> nat list \<times> IOContextPool" where
  "take_contexts 0 p = ([], p)"
| "take_contexts (Suc n) p = (let (k, p1) = get_io_context p; (ks, p2) = take_contexts n p1 in (k # ks, p2))"

lemma take_contexts_mod:
  "0 < io_size p \<Longrightarrow> io_next p < io_size p \<Longrightarrow>
   take_contexts m p = (map (\<lambda>i. (io_next p + i) mod io_size p) [0..<m], p\<lparr>io_next := (io_next p + m) mod io_size p\<rparr>)"
proof (induction m arbitrary: p)
  case (Suc m)
  define q where "q = p\<lparr>io_next := (io_next p + 1) mod io_size p\<rparr>"
  have q: "io_size q = io_size p" "io_next q = (io_next p + 1) mod io_size p" by (simp_all add: q_def io_size_def)
  have "take_contexts m q = (map (\<lambda>i. (io_next q + i) mod io_size q) [0..<m], q\<lparr>io_next := (io_next q + m) mod io_size q\<rparr>)"
    using Suc q by (intro Suc.IH) simp_all
  moreover have "(io_next q + i) mod io_size q = (io_next p + Suc i) mod io_size p" for i
    by (simp add: q mod_simps)
  moreover have "[0..<Suc m] = 0 # map Suc [0..<m]" by (simp add: upt_conv_Cons map_Suc_upt del: upt_Suc)
  ultimately show ?case
    using Suc.prems by (simp add: get_io_context_def flip: q_def del: upt_Suc) (simp add: q_def)
qed simp

lemma count_residues: "k < n \<Longrightarrow> count_list (map (\<lambda>i. i mod n) [0..<m]) k = m div n + (if k < m mod n then 1 else 0)"
  by (induction m) (auto simp: div_Suc mod_Suc)

text \<open>
  The contexts of a new pool are handed out evenly: among any number of calls, the shares of two
  contexts differ by at most one, and there is always at least one context.
\<close>

theorem contexts_handed_out_evenly:
  assumes "k < io_size (IOContextPool_new hw n)" "(ks, p) = take_contexts m (IOContextPool_new hw n)"
  shows "count_list ks k \<in> {m div io_size p, m div io_size p + 1} \<and> 0 < io_size p \<and> set ks \<subseteq> {..<io_size p}
    \<and> (0 < n \<longrightarrow> io_size p = n)"
proof -
  let ?q = "IOContextPool_new hw n" and ?n = "io_size (IOContextPool_new hw n)"
  have q: "io_next ?q = 0" "0 < ?n" "0 < n \<Longrightarrow> ?n = n" by (simp_all add: IOContextPool_new_def io_size_def Let_def)
  have ks: "ks = map (\<lambda>i. i mod ?n) [0..<m]" "io_size p = ?n"
    using take_contexts_mod [of ?q m] q assms(2) by (simp_all add: io_size_def)
  then have "count_list ks k = m div ?n + (if k < m mod ?n then 1 else 0)"
    using count_residues [OF assms(1), of m] by simp
  then show ?thesis using q ks by auto
qed

section \<open>The server\<close>

record Server =
  sr_config :: Config
  sr_pool :: IOContextPool
  sr_tls :: TLSManager
  sr_http :: HTTPServer
  sr_health :: HealthServer
  sr_agents :: AgentServer
  sr_tcp :: "TCPServer option"

text \<open>With a key vault whose address contains \<open>mock\<close> a token and a tunnel are there from the start.\<close>

definition test_token :: "(string \<Rightarrow> bytes) \<Rightarrow> int \<Rightarrow> AuthToken" where
  "test_token sha now = \<lparr>at_tunnel_id = '''', at_token = '''', at_token_hash = compute_token_hash sha ''tnl_local_test_123'',
     at_created_at = now, at_expires_at = now + seconds (24 * 3600), at_is_active = True\<rparr>"

definition test_tunnel :: "int \<Rightarrow> Tunnel" where
  "test_tunnel now = \<lparr>tunnel_id = ''test-api'', protocol = HTTP, target_host = ''localhost'', target_port = 3000,
     ip_allowlist = [], rate_limit_rpm = 0, created_at = now, updated_at = now, status = ACTIVE\<rparr>"

definition is_mock :: "Config \<Rightarrow> bool" where
  "is_mock c \<longleftrightarrow> find_string ''mock'' (cf_key_vault_uri c) \<noteq> None"

definition initial_tokens :: "(string \<Rightarrow> bytes) \<Rightarrow> int \<Rightarrow> int \<Rightarrow> Config \<Rightarrow> token_cache" where
  "initial_tokens sha steady now c =
    (if is_mock c then add_token steady ''test-api'' (test_token sha now) (24 * 3600) (Cache_new 3600) else Cache_new 3600)"

definition initial_tunnels :: "int \<Rightarrow> int \<Rightarrow> Config \<Rightarrow> (string, Tunnel) Cache" where
  "initial_tunnels steady now c =
    (if is_mock c then Cache_put_ttl steady ''test-api'' (test_tunnel now) (24 * 3600) (Cache_new 3600) else Cache_new 3600)"

text \<open>
  Up to the construction of the servers. The constructors of the HTTP, the health and the agent
  server take a context each, that of the TCP server one for each port.
\<close>

definition create_server ::
  "(string \<Rightarrow> bytes) \<Rightarrow> (string \<Rightarrow> string \<Rightarrow> bool) \<Rightarrow> (string \<times> string) option \<Rightarrow> nat \<Rightarrow> int \<Rightarrow> int \<Rightarrow> environment
   \<Rightarrow> Server result" where
  "create_server sha usable files hw steady now env = bind_result (Config_from_environment env) (\<lambda>c.
     let pool = IOContextPool_new hw (unat (cf_io_thread_pool_size c));
         tunnels = initial_tunnels steady now c;
         registry = AgentRegistry_new 50
     in Inr \<lparr>sr_config = c,
          sr_pool = snd (take_contexts (3 + length (cf_tcp_ports c)) pool),
          sr_tls = TLSManager_new usable files (cf_key_vault_uri c) False,
          sr_http = HTTPServer_new (cf_port c) False (HTTPProxy_new tunnels registry []),
          sr_health = HealthServer_new 8080,
          sr_agents = AgentServer_new registry tunnels (initial_tokens sha steady now c),
          sr_tcp = (if cf_tcp_ports c = [] then None
                    else Some (TCPServer_new (TCPProxy_new tunnels registry []) (cf_tcp_ports c)))\<rparr>)"

text \<open>
  \<open>start\<close> of every server, then of the pool. An exception leaves \<open>main\<close>, which prints it and returns
  1; where a listener cannot bind nothing after it is started.
\<close>

definition start_server :: "(u16 list \<Rightarrow> u16 \<Rightarrow> bool) \<Rightarrow> Server \<Rightarrow> Server result" where
  "start_server binds v =
    (let c = sr_config v; p = cf_port c; a = cf_agent_port c in
     bind_result (sv_start (binds [] p) (sr_http v)) (\<lambda>http.
     bind_result (hl_start (binds [p] 8080) (sr_health v)) (\<lambda>health.
     if \<not> binds [p, 8080] a then Inl (Runtime_error ''bind'')
     else bind_result (case sr_tcp v of
            None \<Rightarrow> Inr None
          | Some t \<Rightarrow> (case ts_start (\<lambda>q. if binds [p, 8080, a] q then None else Some ''bind'') t of
              (Some e, _) \<Rightarrow> Inl e
            | (None, t1) \<Rightarrow> Inr (Some t1))) (\<lambda>tcp.
     Inr (v\<lparr>sr_http := http, sr_health := health, sr_agents := as_start (sr_agents v), sr_tcp := tcp,
            sr_pool := io_start (sr_pool v)\<rparr>)))))"

definition shutdown_server :: "Server \<Rightarrow> Server result" where
  "shutdown_server v =
    (let g = as_stop (sr_agents v)
     in bind_result (registry_shutdown (as_conns g) (as_registry g)) (\<lambda>(conns, registry).
          Inr (v\<lparr>sr_http := sv_stop (sr_http v), sr_health := hl_stop (sr_health v),
                 sr_agents := g\<lparr>as_conns := conns, as_registry := registry\<rparr>, sr_tcp := map_option ts_stop (sr_tcp v),
                 sr_pool := io_stop (sr_pool v)\<rparr>)))"

section \<open>The life of the listener for agents\<close>

text \<open>
  What may happen to the agent server: its handlers in any order, with any input at any time, and the
  operations on the connections it has made. An exception leaves the state that had been reached.
\<close>

datatype as_event =
  As_start | As_stop
| As_accept bool bool "string option"
| As_tls nat bool
| As_read int int "string list" int nat "string option"
| As_written nat bool
| As_agent nat "AgentConnection \<Rightarrow> AgentConnection"

fun as_step :: "(string \<Rightarrow> bytes) \<Rightarrow> AgentServer \<Rightarrow> as_event \<Rightarrow> AgentServer" where
  "as_step sha s As_start = as_start s"
| "as_step sha s As_stop = as_stop s"
| "as_step sha s (As_accept admitted ec ip) = on_accept admitted ec ip s"
| "as_step sha s (As_tls k ec) = on_tls_handshake k ec s"
| "as_step sha s (As_read steady now ord rv k r) = snd (on_auth_read sha steady now ord rv k r s)"
| "as_step sha s (As_written k ec) = on_response_written k ec s"
| "as_step sha s (As_agent h f) =
    (if h < length (as_conns s) then (case run_agent h f s of Inl _ \<Rightarrow> s | Inr t \<Rightarrow> t) else s)"

lemma run_agent_tokens: "run_agent h f t = Inr u \<Longrightarrow> as_tokens u = as_tokens t"
  by (auto simp: run_agent_def Let_def split: if_splits)

lemma authenticate_tokens: "as_tokens (snd (authenticate sha steady now ord rv k text s)) = as_tokens s"
proof -
  obtain authz th ports where h: "auth_headers text = (authz, th, ports)" by (cases "auth_headers text")
  obtain ex tunnels where p: "ports_outcome steady now (vr_tunnel_id (validate sha steady now ord (as_tokens s) authz)) ports
      (as_tunnels s) = (ex, tunnels)" by fastforce
  show ?thesis
    by (simp add: authenticate_def h Let_def p [unfolded ports_outcome_def] hk_send_response_def hk_act_def
        split: option.split sum.split) (auto dest!: run_agent_tokens)
qed

lemma step_tokens: "as_tokens (as_step sha s e) = as_tokens s"
proof (cases e)
  case (As_read steady now ord rv k r)
  show ?thesis
    by (cases r) (simp_all add: As_read on_auth_read_def do_read_auth_def hk_free_def hk_act_def Let_def authenticate_tokens)
next
  case (As_agent h f)
  then show ?thesis using run_agent_tokens [of h f s] by (auto split: sum.splits)
qed (simp_all add: as_start_def as_stop_def on_accept_def on_tls_handshake_def do_read_auth_def hk_free_def hk_act_def
    on_response_written_def)

lemma tokens_constant: "as_tokens (foldl (as_step sha) s es) = as_tokens s"
  by (induction es arbitrary: s) (simp_all add: step_tokens)

text \<open>A server that has no tokens, no agents, and has given no other answer than 401.\<close>

definition refusing :: "AgentServer \<Rightarrow> bool" where
  "refusing s \<longleftrightarrow> cache (as_tokens s) = [] \<and> as_conns s = [] \<and> agents (as_registry s) = []
     \<and> (\<forall>hk \<in> set (as_handshakes s). \<forall>r. Hk_response r \<in> set (hk_actions hk) \<longrightarrow> starts_with ''HTTP/1.1 401 '' r)"

lemma no_tokens_invalid: "cache c = [] \<Longrightarrow> \<not> vr_valid (validate sha steady now ord c header)"
proof -
  assume "cache c = []"
  then have "Cache_live steady ord c = []" by (induction ord) (simp_all add: Cache_live_def Cache_get_def)
  then show ?thesis by (simp add: validate_def validate_token_search vr_failure_def Let_def)
qed

lemma refusing_act:
  assumes "refusing s" "\<And>r. a = Hk_response r \<Longrightarrow> starts_with ''HTTP/1.1 401 '' r"
  shows "refusing (hk_act k a s)"
proof (cases "k < length (as_handshakes s)")
  case True
  then have "as_handshakes s ! k \<in> set (as_handshakes s)" by simp
  then show ?thesis using assms unfolding refusing_def hk_act_def by (auto dest!: set_update_subset_insert [THEN subsetD])
next
  case False
  then show ?thesis using assms by (simp add: refusing_def hk_act_def list_update_beyond)
qed

lemma refusing_edit:
  assumes "refusing s" "hk_actions hk = hk_actions (as_handshakes s ! k)"
  shows "refusing (s\<lparr>as_handshakes := (as_handshakes s)[k := hk]\<rparr>)"
proof (cases "k < length (as_handshakes s)")
  case True
  then have "as_handshakes s ! k \<in> set (as_handshakes s)" by simp
  then show ?thesis using assms unfolding refusing_def by (auto dest!: set_update_subset_insert [THEN subsetD])
next
  case False
  then show ?thesis using assms by (simp add: refusing_def list_update_beyond)
qed

lemma refusing_read: "refusing s \<Longrightarrow> refusing (hk_act k Hk_read s)"
  by (rule refusing_act) simp_all

interpretation refusing_machine: step_machine "as_step sha" refusing for sha
proof
  fix s e assume s: "refusing s"
  show "refusing (as_step sha s e)"
  proof (cases e)
    case (As_read steady now ord rv k r)
    show ?thesis
    proof (cases r)
      case None
      then show ?thesis using s by (simp add: As_read on_auth_read_def hk_free_def refusing_edit)
    next
      case (Some t)
      let ?b = "hk_auth_buffer (as_handshakes s ! k) @ t"
      let ?s1 = "s\<lparr>as_handshakes := (as_handshakes s)[k := (as_handshakes s ! k)\<lparr>hk_auth_buffer := ?b\<rparr>]\<rparr>"
      have s1: "refusing ?s1" using s by (simp add: refusing_edit)
      obtain authz th ports where h: "auth_headers ?b = (authz, th, ports)" by (cases "auth_headers ?b")
      have nv: "\<not> vr_valid (validate sha steady now ord (as_tokens ?s1) authz)"
        using s no_tokens_invalid by (simp add: refusing_def)
      have "nat_string 401 = ''401''" by (simp add: nat_string.simps digit_char_def) code_simp
      moreover have rd: "refusing (do_read_auth k ?s1)"
        unfolding do_read_auth_def by (rule refusing_read [OF s1])
      ultimately have "refusing (hk_send_response k 401 m ?s1)" for m
        using s1 unfolding hk_send_response_def by (intro refusing_act) (auto simp: response_line_def starts_with_def)
      then show ?thesis
        using authenticate_rejects(1) [OF h refl nv] rd by (simp add: As_read on_auth_read_def Some Let_def)
    qed
  qed (use s in \<open>auto simp: as_start_def as_stop_def on_accept_def on_tls_handshake_def do_read_auth_def hk_free_def
      on_response_written_def refusing_edit refusing_read\<close>, auto simp: refusing_def)
qed

section \<open>Who may connect\<close>

lemma create_server_agents:
  assumes "create_server sha usable files hw steady now env = Inr v"
  shows "as_tokens (sr_agents v) = initial_tokens sha steady now (sr_config v)" "as_conns (sr_agents v) = []"
    "agents (as_registry (sr_agents v)) = []" "as_handshakes (sr_agents v) = []"
  using assms by (auto simp: create_server_def AgentServer_new_def AgentRegistry_new_def Let_def)


text \<open>
  C29. With \<open>mock\<close> in the address there is one token, the same in every installation: it lets an agent in
  for 24 hours as the agent of the tunnel \<open>test-api\<close>, after that no token does. A vault with a name
  like \<open>hammock\<close> is enough.
\<close>

theorem test_token_window:
  assumes "create_server sha usable files hw steady now env = Inr v"
    and "s = foldl (as_step sha) (sr_agents v) es" "walk_of ord (as_tokens s)"
    and "r = validate sha steady' now' ord (as_tokens s) header"
  shows "(vr_valid r \<longleftrightarrow> is_mock (sr_config v) \<and> extract_token header \<noteq> ''''
        \<and> compute_token_hash sha (extract_token header) = compute_token_hash sha ''tnl_local_test_123''
        \<and> steady' < steady + seconds (24 * 3600) \<and> now' < now + seconds (24 * 3600))
    \<and> (vr_valid r \<longrightarrow> vr_tunnel_id r = ''test-api'')"
proof -
  have t: "as_tokens s = initial_tokens sha steady now (sr_config v)"
    using create_server_agents(1) [OF assms(1)] by (simp add: assms(2) tokens_constant)
  have g: "grants sha steady' now' (as_tokens s) tok tid \<longleftrightarrow> is_mock (sr_config v) \<and> tid = ''test-api''
      \<and> compute_token_hash sha tok = compute_token_hash sha ''tnl_local_test_123''
      \<and> steady' < steady + seconds (24 * 3600) \<and> now' < now + seconds (24 * 3600)" for tok tid
    by (auto simp: t initial_tokens_def grants_def add_token_def Cache_put_ttl_def Cache_get_def Cache_new_def is_expired_def
        test_token_def token_expired_def)
  note v = validate_token_iff [OF assms(3), of sha steady' now' "extract_token header"]
  have r: "r = (if extract_token header = '''' then vr_failure ''INVALID_FORMAT'' (''Authorization header must be '' @ [CHR 0x27] @ ''Bearer tnl_...'' @ [CHR 0x27])
      else validate_token sha steady' now' ord (as_tokens s) (extract_token header))"
    by (simp add: assms(4) validate_def)
  show ?thesis
  proof (cases "extract_token header = ''''")
    case False
    then show ?thesis using v by (auto simp: r g)
  qed (simp add: r vr_failure_def)
qed

section \<open>Starting\<close>

lemma start_listeners_ok:
  "fst (start_listeners bound i ls s) = None \<longleftrightarrow> (\<forall>l \<in> set ls. bound (pl_port l) = None)"
  by (induction bound i ls s rule: start_listeners.induct) (auto split: option.splits)


section \<open>Witnesses\<close>

lemma contexts_handed_out_evenly_witness:
  "count_list (fst (take_contexts 5 (IOContextPool_new 0 0))) 1 \<in> {2, 3}"
proof -
  obtain ks p where t: "(ks, p) = take_contexts 5 (IOContextPool_new 0 0)" by (metis surj_pair)
  have n: "io_size (IOContextPool_new 0 0) = 2" by (simp add: IOContextPool_new_def io_size_def)
  then have "io_size p = 2"
    using take_contexts_mod [of "IOContextPool_new 0 0" 5] t by (simp add: io_size_def IOContextPool_new_def)
  then show ?thesis using contexts_handed_out_evenly [OF _ t, of 1] n by (simp flip: t)
qed

definition mock_environment :: environment where
  "mock_environment = sample_environment(''KEY_VAULT_URI'' \<mapsto> ''https://hammock.vault.azure.net'')"

lemma mock_environment_accepted:
  "Config_from_environment mock_environment = Inr (sample_config\<lparr>cf_key_vault_uri := ''https://hammock.vault.azure.net''\<rparr>)"
  by code_simp

lemma samples_mock: "\<not> is_mock sample_config" "is_mock (sample_config\<lparr>cf_key_vault_uri := ''https://hammock.vault.azure.net''\<rparr>)"
  by code_simp+

lemma create_samples:
  "\<exists>v. create_server sha usable files hw steady now sample_environment = Inr v \<and> sr_config v = sample_config"
  "\<exists>v. create_server sha usable files hw steady now mock_environment = Inr v
     \<and> sr_config v = sample_config\<lparr>cf_key_vault_uri := ''https://hammock.vault.azure.net''\<rparr>"
  by (simp_all add: create_server_def sample_environment_accepted mock_environment_accepted Let_def)


lemma test_token_window_witness:
  "\<exists>v. create_server sample_sha (\<lambda>_ _. True) None 4 0 0 mock_environment = Inr v
     \<and> vr_valid (validate sample_sha 5 5 [''test-api''] (as_tokens (sr_agents v)) ''Bearer tnl_local_test_123'')"
proof -
  obtain v where v: "create_server sample_sha (\<lambda>_ _. True) None 4 0 0 mock_environment = Inr v"
    "sr_config v = sample_config\<lparr>cf_key_vault_uri := ''https://hammock.vault.azure.net''\<rparr>"
    using create_samples(2) by blast
  have "walk_of [''test-api''] (as_tokens (foldl (as_step sample_sha) (sr_agents v) []))"
    using create_server_agents(1) [OF v(1)] samples_mock(2)
    by (simp add: v(2) initial_tokens_def walk_of_def add_token_def Cache_put_ttl_def Cache_new_def)
  note t = test_token_window [OF v(1) refl this refl, of 5 5 "''Bearer tnl_local_test_123''"]
  have "extract_token (''Bearer '' @ ''tnl_local_test_123'') = ''tnl_local_test_123''"
    by (rule extract_token_bearer) (simp_all add: starts_with_def white_def)
  then have "extract_token ''Bearer tnl_local_test_123'' = ''tnl_local_test_123''" by simp
  then show ?thesis using t v samples_mock(2) by (simp add: seconds_def)
qed


end
