(* ===== verification/Http_Streams.thy ===== *)
theory Http_Streams
  imports Http_Proxy Agent_Main
begin

text \<open>
  The streams of one HTTP/2 connection do not disturb each other. What an end does on stream \<open>i\<close>, with
  the events of all other streams and its other operations in between, is what it does when it sees
  the events of stream \<open>i\<close> alone: the agent for the requests it assembles (\<open>agent_stream\<close>), the
  server for the response that a client waits for (\<open>server_stream\<close>), there also beside new requests
  of other clients, timeouts, heartbeats and the loss of other agents.
\<close>

section \<open>Runs and their projection\<close>

text \<open>
  A run of steps is simulated by its own events alone, when the other steps keep the relation. \<open>up\<close>
  holds at the end and therefore at every earlier state.
\<close>

lemma foldl_projected:
  assumes "R q p" "up (foldl step p xs)" "\<And>p x. up (step p x) \<Longrightarrow> up p"
    and "\<And>q p x e. R q p \<Longrightarrow> x \<in> set xs \<Longrightarrow> up (step p x) \<Longrightarrow> own x = Some e \<Longrightarrow> R (proj q e) (step p x)"
    and "\<And>q p x. R q p \<Longrightarrow> x \<in> set xs \<Longrightarrow> up (step p x) \<Longrightarrow> own x = None \<Longrightarrow> R q (step p x)"
  shows "R (foldl proj q (List.map_filter own xs)) (foldl step p xs)"
  using assms(2,4,5)
proof (induction xs rule: rev_induct)
  case (snoc x xs)
  have "up (foldl step p xs)" using snoc.prems(1) assms(3) by simp
  then have "R (foldl proj q (List.map_filter own xs)) (foldl step p xs)"
    using snoc.IH snoc.prems(2,3) by simp
  then show ?case using snoc.prems by (cases "own x") (simp_all add: map_filter_def)
qed (simp add: assms(1) map_filter_def)

fun on_stream :: "int \<Rightarrow> h2_event \<Rightarrow> bool" where
  "on_stream i (H2_header j n v) = (j = i)"
| "on_stream i (H2_data_chunk fl j d) = (j = i)"
| "on_stream i (H2_frame t fl j r) = (j = i \<and> (t = H2_DATA \<or> t = H2_HEADERS))"

section \<open>The agent's end\<close>

text \<open>What the session of the agent does: it is called back, answers a request, sends a ping.\<close>

datatype session_step =
  Recv h2_event
| Answer int int int int "(string \<times> string) list" bytes
| Ping int

fun session_do :: "HTTP2Session \<Rightarrow> session_step \<Rightarrow> HTTP2Session" where
  "session_do s (Recv e) = hs_callback s e"
| "session_do s (Answer submit_rv rv i code hs body) = send_response submit_rv rv i code hs body s"
| "session_do s (Ping rv) = hs_send_ping rv s"

fun recv_on :: "int \<Rightarrow> session_step \<Rightarrow> h2_event option" where
  "recv_on i (Recv e) = (if on_stream i e then Some e else None)"
| "recv_on i _ = None"

text \<open>What one header does to the request of its stream.\<close>

fun request_header :: "HTTP2Request \<Rightarrow> string \<times> string \<Rightarrow> HTTP2Request" where
  "request_header req (n, v) =
    (if n = '':method'' then req\<lparr>rq_method := v\<rparr> else if n = '':path'' then req\<lparr>rq_path := v\<rparr>
     else if n = '':authority'' then req\<lparr>rq_authority := v\<rparr>
     else if n = ''x-tunnel-request-id'' then req\<lparr>rq_request_id := v\<rparr>
     else if n = ''x-client-ip'' then req\<lparr>rq_client_ip := v\<rparr>
     else req\<lparr>rq_headers := AList.update n v (rq_headers req)\<rparr>)"

lemma hs_on_header_request:
  "hs_on_header i n v s = s\<lparr>hs_pending_requests := AList.update i (request_header ((hs_request i s)\<lparr>rq_stream_id := i\<rparr>) (n, v))
     (hs_pending_requests s)\<rparr>"
  by (simp add: hs_on_header_def Let_def)

lemma request_header_stream: "rq_stream_id (request_header req h) = rq_stream_id req"
  by (cases h) simp

text \<open>The requests of stream \<open>i\<close> that were handed to the callback.\<close>

definition stream_requests :: "int \<Rightarrow> HTTP2Session \<Rightarrow> HTTP2Request list" where
  "stream_requests i s = concat (map (\<lambda>a. case a of Hs_on_request q \<Rightarrow> if rq_stream_id q = i then [q] else []
     | _ \<Rightarrow> []) (hs_actions s))"

text \<open>A pending request knows its stream, unless data came before its first header.\<close>

definition numbered :: "HTTP2Session \<Rightarrow> bool" where
  "numbered s \<longleftrightarrow> (\<forall>j r. map_of (hs_pending_requests s) j = Some r \<longrightarrow> rq_stream_id r = j \<or> rq_stream_id r = 0)"

definition same_request :: "int \<Rightarrow> HTTP2Session \<Rightarrow> HTTP2Session \<Rightarrow> bool" where
  "same_request i s t \<longleftrightarrow> map_of (hs_pending_requests s) i = map_of (hs_pending_requests t) i
     \<and> hs_on_request s = hs_on_request t \<and> stream_requests i s = stream_requests i t \<and> numbered t"

lemma stream_requests_act [simp]:
  "stream_requests i (hs_act a s) = stream_requests i s
    @ (case a of Hs_on_request q \<Rightarrow> if rq_stream_id q = i then [q] else [] | _ \<Rightarrow> [])"
  by (simp add: stream_requests_def hs_act_def)

lemma hs_act_keeps [simp]:
  "hs_pending_requests (hs_act a s) = hs_pending_requests s" "hs_on_request (hs_act a s) = hs_on_request s"
  "hs_on_ping_ack (hs_act a s) = hs_on_ping_ack s" "numbered (hs_act a s) = numbered s"
  by (simp_all add: hs_act_def numbered_def)

lemma stream_requests_update [simp]:
  "stream_requests i (s\<lparr>hs_pending_requests := m\<rparr>) = stream_requests i s"
  "stream_requests i (s\<lparr>hs_active := b\<rparr>) = stream_requests i s"
  "stream_requests i (s\<lparr>hs_response_bodies := rb\<rparr>) = stream_requests i s"
  by (simp_all add: stream_requests_def)

lemma hs_request_stream: "numbered s \<Longrightarrow> rq_stream_id (hs_request j s) = j \<or> rq_stream_id (hs_request j s) = 0"
  by (auto simp: numbered_def hs_request_def HTTP2Request_new_def split: option.split)

lemma hs_header_stream:
  "\<exists>r. hs_on_header j n v s = s\<lparr>hs_pending_requests := AList.update j r (hs_pending_requests s)\<rparr> \<and> rq_stream_id r = j"
  by (intro exI [of _ "request_header ((hs_request j s)\<lparr>rq_stream_id := j\<rparr>) (n, v)"])
    (simp add: hs_on_header_request request_header_stream del: request_header.simps)

lemma numbered_update:
  "numbered s \<Longrightarrow> rq_stream_id r = j \<or> rq_stream_id r = 0
    \<Longrightarrow> numbered (s\<lparr>hs_pending_requests := AList.update j r (hs_pending_requests s)\<rparr>)"
  by (simp add: numbered_def map_simps)

lemma numbered_complete: "numbered s \<Longrightarrow> numbered (hs_complete j s)"
  by (auto simp: numbered_def hs_complete_def map_simps split: option.splits)

lemma numbered_callback: "numbered s \<Longrightarrow> numbered (hs_callback s e)"
proof (cases e)
  case (H2_header j n v)
  moreover assume "numbered s"
  ultimately show ?thesis using hs_header_stream [of j n v s] numbered_update by fastforce
next
  case (H2_data_chunk fl j d)
  moreover assume "numbered s"
  ultimately show ?thesis using hs_request_stream [of s j] by (simp add: hs_on_data_chunk_def Let_def numbered_update)
next
  case (H2_frame t fl j r)
  moreover assume "numbered s"
  ultimately show ?thesis by (simp add: hs_on_frame_recv_def numbered_complete split: h2_frame_type.split)
qed

lemma same_request_own:
  assumes "same_request i s t" "on_stream i e"
  shows "same_request i (hs_callback s e) (hs_callback t e)"
proof -
  have n: "numbered (hs_callback t e)" using assms(1) by (simp add: same_request_def numbered_callback)
  have r: "hs_request i s = hs_request i t" using assms(1) by (simp add: same_request_def hs_request_def)
  have c: "same_request i (hs_complete i s) (hs_complete i t)"
    using assms(1) numbered_complete [of t i]
    by (auto simp: same_request_def hs_complete_def map_simps split: option.splits)
  show ?thesis
  proof (cases e)
    case (H2_header j nm v)
    then show ?thesis using assms n r
      by (simp add: same_request_def hs_on_header_request map_simps del: request_header.simps)
  next
    case (H2_data_chunk fl j d)
    then show ?thesis using assms n r by (auto simp: same_request_def hs_on_data_chunk_def Let_def map_simps)
  next
    case (H2_frame ty fl j rp)
    then show ?thesis using assms c by (auto simp: hs_on_frame_recv_def)
  qed
qed

lemma complete_other:
  assumes "j \<noteq> i" "i \<noteq> 0" "numbered t"
  shows "stream_requests i (hs_complete j t) = stream_requests i t"
    "map_of (hs_pending_requests (hs_complete j t)) i = map_of (hs_pending_requests t) i"
    "hs_on_request (hs_complete j t) = hs_on_request t"
  using assms by (auto simp: hs_complete_def numbered_def map_simps split: option.splits)

lemma same_request_other:
  assumes "same_request i s t" "\<not> on_stream i e" "i \<noteq> 0"
  shows "same_request i s (hs_callback t e)"
proof (cases e)
  case (H2_header j n v)
  then show ?thesis using assms(1,2) numbered_callback [of t e] hs_header_stream [of j n v t]
    by (auto simp: same_request_def map_simps)
next
  case (H2_data_chunk fl j d)
  then show ?thesis using assms(1,2) numbered_callback [of t e]
    by (auto simp: same_request_def hs_on_data_chunk_def Let_def map_simps)
next
  case (H2_frame ty fl j r)
  then show ?thesis using assms numbered_callback [of t e] complete_other [of j i t]
    by (auto simp: same_request_def hs_on_frame_recv_def split: h2_frame_type.splits)
qed

lemma same_request_step:
  assumes "same_request i s t" "recv_on i x = None" "i \<noteq> 0"
  shows "same_request i s (session_do t x)"
proof (cases x)
  case (Recv e)
  then show ?thesis using assms same_request_other [OF assms(1)] by (simp split: if_splits)
next
  case (Answer submit_rv rv j code hs body)
  then show ?thesis using assms(1)
    by (simp add: same_request_def send_response_def hs_send_data_def Let_def numbered_def)
next
  case (Ping rv)
  then show ?thesis using assms(1) by (simp add: same_request_def hs_send_ping_def hs_send_data_def Let_def numbered_def)
qed

lemma agent_stream:
  assumes "numbered s" "i \<noteq> 0"
  shows "same_request i (foldl hs_callback s (List.map_filter (recv_on i) xs)) (foldl session_do s xs)"
proof (rule foldl_projected [where R = "same_request i" and up = "\<lambda>_. True"])
  show "same_request i s s" using assms(1) by (simp add: same_request_def)
  show "same_request i (hs_callback q e) (session_do p x)"
    if "same_request i q p" "recv_on i x = Some e" for q p x e
    using that by (cases x) (auto simp: same_request_own split: if_splits)
qed (use same_request_step assms(2) in auto)

section \<open>The server's end\<close>

text \<open>
  What happens at the proxy: the library calls back at one of its agents, a client sends a request, a
  timer of a request or of a heartbeat fires, an agent is lost.
\<close>

datatype proxy_step =
  Agent_event nat int h2_event
| Client_request int "string list" int inet "json \<Rightarrow> string" "string \<times> int" nat int int "(string \<times> string) list" nat HTTPRequest
| Request_timer nat bool string int
| Heartbeat_timer nat bool int int
| Agent_lost nat

fun proxy_do :: "HTTPProxy \<Rightarrow> proxy_step \<Rightarrow> HTTPProxy" where
  "proxy_do p (Agent_event h now e) = hp_run_agent h (\<lambda>a. ac_callback now a e) p"
| "proxy_do p (Client_request now ord now' n dump health time sid rv walk client r) =
     hp_handle_request now ord now' n dump health time sid rv walk client r p"
| "proxy_do p (Request_timer h ec rid sid) = hp_run_agent h (on_request_timeout ec rid sid) p"
| "proxy_do p (Heartbeat_timer h ec now rv) = hp_run_agent h (on_heartbeat_timer ec now rv) p"
| "proxy_do p (Agent_lost h) = hp_run_agent h ac_close p"

fun event_on :: "nat \<Rightarrow> int \<Rightarrow> proxy_step \<Rightarrow> h2_event option" where
  "event_on h i (Agent_event h' now e) = (if h' = h \<and> on_stream i e then Some e else None)"
| "event_on h i _ = None"

text \<open>
  A step that is not about the request \<open>rid\<close> of the client on stream \<open>i\<close> of agent \<open>h\<close>: requests are
  those of other clients, and at the same agent they have a stream and an id of their own.
\<close>

fun elsewhere :: "HTTPProxy \<Rightarrow> nat \<Rightarrow> int \<Rightarrow> string \<Rightarrow> nat \<Rightarrow> proxy_step \<Rightarrow> bool" where
  "elsewhere p h i rid client (Client_request now ord now' n dump health time sid rv walk client' r) =
     (client' \<noteq> client \<and> (get_agent (match_tunnel now ord (hp_host r) (hp_tunnels p)) (hp_registry p) = Some h
        \<longrightarrow> sid \<noteq> i \<and> request_id time \<noteq> rid))"
| "elsewhere p h i rid client (Request_timer h' ec rid' sid) = (h' = h \<and> \<not> ec \<longrightarrow> rid' \<noteq> rid \<and> sid \<noteq> i)"
| "elsewhere p h i rid client _ = True"

text \<open>
  \<open>u\<close> is the connection when it sees the events of stream \<open>i\<close> alone, \<open>a\<close> the real one. Nothing else
  at \<open>a\<close> refers to the request or to its callback.
\<close>

definition solo :: "int \<Rightarrow> string \<Rightarrow> nat \<Rightarrow> AgentConnection \<Rightarrow> AgentConnection \<Rightarrow> bool" where
  "solo i rid cb u a \<longleftrightarrow> map_of (ac_stream_headers u) i = map_of (ac_stream_headers a) i
     \<and> map_of (ac_stream_bodies_recv u) i = map_of (ac_stream_bodies_recv a) i
     \<and> map_of (ac_stream_to_request u) i = map_of (ac_stream_to_request a) i
     \<and> map_of (ac_pending_requests u) rid = map_of (ac_pending_requests a) rid
     \<and> (\<forall>r. map_of (ac_stream_to_request a) i = Some r \<longrightarrow> r = rid)
     \<and> (\<forall>c. map_of (ac_pending_requests a) rid = Some c \<longrightarrow> c = cb)
     \<and> (\<forall>j. j \<noteq> i \<longrightarrow> map_of (ac_stream_to_request a) j \<noteq> Some rid)
     \<and> (\<forall>r. r \<noteq> rid \<longrightarrow> map_of (ac_pending_requests a) r \<noteq> Some cb) \<and> cb < ac_next_callback a"

text \<open>A step that does not touch what the request depends on.\<close>

definition apart :: "int \<Rightarrow> string \<Rightarrow> nat \<Rightarrow> AgentConnection \<Rightarrow> AgentConnection \<Rightarrow> bool" where
  "apart i rid cb a a' \<longleftrightarrow> (\<forall>u. solo i rid cb u a \<longrightarrow> solo i rid cb u a'
     \<and> (\<exists>new. ac_actions a' = ac_actions a @ new \<and> cb \<notin> set (new_calls new)))"

lemma solo_cong:
  assumes "solo i rid cb u a" "map_of (ac_stream_headers a') i = map_of (ac_stream_headers a) i"
    and "map_of (ac_stream_bodies_recv a') i = map_of (ac_stream_bodies_recv a) i"
    and "ac_stream_to_request a' = ac_stream_to_request a" "ac_pending_requests a' = ac_pending_requests a"
    and "ac_next_callback a \<le> ac_next_callback a'"
  shows "solo i rid cb u a'"
  using assms by (simp add: solo_def)

lemma new_calls_simps [simp]:
  "new_calls [] = []" "new_calls (a # as) = (case a of Ac_callback m r e \<Rightarrow> [m] | _ \<Rightarrow> []) @ new_calls as"
  "new_calls (as @ bs) = new_calls as @ new_calls bs"
  by (simp_all add: new_calls_def)

lemma apart_refl [simp, intro]: "apart i rid cb a a"
  by (simp add: apart_def)

lemma apart_trans:
  assumes "apart i rid cb a b" "apart i rid cb b c"
  shows "apart i rid cb a c"
  unfolding apart_def
proof (intro allI impI)
  fix u
  assume u: "solo i rid cb u a"
  obtain n1 where 1: "solo i rid cb u b" "ac_actions b = ac_actions a @ n1" "cb \<notin> set (new_calls n1)"
    using assms(1) u unfolding apart_def by blast
  obtain n2 where "solo i rid cb u c" "ac_actions c = ac_actions b @ n2" "cb \<notin> set (new_calls n2)"
    using assms(2) 1(1) unfolding apart_def by blast
  then show "solo i rid cb u c \<and> (\<exists>new. ac_actions c = ac_actions a @ new \<and> cb \<notin> set (new_calls new))"
    using 1 by (intro conjI exI [of _ "n1 @ n2"]) simp_all
qed

lemma apart_act: "(case x of Ac_callback m r e \<Rightarrow> m \<noteq> cb | _ \<Rightarrow> True) \<Longrightarrow> apart i rid cb a (ac_act x a)"
  unfolding apart_def by (auto simp: solo_def ac_act_def split: ac_action.splits)

lemma apart_frame:
  assumes "map_of (ac_stream_headers a') i = map_of (ac_stream_headers a) i"
    and "map_of (ac_stream_bodies_recv a') i = map_of (ac_stream_bodies_recv a) i"
    and "ac_stream_to_request a' = ac_stream_to_request a" "ac_pending_requests a' = ac_pending_requests a"
    and "ac_next_callback a \<le> ac_next_callback a'" "ac_actions a' = ac_actions a"
  shows "apart i rid cb a a'"
  unfolding apart_def using solo_cong [OF _ assms(1-5)] assms(6) by simp

text \<open>The session is never set up again, and a connection that has one has not been closed.\<close>

lemma ac_close_up: "ac_session (ac_close a) \<Longrightarrow> ac_close a = a"
  by (auto simp: ac_close_def handle_disconnect_def Let_def split: if_splits)

lemma send_pending_up: "ac_session (send_pending_data rv a) \<Longrightarrow> send_pending_data rv a = ac_act Ac_session_send a"
  using ac_close_up [of "ac_act Ac_session_send a"] by (auto simp: send_pending_data_def Let_def split: if_splits)

lemma complete_request_session [simp]: "ac_session (complete_request i a) = ac_session a"
  by (simp add: complete_request_def split: option.split)

lemma callback_up: "ac_session (ac_callback now a e) \<Longrightarrow> ac_session a"
  using ac_close_up [of a]
  by (cases e) (auto simp: ac_on_header_def ac_on_data_chunk_def ac_on_frame_recv_def split: if_splits h2_frame_type.splits)

lemma complete_apart: "j \<noteq> i \<Longrightarrow> apart i rid cb a (complete_request j a)"
  by (auto simp: apart_def solo_def complete_request_def ac_act_def map_simps split: option.splits)

lemma callback_apart:
  assumes "\<not> on_stream i e" "ac_session (ac_callback now a e)"
  shows "apart i rid cb a (ac_callback now a e)"
proof (cases e)
  case (H2_header j n v)
  then show ?thesis using assms(1) by (auto intro!: apart_frame simp: ac_on_header_def map_simps)
next
  case (H2_data_chunk fl j d)
  then show ?thesis using assms(1) by (auto intro!: apart_frame simp: ac_on_data_chunk_def map_simps)
next
  case (H2_frame t fl j r)
  then show ?thesis using assms ac_close_up [of a]
    by (cases t) (auto simp: ac_on_frame_recv_def intro!: complete_apart apart_frame)
qed

lemma timeout_apart:
  "\<not> ec \<longrightarrow> rid' \<noteq> rid \<and> sid \<noteq> i \<Longrightarrow> apart i rid cb a (on_request_timeout ec rid' sid a)"
  by (auto simp: apart_def solo_def on_request_timeout_def ac_act_def map_simps split: option.splits)

lemma timeout_up: "ac_session (on_request_timeout ec rid sid a) = ac_session a"
  by (simp add: on_request_timeout_def split: option.split)

lemma heartbeat_apart:
  assumes "ac_session (on_heartbeat_timer ec now rv a)"
  shows "apart i rid cb a (on_heartbeat_timer ec now rv a)" "ac_session a"
  using assms ac_close_up [of a] send_pending_up [of rv "ac_act Ac_submit_ping a"]
  by (auto simp: on_heartbeat_timer_def send_heartbeat_def Let_def split: if_splits
      intro!: apart_trans [OF apart_act apart_trans [OF apart_act apart_act]] apart_act)

text \<open>The three ways through \<open>send_http_request\<close>: refused at once, not accepted by the library, on its way.\<close>

lemma send_request_sent:
  assumes "ac_state a = CONNECTED" "ac_session a" "0 \<le> sid"
  shows "\<exists>xs sb. new_calls xs = [] \<and> send_http_request sid rv rid req timeout a = ac_act (Ac_arm_timeout rid sid timeout)
    (send_pending_data rv (a\<lparr>ac_next_callback := ac_next_callback a + 1, ac_stream_bodies := sb, ac_actions := ac_actions a @ xs,
       ac_pending_requests := AList.update rid (ac_next_callback a) (ac_pending_requests a),
       ac_stream_to_request := AList.update sid rid (ac_stream_to_request a)\<rparr>))"
proof -
  obtain m path hs body where p: "parse_request_text req = (m, path, hs, body)"
    by (cases "parse_request_text req") auto
  let ?h = "Ac_submit_headers (header_pairs rid m path hs) (body = [])"
  show ?thesis
  proof (cases "body = []")
    case True
    then show ?thesis using assms
      by (intro exI [of _ "[?h, Ac_submit_headers [] True]"] exI [of _ "ac_stream_bodies a"])
        (simp add: send_http_request_def Let_def p ac_act_def)
  next
    case False
    then show ?thesis using assms
      by (intro exI [of _ "[?h, Ac_submit_data sid body]"] exI [of _ "AList.update rid body (ac_stream_bodies a)"])
        (simp add: send_http_request_def Let_def p ac_act_def)
  qed
qed

lemma send_request_cases:
  fixes a :: AgentConnection and sid rv :: int and rid req :: string and timeout :: int
  defines "q \<equiv> send_http_request sid rv rid req timeout a"
  obtains (refused) "q = ac_act (Ac_callback (ac_next_callback a) '''' True)
      (a\<lparr>ac_next_callback := ac_next_callback a + 1\<rparr>)"
  | (failed) ps f where "q = ac_act (Ac_callback (ac_next_callback a) '''' True) (ac_act (Ac_submit_headers ps f)
      (a\<lparr>ac_next_callback := ac_next_callback a + 1\<rparr>))"
  | (sent) xs sb where "new_calls xs = []" "q = ac_act (Ac_arm_timeout rid sid timeout) (send_pending_data rv
      (a\<lparr>ac_next_callback := ac_next_callback a + 1, ac_stream_bodies := sb, ac_actions := ac_actions a @ xs,
         ac_pending_requests := AList.update rid (ac_next_callback a) (ac_pending_requests a),
         ac_stream_to_request := AList.update sid rid (ac_stream_to_request a)\<rparr>))"
proof -
  obtain m path hs body where p: "parse_request_text req = (m, path, hs, body)"
    by (cases "parse_request_text req") auto
  show thesis
  proof (cases "ac_state a \<noteq> CONNECTED \<or> \<not> ac_session a")
    case True
    then show thesis by (intro refused) (auto simp: q_def send_http_request_def Let_def)
  next
    case c: False
    show thesis
    proof (cases "sid < 0")
      case True
      then show thesis using c by (intro failed) (auto simp: q_def send_http_request_def Let_def p)
    next
      case False
      then show thesis using c send_request_sent [of a sid rv rid req timeout] sent unfolding q_def by auto
    qed
  qed
qed

lemma register_apart:
  assumes "sid \<noteq> i" "rid' \<noteq> rid" "cb' \<noteq> cb" "new_calls xs = []" "ac_next_callback a \<le> n"
  shows "apart i rid cb a (a\<lparr>ac_next_callback := n, ac_stream_bodies := sb, ac_actions := ac_actions a @ xs,
    ac_pending_requests := AList.update rid' cb' (ac_pending_requests a),
    ac_stream_to_request := AList.update sid rid' (ac_stream_to_request a)\<rparr>)"
  using assms by (auto simp: apart_def solo_def map_simps)

lemma request_apart:
  assumes "sid \<noteq> i" "rid' \<noteq> rid" "ac_session (send_http_request sid rv rid' req timeout a)"
  shows "apart i rid cb a (send_http_request sid rv rid' req timeout a)"
proof (cases "cb = ac_next_callback a")
  case True
  then show ?thesis by (simp add: apart_def solo_def)
next
  case False
  have b: "apart i rid cb a (a\<lparr>ac_next_callback := ac_next_callback a + 1\<rparr>)" by (rule apart_frame) simp_all
  have fail: "apart i rid cb x (ac_act (Ac_callback (ac_next_callback a) '''' True) x)" for x
    using False by (intro apart_act) simp
  show ?thesis
  proof (cases rule: send_request_cases [of sid rv rid' req timeout a])
    case refused
    then show ?thesis using apart_trans [OF b fail] by simp
  next
    case (failed ps f)
    then show ?thesis using apart_trans [OF b apart_trans [OF apart_act fail]] by simp
  next
    case (sent xs sb)
    note up = send_pending_up [OF assms(3) [unfolded sent(2) ac_act_simps]]
    show ?thesis unfolding sent(2) up
      by (rule apart_trans [OF register_apart apart_trans [OF apart_act apart_act]])
        (use assms(1,2) False sent(1) in simp_all)
  qed
qed

lemma request_up: "ac_session (send_http_request sid rv rid req timeout a) \<Longrightarrow> ac_session a"
proof (cases rule: send_request_cases [of sid rv rid req timeout a])
  case (sent xs sb)
  moreover assume "ac_session (send_http_request sid rv rid req timeout a)"
  ultimately have up: "ac_session (send_pending_data rv (a\<lparr>ac_next_callback := ac_next_callback a + 1,
      ac_stream_bodies := sb, ac_actions := ac_actions a @ xs,
      ac_pending_requests := AList.update rid (ac_next_callback a) (ac_pending_requests a),
      ac_stream_to_request := AList.update sid rid (ac_stream_to_request a)\<rparr>))" by simp
  then show ?thesis using send_pending_up [OF up] by simp
qed simp_all

text \<open>An event of the stream itself has the same effect on both, and the same actions.\<close>

lemma solo_complete:
  assumes "solo i rid cb u a"
  shows "solo i rid cb (complete_request i u) (complete_request i a)
    \<and> (\<exists>new. ac_actions (complete_request i u) = ac_actions u @ new \<and> ac_actions (complete_request i a) = ac_actions a @ new
        \<and> (new = [] \<or> (\<exists>t. new = [Ac_callback cb t False])))"
proof (cases "map_of (ac_stream_to_request a) i")
  case None
  then show ?thesis using assms by (simp add: solo_def complete_request_def)
next
  case (Some r)
  then have r: "map_of (ac_stream_to_request a) i = Some rid" "map_of (ac_stream_to_request u) i = Some rid"
    using assms by (auto simp: solo_def)
  have t: "response_text i u = response_text i a" using assms by (simp add: solo_def response_text_def stream_text_def)
  show ?thesis
  proof (cases "map_of (ac_pending_requests a) rid")
    case None
    then show ?thesis using assms r by (simp add: solo_def complete_request_def)
  next
    case (Some c)
    then have "map_of (ac_pending_requests a) rid = Some cb" "map_of (ac_pending_requests u) rid = Some cb"
      using assms by (auto simp: solo_def)
    then show ?thesis using assms r t by (simp add: solo_def complete_request_def ac_act_def map_simps)
  qed
qed

lemma solo_own:
  assumes "solo i rid cb u a" "on_stream i e"
  shows "solo i rid cb (ac_callback 0 u e) (ac_callback now a e)
    \<and> (\<exists>new. ac_actions (ac_callback 0 u e) = ac_actions u @ new \<and> ac_actions (ac_callback now a e) = ac_actions a @ new
        \<and> (new = [] \<or> (\<exists>t. new = [Ac_callback cb t False])))"
proof (cases e)
  case (H2_header j n v)
  have "stream_text i (ac_stream_headers u) = stream_text i (ac_stream_headers a)"
    using assms(1) by (simp add: solo_def stream_text_def)
  then show ?thesis using assms H2_header by (simp add: solo_def ac_on_header_def map_simps)
next
  case (H2_data_chunk fl j d)
  have "stream_text i (ac_stream_bodies_recv u) = stream_text i (ac_stream_bodies_recv a)"
    using assms(1) by (simp add: solo_def stream_text_def)
  then show ?thesis using assms H2_data_chunk by (simp add: solo_def ac_on_data_chunk_def map_simps)
next
  case (H2_frame t fl j r)
  then show ?thesis using assms solo_complete [OF assms(1)] by (auto simp: ac_on_frame_recv_def)
qed

section \<open>The proxy and the client that waits\<close>

definition replies :: "nat \<Rightarrow> ac_action list \<Rightarrow> string list" where
  "replies cb as = concat (map (\<lambda>a. case a of Ac_callback c r e \<Rightarrow> if c = cb then [r] else [] | _ \<Rightarrow> []) as)"

definition follows :: "HTTPProxy \<Rightarrow> nat \<Rightarrow> int \<Rightarrow> string \<Rightarrow> nat \<Rightarrow> nat \<Rightarrow> AgentConnection \<Rightarrow> HTTPProxy \<Rightarrow> bool" where
  "follows p0 h i rid cb client u p \<longleftrightarrow> h < length (hp_agents p) \<and> solo i rid cb u (hp_agents p ! h)
     \<and> (\<exists>tid. map_of (hp_waiting p) (h, cb) = Some (client, tid))
     \<and> (\<forall>k tid. map_of (hp_waiting p) k = Some (client, tid) \<longrightarrow> k = (h, cb))
     \<and> answers client p = answers client p0 @ replies cb (ac_actions u)
     \<and> hp_registry p = hp_registry p0 \<and> hp_tunnels p = hp_tunnels p0"

lemma agent_callback_keeps [simp]:
  "hp_registry (foldl (agent_callback h) p as) = hp_registry p"
  "hp_tunnels (foldl (agent_callback h) p as) = hp_tunnels p"
proof -
  have "hp_registry (agent_callback h p a) = hp_registry p \<and> hp_tunnels (agent_callback h p a) = hp_tunnels p" for p a
    by (simp add: agent_callback_def on_agent_response_def respond_error_def log_request_def split: ac_action.split option.split)
  then show "hp_registry (foldl (agent_callback h) p as) = hp_registry p"
    "hp_tunnels (foldl (agent_callback h) p as) = hp_tunnels p"
    by (induction as arbitrary: p) simp_all
qed

lemma callbacks_other:
  assumes "\<forall>n tid. n \<in> set (new_calls as) \<longrightarrow> map_of (hp_waiting p) (h, n) \<noteq> Some (client, tid)"
  shows "answers client (foldl (agent_callback h) p as) = answers client p"
  using assms
proof (induction as arbitrary: p)
  case (Cons a as)
  have "answers client (agent_callback h p a) = answers client p"
  proof (cases a)
    case (Ac_callback m r e)
    then show ?thesis using Cons.prems by (auto simp: agent_callback_def on_agent_response_answers split: option.splits)
  qed (simp_all add: agent_callback_def)
  then show ?case using Cons.IH [of "agent_callback h p a"] Cons.prems by simp
qed simp

lemma answers_agents [simp]:
  "answers client (p\<lparr>hp_agents := as\<rparr>) = answers client p" "answers client (p\<lparr>hp_waiting := w\<rparr>) = answers client p"
  by (simp_all add: answers_def)

lemma hp_run_agent_keeps [simp]:
  "hp_registry (hp_run_agent h f p) = hp_registry p" "hp_tunnels (hp_run_agent h f p) = hp_tunnels p"
  by (simp_all add: hp_run_agent_callbacks)

lemma follows_run:
  assumes "follows p0 h i rid cb client u p"
    and "h' = h \<longrightarrow> apart i rid cb (hp_agents p ! h) (f (hp_agents p ! h))"
  shows "follows p0 h i rid cb client u (hp_run_agent h' f p)"
proof -
  let ?new = "drop (length (ac_actions (hp_agents p ! h'))) (ac_actions (f (hp_agents p ! h')))"
  have wait: "\<forall>k tid. map_of (hp_waiting p) k = Some (client, tid) \<longrightarrow> k = (h, cb)"
    using assms(1) by (simp add: follows_def)
  have s: "solo i rid cb u (hp_agents (hp_run_agent h' f p) ! h)" and n: "h' = h \<longrightarrow> cb \<notin> set (new_calls ?new)"
    using assms by (cases "h' = h"; auto simp: follows_def apart_def)+
  have "answers client (hp_run_agent h' f p) = answers client p"
    unfolding hp_run_agent_callbacks using wait n by (subst callbacks_other) auto
  then show ?thesis using assms(1) s by (simp add: follows_def)
qed

lemma follows_own:
  assumes "follows p0 h i rid cb client u p" "on_stream i e"
  shows "follows p0 h i rid cb client (ac_callback 0 u e) (hp_run_agent h (\<lambda>a. ac_callback now a e) p)"
proof -
  let ?a = "hp_agents p ! h"
  have u: "solo i rid cb u ?a" using assms(1) by (simp add: follows_def)
  obtain new where new: "solo i rid cb (ac_callback 0 u e) (ac_callback now ?a e)"
    "ac_actions (ac_callback 0 u e) = ac_actions u @ new" "ac_actions (ac_callback now ?a e) = ac_actions ?a @ new"
    "new = [] \<or> (\<exists>t. new = [Ac_callback cb t False])"
    using solo_own [OF u assms(2), of now] by blast
  have "answers client (hp_run_agent h (\<lambda>a. ac_callback now a e) p) = answers client p @ replies cb new"
    using assms(1) new(3,4) by (auto simp: hp_run_agent_callbacks agent_callback_def on_agent_response_answers replies_def follows_def)
  moreover have "replies cb (ac_actions (ac_callback 0 u e)) = replies cb (ac_actions u) @ replies cb new"
    by (simp add: new(2) replies_def)
  ultimately show ?thesis using assms(1) new(1) by (simp add: follows_def)
qed

text \<open>A request of another client: an answer to that client, or a request to an agent.\<close>

lemma handle_request_cases:
  obtains (answered) "hp_agents (hp_handle_request now ord now' n dump health time sid rv walk c r p) = hp_agents p"
    "hp_waiting (hp_handle_request now ord now' n dump health time sid rv walk c r p) = hp_waiting p"
    "hp_registry (hp_handle_request now ord now' n dump health time sid rv walk c r p) = hp_registry p"
    "hp_tunnels (hp_handle_request now ord now' n dump health time sid rv walk c r p) = hp_tunnels p"
    "\<forall>client. client \<noteq> c \<longrightarrow>
      answers client (hp_handle_request now ord now' n dump health time sid rv walk c r p) = answers client p"
  | (routed) h tid where "get_agent (match_tunnel now ord (hp_host r) (hp_tunnels p)) (hp_registry p) = Some h"
    "hp_handle_request now ord now' n dump health time sid rv walk c r p
      = hp_run_agent h (send_http_request sid rv (request_id time) (HTTPRequest_to_string walk r) 1800)
          (p\<lparr>hp_waiting := AList.update (h, ac_next_callback (hp_agents p ! h)) (c, tid) (hp_waiting p)\<rparr>)"
proof -
  let ?tid = "match_tunnel now ord (hp_host r) (hp_tunnels p)"
  let ?q = "hp_handle_request now ord now' n dump health time sid rv walk c r p"
  let ?same = "hp_agents ?q = hp_agents p \<and> hp_waiting ?q = hp_waiting p \<and> hp_registry ?q = hp_registry p
    \<and> hp_tunnels ?q = hp_tunnels p \<and> (\<forall>client. client \<noteq> c \<longrightarrow> answers client ?q = answers client p)"
  note facts = Let_def respond_error_def log_request_def
  have "?same \<or> ?q = route_to_agent time sid rv walk c ?tid r p"
    by (cases "hp_path r = ''/health''"; cases "?tid = ''''"; cases "Cache_get now' ?tid (hp_tunnels p)")
      (simp_all add: facts hp_handle_request_def split: if_split)
  moreover have "?same \<or> (\<exists>h. get_agent ?tid (hp_registry p) = Some h \<and> is_connected (hp_agents p) ?tid (hp_registry p))"
    if "?q = route_to_agent time sid rv walk c ?tid r p"
    unfolding that by (cases "is_connected (hp_agents p) ?tid (hp_registry p)"; cases "get_agent ?tid (hp_registry p)")
      (simp_all add: facts route_to_agent_def)
  ultimately consider "?same" | h where "get_agent ?tid (hp_registry p) = Some h"
    "is_connected (hp_agents p) ?tid (hp_registry p)" "?q = route_to_agent time sid rv walk c ?tid r p"
    by blast
  then show thesis
  proof cases
    case 1
    then show thesis by (intro answered) blast+
  next
    case (2 h)
    then show thesis by (intro routed [of h ?tid]) (simp_all add: route_to_agent_def)
  qed
qed

lemma ac_close_session: "ac_session (ac_close a) \<Longrightarrow> ac_session a"
  using ac_close_up [of a] by simp

lemma run_up:
  assumes "ac_session ((hp_agents (hp_run_agent h' f p)) ! h)" "\<And>a. ac_session (f a) \<Longrightarrow> ac_session a"
  shows "ac_session (hp_agents p ! h)"
  using assms by (cases "h' = h"; cases "h < length (hp_agents p)") (auto simp: list_update_beyond)

lemma proxy_up: "ac_session (hp_agents (proxy_do p x) ! h) \<Longrightarrow> ac_session (hp_agents p ! h)"
proof (cases x)
  case (Client_request now ord now' n dump health time sid rv walk c r)
  moreover assume "ac_session (hp_agents (proxy_do p x) ! h)"
  ultimately have up: "ac_session (hp_agents (hp_handle_request now ord now' n dump health time sid rv walk c r p) ! h)"
    by simp
  show ?thesis
  proof (cases rule: handle_request_cases [of now ord now' n dump health time sid rv walk c r p])
    case answered
    then show ?thesis using up by simp
  next
    case (routed h' tid)
    show ?thesis using run_up [OF up [unfolded routed(2)] request_up] by simp
  qed
qed (auto intro: run_up callback_up ac_close_session simp: timeout_up intro: heartbeat_apart(2))

lemma follows_request:
  assumes "follows p0 h i rid cb client u p"
    and "elsewhere p0 h i rid client (Client_request now ord now' n dump health time sid rv walk c r)"
    and "q = hp_handle_request now ord now' n dump health time sid rv walk c r p" "ac_session (hp_agents q ! h)"
  shows "follows p0 h i rid cb client u q"
proof (cases rule: handle_request_cases [of now ord now' n dump health time sid rv walk c r p])
  case answered
  then show ?thesis using assms(1,2) by (simp add: assms(3) follows_def)
next
  case (routed h' tid)
  let ?w = "AList.update (h', ac_next_callback (hp_agents p ! h')) (c, tid) (hp_waiting p)"
  have lt: "h < length (hp_agents p)" and next': "cb < ac_next_callback (hp_agents p ! h)"
    using assms(1) by (simp_all add: follows_def solo_def)
  have "follows p0 h i rid cb client u (p\<lparr>hp_waiting := ?w\<rparr>)"
    using assms(1,2) next' by (auto simp: follows_def map_simps)
  moreover have "h' = h \<longrightarrow> sid \<noteq> i \<and> request_id time \<noteq> rid"
    using assms(1,2) routed(1) by (auto simp: follows_def)
  moreover have "h' = h \<longrightarrow> ac_session (send_http_request sid rv (request_id time) (HTTPRequest_to_string walk r) 1800 (hp_agents p ! h))"
    using assms(4) lt by (auto simp: assms(3) routed(2))
  ultimately show ?thesis
    unfolding assms(3) routed(2) by (intro follows_run) (auto intro: request_apart)
qed

lemma follows_step:
  assumes "follows p0 h i rid cb client u p" "elsewhere p0 h i rid client x" "event_on h i x = None"
    and "ac_session (hp_agents (proxy_do p x) ! h)"
  shows "follows p0 h i rid cb client u (proxy_do p x)"
proof -
  have lt: "h < length (hp_agents p)" using assms(1) by (simp add: follows_def)
  show ?thesis
  proof (cases x)
    case (Agent_event h' now e)
    then show ?thesis using assms(3,4) lt by (auto intro!: follows_run [OF assms(1)] callback_apart split: if_splits)
  next
    case (Client_request now ord now' n dump health time sid rv walk c r)
    then show ?thesis using assms follows_request [OF assms(1)] by simp
  next
    case (Request_timer h' ec rid' sid)
    then show ?thesis using assms(2) by (auto intro!: follows_run [OF assms(1)] timeout_apart)
  next
    case (Heartbeat_timer h' ec now rv)
    then show ?thesis using assms(4) lt by (auto intro!: follows_run [OF assms(1)] heartbeat_apart(1))
  next
    case (Agent_lost h')
    then show ?thesis using assms(4) lt ac_close_up [of "hp_agents p ! h"] by (auto intro!: follows_run [OF assms(1)])
  qed
qed

text \<open>
  While the connection to agent \<open>h\<close> lasts, the client that waits for stream \<open>i\<close> gets from any run the
  answers that the events of the stream alone give.
\<close>

lemma server_stream:
  assumes "follows p h i rid cb client u p" "\<forall>x \<in> set xs. elsewhere p h i rid client x"
    and "ac_session (hp_agents (foldl proxy_do p xs) ! h)"
  shows "follows p h i rid cb client (foldl (ac_callback 0) u (List.map_filter (event_on h i) xs)) (foldl proxy_do p xs)"
proof (rule foldl_projected [where R = "follows p h i rid cb client" and up = "\<lambda>p. ac_session (hp_agents p ! h)"])
  show "follows p h i rid cb client (ac_callback 0 q e) (proxy_do s x)"
    if "follows p h i rid cb client q s" "event_on h i x = Some e" for q s x e
    using that by (cases x) (auto intro: follows_own split: if_splits)
qed (use assms follows_step proxy_up in blast)+

lemma run_all_up: "ac_session (hp_agents (foldl proxy_do p xs) ! h) \<Longrightarrow> ac_session (hp_agents p ! h)"
  by (induction xs arbitrary: p) (auto dest: proxy_up)

text \<open>
  What is new about a request to agent \<open>h\<close>: no request of its id is pending or has a stream, nothing
  has come on its stream, and its client waits for nothing else.
\<close>

definition new_request :: "nat \<Rightarrow> int \<Rightarrow> string \<Rightarrow> nat \<Rightarrow> HTTPProxy \<Rightarrow> bool" where
  "new_request h i rid client p \<longleftrightarrow> (let a = hp_agents p ! h in 0 \<le> i \<and> rid \<notin> keys_of (ac_pending_requests a)
     \<and> rid \<notin> snd ` set (ac_stream_to_request a) \<and> i \<notin> keys_of (ac_stream_headers a) \<and> i \<notin> keys_of (ac_stream_bodies_recv a)
     \<and> client \<notin> fst ` snd ` set (hp_waiting p))"

lemma new_requestD:
  assumes "new_request h i rid client p" "a = hp_agents p ! h"
  shows "0 \<le> i" "map_of (ac_pending_requests a) rid = None" "\<forall>j. map_of (ac_stream_to_request a) j \<noteq> Some rid"
    "map_of (ac_stream_headers a) i = None" "map_of (ac_stream_bodies_recv a) i = None"
    "\<forall>k tid. map_of (hp_waiting p) k \<noteq> Some (client, tid)"
proof -
  have n: "0 \<le> i" "rid \<notin> keys_of (ac_pending_requests a)" "rid \<notin> snd ` set (ac_stream_to_request a)"
    "i \<notin> keys_of (ac_stream_headers a)" "i \<notin> keys_of (ac_stream_bodies_recv a)" "client \<notin> fst ` snd ` set (hp_waiting p)"
    using assms(1) unfolding new_request_def Let_def assms(2) [symmetric] by blast+
  show "0 \<le> i" "map_of (ac_pending_requests a) rid = None" "map_of (ac_stream_headers a) i = None"
    "map_of (ac_stream_bodies_recv a) i = None"
    using n(1,2,4,5) by (simp_all only: map_of_eq_None_iff not_False_eq_True)
  show "\<forall>j. map_of (ac_stream_to_request a) j \<noteq> Some rid" using n(3) by (metis image_eqI map_of_SomeD snd_conv)
  show "\<forall>k tid. map_of (hp_waiting p) k \<noteq> Some (client, tid)"
    using n(6) by (metis fst_conv image_eqI map_of_SomeD snd_conv)
qed

text \<open>A request that has just been sent.\<close>

lemma route_follows:
  assumes "get_agent tid (hp_registry p) = Some h" "h < length (hp_agents p)" "a = hp_agents p ! h" "ac_reach f a"
    and "q = route_to_agent time i rv walk client tid r p" "ac_state a = CONNECTED" "ac_session (hp_agents q ! h)"
    and "new_request h i (request_id time) client p" "b = hp_agents q ! h"
  shows "follows q h i (request_id time) (ac_next_callback a) client (b\<lparr>ac_actions := []\<rparr>) q \<and> answers client q = answers client p
    \<and> map_of (ac_stream_to_request b) i = Some (request_id time) \<and> map_of (ac_pending_requests b) (request_id time) = Some (ac_next_callback a)
    \<and> map_of (ac_stream_headers b) i = None \<and> map_of (ac_stream_bodies_recv b) i = None"
proof -
  let ?rid = "request_id time" and ?cb = "ac_next_callback a"
  let ?f = "send_http_request i rv (request_id time) (HTTPRequest_to_string walk r) 1800"
  let ?p = "p\<lparr>hp_waiting := AList.update (h, ?cb) (client, tid) (hp_waiting p)\<rparr>"
  have q: "q = hp_run_agent h ?f ?p"
    unfolding assms(5) route_to_agent_def using assms(1,3,6) by (simp add: is_connected_def)
  note new = new_requestD [OF assms(8,3)]
  have b: "b = ?f a" using assms(2,3,9) by (simp add: q)
  then have up: "ac_session (?f a)" using assms(7,9) by simp
  obtain xs sb where f: "new_calls xs = []" "?f a = ac_act (Ac_arm_timeout ?rid i 1800) (send_pending_data rv
      (a\<lparr>ac_next_callback := ?cb + 1, ac_stream_bodies := sb, ac_actions := ac_actions a @ xs,
         ac_pending_requests := AList.update ?rid ?cb (ac_pending_requests a),
         ac_stream_to_request := AList.update i ?rid (ac_stream_to_request a)\<rparr>))"
    using send_request_sent [OF assms(6) request_up [OF up] new(1)] by blast
  note fa = f(2) [unfolded send_pending_up [OF up [unfolded f(2) ac_act_simps]]]
  have "ac_inv f a" using assms(4) by (rule ac_reach_inv)
  then have "accounted a \<subseteq># mset [0..<?cb]" by (simp only: ac_inv_def)
  from set_mset_mono [OF this] have "set (map snd (ac_pending_requests a)) \<subseteq> {0..<?cb}"
    by (simp add: accounted_def)
  then have fresh: "\<forall>k. map_of (ac_pending_requests a) k \<noteq> Some ?cb" by (force dest!: map_of_SomeD)
  have maps: "map_of (ac_stream_to_request b) i = Some ?rid" "map_of (ac_pending_requests b) ?rid = Some ?cb"
    "map_of (ac_stream_headers b) i = None" "map_of (ac_stream_bodies_recv b) i = None"
    using new(4,5) by (simp_all add: b fa map_simps ac_act_def)
  have "solo i ?rid ?cb (b\<lparr>ac_actions := []\<rparr>) b"
    using maps fresh new(3) by (auto simp: solo_def b fa map_simps ac_act_def)
  moreover have "answers client q = answers client p"
    unfolding q hp_run_agent_callbacks using f(1)
    by (subst callbacks_other) (simp_all add: fa assms(3) [symmetric] ac_act_def)
  ultimately show ?thesis
    using maps assms(2,9) new(6) by (auto simp: follows_def q map_simps replies_def)
qed

end
