(* ===== verification/Http_Tunnel.thy ===== *)
theory Http_Tunnel
  imports Http_Streams
begin

text \<open>
  A request from the HTTP proxy of the server through the tunnel to the local service of the agent,
  and the response on its way back. Between the two ends is nghttp2: what it calls back at one end
  for what was submitted at the other is the predicate \<open>carries\<close>, its documented behaviour on one
  stream.
\<close>

section \<open>The stream\<close>

text \<open>
  \<open>pairs\<close> are the submitted headers, whose names the library writes in lower case; \<open>payload\<close> is what
  the data provider gave; \<open>ends\<close> says that the headers end the stream.
\<close>

definition wire_headers :: "int \<Rightarrow> (string \<times> string) list \<Rightarrow> h2_event list" where
  "wire_headers i pairs = map (\<lambda>(n, v). H2_header i (to_lower n) v) pairs"

definition carries :: "int \<Rightarrow> (string \<times> string) list \<Rightarrow> bytes \<Rightarrow> bool \<Rightarrow> h2_event list \<Rightarrow> bool" where
  "carries i pairs payload ends es \<longleftrightarrow> (\<exists>fh fl ds r r'. concat ds = payload \<and> has_flag fh FLAG_END_HEADERS
     \<and> (has_flag fh FLAG_END_STREAM \<longleftrightarrow> ends)
     \<and> es = wire_headers i pairs @ H2_frame H2_HEADERS fh i r
         # (if ends then [] else map (H2_data_chunk fl i) ds @ [H2_frame H2_DATA FLAG_END_STREAM i r']))"

lemma end_stream_flag [simp]: "has_flag FLAG_END_STREAM FLAG_END_STREAM"
  by (simp add: has_flag_def FLAG_END_STREAM_def)

section \<open>The agent reads the headers\<close>

lemma hs_wire_headers:
  assumes "\<forall>(n, v) \<in> set pairs. to_lower n = n" "pairs \<noteq> []"
  shows "only_request i s (foldl hs_callback s (wire_headers i pairs))
    \<and> map_of (hs_pending_requests (foldl hs_callback s (wire_headers i pairs))) i
        = Some (foldl request_header ((hs_request i s)\<lparr>rq_stream_id := i\<rparr>) pairs)"
  using assms
proof (induction pairs arbitrary: s)
  case (Cons p ps)
  obtain n v where p: "p = (n, v)" by (cases p)
  let ?s = "hs_on_header i n v s"
  have n: "to_lower n = n" using Cons.prems(1) by (simp add: p)
  have q: "hs_request i ?s = request_header ((hs_request i s)\<lparr>rq_stream_id := i\<rparr>) (n, v)"
    "map_of (hs_pending_requests ?s) i = Some (request_header ((hs_request i s)\<lparr>rq_stream_id := i\<rparr>) (n, v))"
    by (simp_all only: hs_on_header_request hs_request_update) (simp add: map_simps)
  have st: "(hs_request i ?s)\<lparr>rq_stream_id := i\<rparr> = hs_request i ?s"
    by (simp only: q) (simp add: request_header_stream del: request_header.simps)
  show ?case
  proof (cases "ps = []")
    case True
    then show ?thesis using q(2) n hs_header_only [of i s n v] by (simp add: p wire_headers_def del: request_header.simps)
  next
    case False
    have "foldl request_header (hs_request i ?s) ps = foldl request_header ((hs_request i s)\<lparr>rq_stream_id := i\<rparr>) (p # ps)"
      by (simp add: q(1) p del: request_header.simps)
    then show ?thesis
      using Cons.IH [of ?s] Cons.prems(1) False st only_request_trans [OF hs_header_only [of i s n v]]
      by (simp add: p wire_headers_def n del: request_header.simps)
  qed
qed simp

text \<open>Header names that nothing on the way treats specially.\<close>

definition plain_name :: "string \<Rightarrow> bool" where
  "plain_name n \<longleftrightarrow> n \<noteq> '''' \<and> hd n \<noteq> CHR '':'' \<and> n \<noteq> ''x-tunnel-request-id'' \<and> n \<noteq> ''x-client-ip''"

lemma plain_name_special:
  assumes "plain_name n"
  shows "(n = '':method'') = False" "(n = '':path'') = False" "(n = '':authority'') = False"
    "(n = ''x-tunnel-request-id'') = False" "(n = ''x-client-ip'') = False"
proof -
  have "n \<noteq> CHR '':'' # t" for t using assms unfolding plain_name_def by (metis list.sel(1))
  then show "(n = '':method'') = False" "(n = '':path'') = False" "(n = '':authority'') = False" by blast+
  show "(n = ''x-tunnel-request-id'') = False" "(n = ''x-client-ip'') = False"
    using assms unfolding plain_name_def by blast+
qed

lemma request_headers_plain:
  assumes "\<forall>(n, v) \<in> set hs. plain_name n"
  shows "foldl request_header req hs
    = req\<lparr>rq_headers := foldl (\<lambda>m (n, v). AList.update n v m) (rq_headers req) hs\<rparr>"
  using assms
proof (induction hs arbitrary: req)
  case (Cons h hs)
  obtain n v where h: "h = (n, v)" by (cases h)
  have p: "plain_name n" "\<forall>(n, v) \<in> set hs. plain_name n" using Cons.prems by (simp_all add: h)
  have "request_header req (n, v) = req\<lparr>rq_headers := AList.update n v (rq_headers req)\<rparr>"
    unfolding request_header.simps by (simp only: plain_name_special [OF p(1)] if_False)
  then show ?case using Cons.IH [OF p(2)] by (simp add: h del: request_header.simps)
qed simp

lemma update_fresh: "k \<notin> fst ` set m \<Longrightarrow> AList.update k v m = m @ [(k, v)]"
  by (induction m) auto

lemma update_all_fresh:
  assumes "distinct (map fst (m @ hs))"
  shows "foldl (\<lambda>m (n, v). AList.update n v m) m hs = m @ hs"
  using assms
proof (induction hs arbitrary: m)
  case (Cons h hs)
  have "AList.update (fst h) (snd h) m = m @ [h]"
    using Cons.prems by (simp add: update_fresh)
  then show ?case using Cons.IH [of "m @ [h]"] Cons.prems by (simp add: case_prod_beta)
qed simp

definition forwarded_headers :: "(string, string) umap \<Rightarrow> (string \<times> string) list" where
  "forwarded_headers hs = [h \<leftarrow> sort_key fst hs. fst h \<noteq> ''host'']"

text \<open>The request as the agent hands it to its callback.\<close>

definition tunnel_request :: "int \<Rightarrow> string \<Rightarrow> string \<Rightarrow> string \<Rightarrow> (string, string) umap \<Rightarrow> bytes \<Rightarrow> HTTP2Request" where
  "tunnel_request i rid m path hs body = \<lparr>rq_stream_id = i, rq_method = m, rq_path = path,
     rq_authority = (case map_of hs ''host'' of None \<Rightarrow> '''' | Some h \<Rightarrow> h),
     rq_headers = ('':scheme'', ''https'') # forwarded_headers hs, rq_body = body, rq_request_id = rid, rq_client_ip = ''''\<rparr>"

lemma lower_names: "to_lower '':method'' = '':method''" "to_lower '':path'' = '':path''" "to_lower '':scheme'' = '':scheme''"
  "to_lower '':authority'' = '':authority''" "to_lower ''x-tunnel-request-id'' = ''x-tunnel-request-id''"
  "to_lower '':status'' = '':status''" "to_lower ''Host'' = ''host''" "to_lower ''User-Agent'' = ''user-agent''"
  by code_simp+

lemma forwarded_headers_facts:
  assumes "umap_wf hs" "\<forall>(n, v) \<in> set hs. plain_name n \<and> to_lower n = n"
  shows "distinct (map fst (forwarded_headers hs))" "\<forall>(n, v) \<in> set (forwarded_headers hs). plain_name n \<and> to_lower n = n"
    "'':scheme'' \<notin> fst ` set (forwarded_headers hs)"
proof -
  show d: "distinct (map fst (forwarded_headers hs))"
    using assms(1) unfolding forwarded_headers_def umap_wf_def by (intro distinct_map_filter) (simp add: distinct_map)
  show p: "\<forall>(n, v) \<in> set (forwarded_headers hs). plain_name n \<and> to_lower n = n"
    using assms(2) by (auto simp: forwarded_headers_def)
  have "\<not> plain_name '':scheme''" by (simp add: plain_name_def)
  then show "'':scheme'' \<notin> fst ` set (forwarded_headers hs)" using p by fastforce
qed

lemma header_pairs_request:
  assumes "umap_wf hs" "\<forall>(n, v) \<in> set hs. plain_name n \<and> to_lower n = n"
  shows "foldl request_header (HTTP2Request_new\<lparr>rq_stream_id := i\<rparr>) (header_pairs rid m path hs) = tunnel_request i rid m path hs []"
    and "\<forall>(n, v) \<in> set (header_pairs rid m path hs). to_lower n = n" "header_pairs rid m path hs \<noteq> []"
proof -
  note f = forwarded_headers_facts [OF assms]
  define ps where "ps = [('':method'', m), ('':path'', path), ('':scheme'', ''https'')]
      @ (case map_of hs ''host'' of None \<Rightarrow> [] | Some h \<Rightarrow> [('':authority'', h)]) @ [(''x-tunnel-request-id'', rid)]"
  have hp: "header_pairs rid m path hs = ps @ forwarded_headers hs"
    by (simp add: header_pairs_def ps_def forwarded_headers_def)
  have pl: "\<forall>(n, v) \<in> set (forwarded_headers hs). plain_name n" using f(2) by auto
  have "foldl request_header (HTTP2Request_new\<lparr>rq_stream_id := i\<rparr>) ps
      = (tunnel_request i rid m path hs [])\<lparr>rq_headers := [('':scheme'', ''https'')]\<rparr>"
    by (simp add: ps_def tunnel_request_def HTTP2Request_new_def split: option.split)
  then show "foldl request_header (HTTP2Request_new\<lparr>rq_stream_id := i\<rparr>) (header_pairs rid m path hs) = tunnel_request i rid m path hs []"
    using update_all_fresh [of "[('':scheme'', ''https'')]" "forwarded_headers hs"] f(1,3)
    by (simp add: hp request_headers_plain [OF pl]) (simp add: tunnel_request_def)
  show "\<forall>(n, v) \<in> set (header_pairs rid m path hs). to_lower n = n"
    using f(2) by (auto simp: hp ps_def lower_names split: option.splits)
  show "header_pairs rid m path hs \<noteq> []" by (simp add: hp ps_def)
qed

lemma agent_assembles:
  assumes "umap_wf hs" "\<forall>(n, v) \<in> set hs. plain_name n \<and> to_lower n = n"
    and "map_of (hs_pending_requests s) i = None" "hs_on_request s" "i \<noteq> 1 \<or> payload = []"
    and "carries i (header_pairs rid m path hs) payload ends es" "ends \<longrightarrow> payload = []"
  shows "hs_actions (foldl hs_callback s es) = hs_actions s @ [Hs_on_request (tunnel_request i rid m path hs payload)]
    \<and> map_of (hs_pending_requests (foldl hs_callback s es)) i = None"
proof -
  let ?P = "header_pairs rid m path hs" and ?q = "tunnel_request i rid m path hs"
  obtain fh fl ds r r' where es: "concat ds = payload" "has_flag fh FLAG_END_HEADERS" "has_flag fh FLAG_END_STREAM \<longleftrightarrow> ends"
    "es = wire_headers i ?P @ H2_frame H2_HEADERS fh i r # (if ends then [] else map (H2_data_chunk fl i) ds
       @ [H2_frame H2_DATA FLAG_END_STREAM i r'])"
    using assms(6) unfolding carries_def by blast
  define s1 where "s1 = foldl hs_callback s (wire_headers i ?P)"
  note hp = header_pairs_request [OF assms(1,2), where rid = rid and m = m and path = path]
  have "hs_request i s = HTTP2Request_new" using assms(3) by (simp add: hs_request_def)
  then have s1: "only_request i s s1" "map_of (hs_pending_requests s1) i = Some (?q [])"
    using hs_wire_headers [OF hp(2,3), of i s] hp(1) [of i] by (simp_all add: s1_def)
  have fin: "hs_actions (hs_complete i t) = hs_actions s @ [Hs_on_request (?q payload)]
      \<and> map_of (hs_pending_requests (hs_complete i t)) i = None"
    if "only_request i s t" "map_of (hs_pending_requests t) i = Some (?q payload)" for t
    using that assms(4) by (simp add: hs_complete_def hs_act_def only_request_def map_simps)
  show ?thesis
  proof (cases ends)
    case True
    then have "foldl hs_callback s es = hs_complete i s1"
      using es by (simp add: s1_def hs_on_frame_recv_def)
    then show ?thesis using fin [OF s1(1)] s1(2) assms(7) True by simp
  next
    case False
    define t where "t = foldl hs_callback s1 (map (H2_data_chunk fl i) ds)"
    have "foldl hs_callback s es = hs_complete i t"
      using es False by (simp add: s1_def t_def hs_on_frame_recv_def)
    moreover have "only_request i s t \<and> map_of (hs_pending_requests t) i = Some (?q payload)"
    proof (cases "i = 1")
      case True
      then have "t = s1" using hs_chunks_stream_1 by (simp add: t_def)
      then show ?thesis using s1 assms(5) True by simp
    next
      case False
      note c = hs_chunks [OF this, of s1 fl ds]
      have "hs_request i s1 = ?q []" using s1(2) by (simp add: hs_request_def)
      then show ?thesis
        using c s1 only_request_trans [OF s1(1), of t] es(1) by (simp add: t_def [symmetric] tunnel_request_def)
    qed
    ultimately show ?thesis using fin by simp
  qed
qed

section \<open>The agent asks the local service\<close>

lemma set_field_all:
  assumes "distinct (map fst hs)" "\<forall>(k, v) \<in> set hs. to_lower k = k"
  shows "foldl (\<lambda>fs (k, v). if k \<noteq> [] \<and> hd k \<noteq> CHR '':'' then set_field k v fs else fs) fs hs
    = filter (\<lambda>(n, v). to_lower n \<notin> fst ` set (filter (\<lambda>(k, v). k \<noteq> [] \<and> hd k \<noteq> CHR '':'') hs)) fs
      @ filter (\<lambda>(k, v). k \<noteq> [] \<and> hd k \<noteq> CHR '':'') hs"
  using assms
proof (induction hs arbitrary: fs)
  case (Cons h hs)
  obtain k v where h: "h = (k, v)" by (cases h)
  let ?R = "\<lambda>(k, v). k \<noteq> [] \<and> hd k \<noteq> CHR '':''"
  have IH: "foldl (\<lambda>fs (k, v). if k \<noteq> [] \<and> hd k \<noteq> CHR '':'' then set_field k v fs else fs) gs hs
      = filter (\<lambda>(n, v). to_lower n \<notin> fst ` set (filter ?R hs)) gs @ filter ?R hs" for gs
    using Cons by simp
  show ?case
  proof (cases "?R (k, v)")
    case True
    have "to_lower k = k" "k \<notin> fst ` set (filter ?R hs)" using Cons.prems by (auto simp: h image_iff)
    then show ?thesis using True IH [of "set_field k v fs"]
      by (simp add: h set_field_def) (auto intro!: filter_cong)
  next
    case False
    then show ?thesis using IH [of fs] by (simp add: h) auto
  qed
qed simp

lemma distinct_map_sort_key: "distinct (map f (sort_key g xs)) \<longleftrightarrow> distinct (map f xs)"
proof -
  have "mset (map f (sort_key g xs)) = mset (map f xs)" by simp
  then show ?thesis by (rule mset_eq_imp_distinct_iff)
qed

lemma take_min: "take (min n (length xs)) xs = take n xs"
  by (simp add: min_def)

definition octets :: "string \<Rightarrow> bytes" where
  "octets s = map (\<lambda>c. word_of_nat (of_char c)) s"

text \<open>What one end has asked the library to send on a stream: the first headers, and the data.\<close>

definition submitted_headers :: "ac_action list \<Rightarrow> (string \<times> string) list" where
  "submitted_headers as = hd (concat (map (\<lambda>a. case a of Ac_submit_headers ps _ \<Rightarrow> [ps] | _ \<Rightarrow> []) as) @ [[]])"

definition submitted_body :: "int \<Rightarrow> ac_action list \<Rightarrow> string" where
  "submitted_body i as = concat (map (\<lambda>a. case a of Ac_submit_data j b \<Rightarrow> if j = i then b else '''' | _ \<Rightarrow> '''') as)"

lemma send_http_request_submits:
  assumes "ac_state s = CONNECTED" "ac_session s" "0 \<le> i" "parse_request_text text = (m, path, hs, body)"
    and "new = drop (length (ac_actions s)) (ac_actions (send_http_request i 0 rid text timeout s))"
  shows "submitted_headers new = header_pairs rid m path hs" "submitted_body i new = body"
  using assms by (simp_all add: send_http_request_def send_pending_data_def ac_act_def Let_def submitted_headers_def
      submitted_body_def)

text \<open>The text that the server hands to \<open>send_http_request\<close> is read back as the request it was written from.\<close>

lemma request_text_read:
  assumes "parse_request buf = Some r" "mset walk = mset (hp_headers r)"
  shows "\<exists>hs. parse_request_text (HTTPRequest_to_string walk r) = (hp_method r, hp_path r, hs, hp_body r)
    \<and> umap_wf hs \<and> map_of hs = map_of (hp_headers r) \<and> set hs = set (hp_headers r)
    \<and> forwarded_headers hs = forwarded_headers (hp_headers r)"
proof -
  note r = parse_request_parts [OF assms(1)]
  have "set walk = set (hp_headers r)" using assms(2) by (metis set_mset_mset)
  then have "\<forall>h \<in> set walk. header_ok h \<and> to_lower (fst h) = fst h" using r by simp
  then have pt: "parse_request_text (HTTPRequest_to_string walk r)
      = (hp_method r, hp_path r, foldl (\<lambda>m h. AList.update (fst h) (snd h) m) [] walk, hp_body r)"
    unfolding HTTPRequest_to_string_def using r by (intro parse_request_text_written) simp_all
  define hs where "hs = foldl (\<lambda>m h. AList.update (fst h) (snd h) m) [] walk"
  have "map_of hs = map_of (hp_headers r)" "sort_key fst hs = sort_key fst (hp_headers r)"
    using same_headers [OF assms(2) _ hs_def] r by blast+
  moreover from this(2) have "set hs = set (hp_headers r)" by (metis set_sort)
  moreover have "umap_wf hs" unfolding hs_def by (rule fold_update_wf) simp
  ultimately show ?thesis using pt by (simp add: hs_def [symmetric] forwarded_headers_def)
qed

text \<open>What the forwarder asks of the local service for a request that came through the tunnel.\<close>

lemma local_request_tunnel:
  assumes "umap_wf hs" "\<forall>(n, v) \<in> set hs. plain_name n \<and> to_lower n = n"
  shows "local_request f (tunnel_request i rid m path hs body) = \<lparr>lr_method = m, lr_target = path,
      lr_fields = (''Host'', local_host (rf_local f) @ '':'' @ local_port (rf_local f))
        # (if ''user-agent'' \<in> keys_of hs then [] else [(''User-Agent'', ''Protogate-Agent/1.0'')])
        @ forwarded_headers hs, lr_body = body, lr_prepared = (body \<noteq> [])\<rparr>"
proof -
  note ff = forwarded_headers_facts [OF assms]
  let ?H = "('':scheme'', ''https'') # forwarded_headers hs"
  let ?R = "\<lambda>(k, v). k \<noteq> [] \<and> hd k \<noteq> CHR '':''"
  have keys: "fst ` set (forwarded_headers hs) = keys_of hs - {''host''}" by (auto simp: forwarded_headers_def)
  have "\<forall>h \<in> set (forwarded_headers hs). ?R h" using ff(2) by (auto simp: plain_name_def)
  then have "filter ?R ?H = forwarded_headers hs" by (simp add: filter_id_conv)
  moreover have "sort_key fst (forwarded_headers hs) = forwarded_headers hs"
    unfolding forwarded_headers_def by (intro sort_key_id_if_sorted sorted_filter) simp
  ultimately have reg: "filter ?R (sort_key fst ?H) = forwarded_headers hs" by (simp only: filter_sort)
  have "\<forall>(k, v) \<in> set ?H. to_lower k = k" using ff(2) by (auto simp: lower_names)
  then have low: "\<forall>(k, v) \<in> set (sort_key fst ?H). to_lower k = k" by (simp only: set_sort)
  have ds: "distinct (map fst (sort_key fst ?H))" using ff(1,3) by (simp add: distinct_map_sort_key del: sort_key_simps)
  show ?thesis unfolding local_request_def tunnel_request_def Let_def
    using set_field_all [OF ds low, unfolded reg keys] by (simp add: set_field_def lower_names)
qed


section \<open>The answer on its way back\<close>

definition submitted_response :: "int \<Rightarrow> hs_action list \<Rightarrow> (string \<times> string) list" where
  "submitted_response i as = hd (concat (map (\<lambda>a. case a of Hs_submit_response j ps \<Rightarrow> if j = i then [ps] else [] | _ \<Rightarrow> []) as) @ [[]])"

definition response_lines :: "(string \<times> string) list \<Rightarrow> string" where
  "response_lines hs = concat (map (\<lambda>(k, v). to_lower k @ '': '' @ v @ CRLF) hs)"

text \<open>What the events of one stream do to a connection: only the texts of the stream change.\<close>

definition collects :: "int \<Rightarrow> string \<Rightarrow> string \<Rightarrow> AgentConnection \<Rightarrow> AgentConnection \<Rightarrow> bool" where
  "collects i h b s t \<longleftrightarrow> stream_text i (ac_stream_headers t) = h \<and> stream_text i (ac_stream_bodies_recv t) = b
     \<and> ac_session t = ac_session s \<and> ac_actions t = ac_actions s \<and> ac_stream_to_request t = ac_stream_to_request s
     \<and> ac_pending_requests t = ac_pending_requests s"

lemma stream_text_update [simp]: "stream_text i (AList.update i v m) = v"
  by (simp add: stream_text_def map_simps)

lemma collects_header:
  assumes "collects i h b s t" "n \<noteq> ''''" "hd n \<noteq> CHR '':''"
  shows "collects i (h @ n @ '': '' @ v @ CRLF) b s (ac_on_header i n v t)"
proof -
  have "n \<noteq> '':status''" using assms(3) by (metis list.sel(1))
  then show ?thesis using assms by (simp add: collects_def ac_on_header_def)
qed

lemma collects_chunk: "collects i h b s t \<Longrightarrow> collects i h (b @ chars d) s (ac_on_data_chunk i d t)"
  by (simp add: collects_def ac_on_data_chunk_def)

lemma ac_callbacks_append:
  "ac_callbacks now (xs @ ys) s = bind_result (ac_callbacks now xs s) (\<lambda>t. ac_callbacks now ys t)"
  by (induction xs arbitrary: s) (simp_all add: Let_def)

lemma ac_wire_headers:
  assumes "collects i h b s t" "\<forall>(n, v) \<in> set hs. n \<noteq> '''' \<and> hd (to_lower n) \<noteq> CHR '':''"
  shows "\<exists>u. ac_callbacks now (wire_headers i hs) t = Inr u \<and> collects i (h @ response_lines hs) b s u"
  using assms
proof (induction hs arbitrary: h t)
  case Nil
  then show ?case by (simp add: wire_headers_def response_lines_def)
next
  case (Cons x hs)
  obtain n v where x: "x = (n, v)" by (cases x)
  let ?t = "ac_on_header i (to_lower n) v t"
  have "to_lower n \<noteq> ''''" using Cons.prems(2) by (simp add: x to_lower_def)
  then have c: "collects i (h @ to_lower n @ '': '' @ v @ CRLF) b s ?t"
    using collects_header [OF Cons.prems(1)] Cons.prems(2) by (simp add: x)
  then have "ac_session t \<longrightarrow> ac_session ?t" using Cons.prems(1) by (simp add: collects_def)
  then show ?case
    using Cons.IH [OF c] Cons.prems(2) by (simp add: x wire_headers_def response_lines_def Let_def)
qed

lemma ac_chunks:
  assumes "collects i h b s t"
  shows "\<exists>u. ac_callbacks now (map (H2_data_chunk fl i) ds) t = Inr u \<and> collects i h (b @ chars (concat ds)) s u"
  using assms
proof (induction ds arbitrary: b t)
  case Nil
  then show ?case by (simp add: chars_def)
next
  case (Cons d ds)
  note c = collects_chunk [OF Cons.prems, of d]
  have "ac_session t \<longrightarrow> ac_session (ac_on_data_chunk i d t)" using Cons.prems c by (simp add: collects_def)
  then show ?case using Cons.IH [OF c] by (simp add: Let_def chars_def)
qed

lemma ac_status:
  assumes "map_of (ac_stream_headers s) i = None" "map_of (ac_stream_bodies_recv s) i = None"
  shows "collects i (''HTTP/1.1 '' @ code @ '' OK'' @ CRLF) '''' s (ac_on_header i '':status'' code s)"
  using assms by (simp add: collects_def ac_on_header_def stream_text_def map_simps)

text \<open>A whole response, status, headers and body, completes the request that waits on its stream.\<close>

lemma response_completes:
  assumes "map_of (ac_stream_headers s) i = None" "map_of (ac_stream_bodies_recv s) i = None"
    and "map_of (ac_stream_to_request s) i = Some rid" "map_of (ac_pending_requests s) rid = Some cb"
    and "\<forall>(n, v) \<in> set hs. n \<noteq> '''' \<and> hd (to_lower n) \<noteq> CHR '':''"
    and "carries i (('':status'', code) # hs) payload False es"
  shows "\<exists>t. ac_callbacks now es s = Inr t \<and> ac_actions t = ac_actions s
    @ [Ac_callback cb (''HTTP/1.1 '' @ code @ '' OK'' @ CRLF @ response_lines hs @ CRLF @ chars payload) False]"
proof -
  obtain fh fl ds r r' where es: "concat ds = payload" "\<not> has_flag fh FLAG_END_STREAM"
    "es = wire_headers i (('':status'', code) # hs) @ H2_frame H2_HEADERS fh i r # map (H2_data_chunk fl i) ds
       @ [H2_frame H2_DATA FLAG_END_STREAM i r']"
    using assms(6) unfolding carries_def if_False simp_thms by blast
  let ?s1 = "ac_on_header i '':status'' code s" and ?st = "''HTTP/1.1 '' @ code @ '' OK'' @ CRLF"
  note st = ac_status [OF assms(1,2), of code]
  obtain u where u: "ac_callbacks now (wire_headers i hs) ?s1 = Inr u" "collects i (?st @ response_lines hs) '''' s u"
    using ac_wire_headers [OF st assms(5)] by blast
  obtain v where v: "ac_callbacks now (map (H2_data_chunk fl i) ds) u = Inr v"
    "collects i (?st @ response_lines hs) (chars payload) s v"
    using ac_chunks [OF u(2), of now fl ds] unfolding es(1) append_Nil by blast
  have w: "wire_headers i (('':status'', code) # hs) = H2_header i '':status'' code # wire_headers i hs"
    by (simp add: wire_headers_def lower_names)
  have "ac_session s \<longrightarrow> ac_session ?s1" using st by (simp add: collects_def)
  moreover have "ac_on_frame_recv now H2_HEADERS fh i r u = u" using es(2) by (simp add: ac_on_frame_recv_def)
  moreover have "ac_on_frame_recv now H2_DATA FLAG_END_STREAM i r' v = complete_request i v"
    by (simp add: ac_on_frame_recv_def)
  moreover have "ac_session (complete_request i v) = ac_session v" "ac_actions (complete_request i v) = ac_actions s
      @ [Ac_callback cb (''HTTP/1.1 '' @ code @ '' OK'' @ CRLF @ response_lines hs @ CRLF @ chars payload) False]"
    using v(2) assms(3,4) by (simp_all add: collects_def complete_request_def ac_act_def response_text_def Let_def)
  ultimately show ?thesis by (simp add: es(3) w ac_callbacks_append u(1) v(1) Let_def)
qed

lemma send_response_submits:
  assumes "new = drop (length (hs_actions u)) (hs_actions (send_response 0 rv i code headers body u))"
  shows "submitted_response i new = ('':status'', int_string code) # headers"
    and "map_of (hs_response_bodies (send_response 0 rv i code headers body u)) i = Some body"
  using assms by (simp_all add: send_response_def hs_send_data_def hs_act_def submitted_response_def map_simps Let_def)

lemma ac_callbacks_foldl: "ac_callbacks now es s = Inr t \<Longrightarrow> t = foldl (ac_callback now) s es"
  by (induction es arbitrary: s) (simp_all add: Let_def split: if_splits)

lemma follows_answers:
  assumes "follows p h i rid cb client u q"
  shows "answers client q = answers client p @ replies cb (ac_actions u)"
  using assms by (simp add: follows_def)


lemma lower_content_type: "to_lower ''content-type'' = ''content-type''"
  by code_simp

section \<open>Witnesses\<close>

lemma carries_something: "(ends \<longrightarrow> payload = []) \<Longrightarrow> \<exists>es. carries i pairs payload ends es"
proof -
  assume p: "ends \<longrightarrow> payload = []"
  have f: "has_flag FLAG_END_HEADERS FLAG_END_HEADERS" "has_flag (FLAG_END_HEADERS OR FLAG_END_STREAM) FLAG_END_HEADERS"
    "has_flag (FLAG_END_HEADERS OR FLAG_END_STREAM) FLAG_END_STREAM" "\<not> has_flag FLAG_END_HEADERS FLAG_END_STREAM"
    by (simp_all add: has_flag_def h2_flag_defs)
  show ?thesis
  proof (cases ends)
    case True
    then show ?thesis using p f unfolding carries_def
      by (intro exI [of _ "wire_headers i pairs @ [H2_frame H2_HEADERS (FLAG_END_HEADERS OR FLAG_END_STREAM) i True]"]
          exI [of _ "FLAG_END_HEADERS OR FLAG_END_STREAM"] exI [of _ "0 :: u8"] exI [of _ "[] :: bytes list"] exI [of _ True]) simp
  next
    case False
    then show ?thesis using f unfolding carries_def
      by (intro exI [of _ "wire_headers i pairs @ H2_frame H2_HEADERS FLAG_END_HEADERS i True
            # map (H2_data_chunk 0 i) [payload] @ [H2_frame H2_DATA FLAG_END_STREAM i True]"]
          exI [of _ FLAG_END_HEADERS] exI [of _ "0 :: u8"] exI [of _ "[payload]"] exI [of _ True]) simp
  qed
qed

lemma carries_on_stream: "carries i pairs payload ends es \<Longrightarrow> \<forall>e \<in> set es. on_stream i e"
  unfolding carries_def wire_headers_def by (elim exE conjE) (auto split: if_splits)

lemma filter_own:
  assumes "\<forall>e \<in> set es. on_stream i e"
  shows "List.map_filter (recv_on i) (map Recv es) = es" "List.map_filter (event_on h i) (map (Agent_event h now) es) = es"
  using assms by (induction es) (simp_all add: map_filter_simps)


lemma own_session: "on_stream i e \<Longrightarrow> ac_session (ac_callback now a e) = ac_session a"
  by (cases e) (auto simp: ac_on_header_def ac_on_data_chunk_def ac_on_frame_recv_def)

lemma events_session:
  assumes "\<forall>e \<in> set es. on_stream i e" "h < length (hp_agents p)"
  shows "ac_session (hp_agents (foldl proxy_do p (map (Agent_event h now) es)) ! h) = ac_session (hp_agents p ! h)"
  using assms by (induction es arbitrary: p) (simp_all add: own_session [of i])

lemma sent_session:
  assumes "ac_state a = CONNECTED" "ac_session a" "0 \<le> sid"
  shows "ac_session (send_http_request sid 0 rid req timeout a)"
  using send_request_sent [OF assms, where rid = rid and req = req and timeout = timeout and rv = 0] assms(2) by (auto simp: send_pending_data_def Let_def)


end
