(* ===== verification/Spec2Isabelle.thy ===== *)
theory Spec2Isabelle
  imports Tcp_Protocol Tcp_Forwarder Http2_Session Cache Tunnel_Model Ip_Allowlist
    Agent_Connection Token_Validator Agent_Registry Tcp_Proxy Agent_Server Tcp_Server
    Http_Proxy Tunnel_Registry Rate_Limiter Router Metrics Tunnels_Api Http_Server
    Keyvault Tls_Manager Multiplexer Logging Signing Async_Utils Agent_Config Agent_Main Server_Config Server_Main
    Http_Tunnel
begin

text \<open>
  A model of protogate, a reverse tunnel written in C++. A server with a public address (\<open>src/src\<close>)
  forwards HTTP requests and raw TCP connections to agents (\<open>src/tunnel-agent/src\<close>) that keep a
  connection open to it; each agent hands them to a local service.

  \<^bold>\<open>Parts and how they interact.\<close> An agent connects and authenticates with a bearer token
  (\<open>agent_server\<close>, \<open>token_validator\<close>, \<open>cache\<close>); its connection (\<open>agent_connection\<close>) is entered in the
  registry (\<open>agent_registry\<close>). A client of HTTP reaches \<open>http_server\<close>, which hands the text to
  \<open>http_proxy\<close>: it finds the tunnel of the host, checks the allowlist (\<open>ip_allowlist\<close>) and sends the
  request to the agent over HTTP/2. A client of TCP reaches \<open>tcp_server\<close> and \<open>tcp_proxy\<close>, which wrap
  its bytes in the frames of \<open>tcp_protocol\<close>. On the other side \<open>http2_session\<close> separates TCP frames from
  HTTP/2, \<open>tcp_forwarder\<close> and \<open>request_forwarder\<close> talk to the local service, and \<open>run_agent\<close> in
  \<open>main.cpp\<close> keeps the session alive and connects again. Beside this stand the management API, health
  and metrics, logging and tracing, certificates, the key vault and the configuration.

  \<^bold>\<open>Theories and sources.\<close> Each theory has a group of definitions per class, in the order of the code:
  a record with its fields, a definition per method and per asynchronous handler, then the lemmas.
  \<^item> \<open>Prelude\<close>: machine integers, \<open>std::unordered_map\<close> as an association list, exceptions as values,
    the interfaces \<open>step_machine\<close> and \<open>frame_codec\<close>. \<open>Cpp_String\<close>: \<open>std::string\<close>, streams, \<open>std::stoi\<close>,
    \<open>std::stoul\<close>. \<open>Http_Text\<close>: header lines and addresses. \<open>Nghttp2\<close>: what is used of the library.
  \<^item> \<open>Tcp_Protocol\<close> (\<open>proxy/tcp_protocol\<close>), \<open>Multiplexer\<close> (\<open>proxy/protocol_multiplexer\<close>).
  \<^item> Server: \<open>Cache\<close> (\<open>storage/cache.h\<close>), \<open>Tunnel_Model\<close> (\<open>models\<close>), \<open>Tunnel_Registry\<close> and \<open>Keyvault\<close>
    (\<open>storage\<close>), \<open>Ip_Allowlist\<close>, \<open>Rate_Limiter\<close>, \<open>Token_Validator\<close>, \<open>Tls_Manager\<close> (\<open>security\<close>),
    \<open>Agent_Connection\<close> and \<open>Agent_Registry\<close> (\<open>agent\<close>), \<open>Agent_Server\<close>, \<open>Tcp_Server\<close>, \<open>Http_Server\<close>
    (\<open>server\<close>), \<open>Tcp_Proxy\<close> and \<open>Http_Proxy\<close> (\<open>proxy\<close>), \<open>Router\<close> and \<open>Tunnels_Api\<close> (\<open>api\<close>), \<open>Metrics\<close>
    (\<open>observability/metrics\<close>, \<open>server/health_handler\<close>, \<open>server/health_server\<close>), \<open>Logging\<close> (\<open>observability\<close>
    and the logger of the agent), \<open>Signing\<close> (time stamps, dates and signatures of logger and metrics),
    \<open>Async_Utils\<close> (\<open>utils/async_utils.h\<close>), \<open>Server_Config\<close> (\<open>utils\<close>), \<open>Server_Main\<close> (\<open>server/io_context_pool\<close>,
    \<open>server/main.cpp\<close>).
  \<^item> Agent: \<open>Tcp_Forwarder\<close> (\<open>forwarder/tcp_forwarder\<close>), \<open>Http2_Session\<close> (\<open>client/http2_session\<close>),
    \<open>Agent_Config\<close> (\<open>config\<close>, the choice of the configuration in \<open>main.cpp\<close>), \<open>Agent_Main\<close>
    (\<open>utils/reconnect\<close>, \<open>health\<close>, \<open>client/tls_client\<close>, \<open>forwarder/request_forwarder\<close>, \<open>run_agent\<close>).
  \<^item> \<open>Http_Streams\<close>: many streams on one HTTP/2 connection, each projected on its own events.
    \<open>Http_Tunnel\<close> and this theory: both ends together, for HTTP and for TCP.

  \<^bold>\<open>State and effects.\<close> An object is a record, a \<open>shared_ptr\<close> an index into a list of objects, so that
  an object may outlive its entry in a map. What an operation asks of the environment (a write, a
  read, a timer, a callback) is appended to a list of actions of its object; the completion of an
  asynchronous operation is a definition of its own whose arguments are the outcome. Handlers run
  one at a time, in any order that the theorems quantify over; mutexes make an operation one step.
  An exception is \<open>Inl\<close>; \<open>Out_of_bounds\<close>, \<open>Use_after_free\<close> and \<open>Deadlock\<close> stand for undefined behaviour.
  Integers of the wire have their width; counters in memory that cannot wrap in the life of a
  process are \<open>nat\<close> or \<open>int\<close>. Times are integers and arguments, nanoseconds unless a text says
  otherwise; \<open>double\<close> values are exact rationals.

  \<^bold>\<open>What the lemmas show.\<close> For each component: an invariant that every operation keeps (interpretations
  of \<open>step_machine\<close>, inductive sets of reachable states), the outcome of each operation on every
  branch, round trips of what is written and read, runs with many requests that are followed on one stream alone
  (\<open>foldl_projected\<close>), refinement of an abstract store (\<open>Cache\<close>) and of
  whole frames (\<open>Http2_Session\<close>), and where the code does not do what it means to, a theorem that
  says what it does. The numbered properties are the main results. Interfaces are locales:
  \<open>ttl_store\<close> (the cache), \<open>directory\<close> (the registry), \<open>frame_codec\<close> (frames), \<open>step_machine\<close>, each
  interpreted on the definitions of the component that provides it.

  \<^bold>\<open>Bounds and fuel.\<close> \<open>read_auth_response\<close> makes at most 50 attempts, as the code does. \<open>lg_log\<close> and
  \<open>lg_flush\<close> call each other with fuel: 3 is enough unless the level is DEBUG (\<open>logging_terminates\<close>),
  and with DEBUG no fuel is (\<open>debug_logging_diverges\<close>). All other loops are structural or have a
  measure; the loop of \<open>run_agent\<close> and the backup thread run over a list of rounds, one for each time
  they wake up.

  \<^bold>\<open>Parameters.\<close> Code outside of the repository is an argument of the definitions that call it:
  nghttp2 (its callbacks, results and data providers), OpenSSL (SHA-256, HMAC, base64, PEM and PKCS 12, whether
  a key fits), \<open>inet_pton\<close> and \<open>inet_ntop\<close>, the text of JSON and of floating point numbers,
  regular expressions of routes, random numbers, clocks, the order in which an unordered map is
  walked, sockets and files by their outcomes, and the exchange of a request with the local service.
  Hypotheses on them state documented behaviour and each has a witness.

  \<^bold>\<open>Not modelled.\<close> Data races between threads, which the code has in a few places that are only reported
  as findings; the signal handlers beyond the flag they set; exceptions of file streams; undefined overflow of
  \<open>int\<close> when a configured number of seconds is turned into milliseconds; the unfinished callbacks of
  \<open>protocol_multiplexer.cpp\<close> that return 0. Declarations, comments and log lines have no counterpart.
\<close>

section \<open>From a client of the server to the local service of the agent\<close>

text \<open>The agent reads frames in groups: each read ends with a whole frame.\<close>

fun agent_reads :: "bytes list list \<Rightarrow> HTTP2Session \<Rightarrow> HTTP2Session result" where
  "agent_reads [] s = Inr s"
| "agent_reads (g # gs) s = bind_result (process_tcp_frames (concat g) s) (\<lambda>(n, s1). agent_reads gs s1)"

lemma data_frame_bytes: "data_frame uuid off d = tcp_frame_bytes e (Data_frame
    \<lparr>data_type = TCP_DATA, data_connection_id = uuid, data_sequence_number = of_nat off, data_data = d\<rparr>)"
  by (simp add: data_frame_def)

lemma data_frames_deliver:
  assumes "length uuid = 16" "\<forall>c \<in> set cs. length c \<le> 65536"
  shows "\<exists>fs. data_frames uuid off cs = map (tcp_frame_bytes e) fs \<and> list_all (tcp_frame_valid e) fs
    \<and> (\<forall>fw. foldl (deliver e) fw fs = foldl (\<lambda>fw d. handle_tcp_data uuid d fw) fw cs)"
  using assms
proof (induction cs arbitrary: off)
  case Nil
  then show ?case by (intro exI [of _ "[]"]) simp
next
  case (Cons c cs)
  then obtain fs where "data_frames uuid (off + length c) cs = map (tcp_frame_bytes e) fs" "list_all (tcp_frame_valid e) fs"
    "\<forall>fw. foldl (deliver e) fw fs = foldl (\<lambda>fw d. handle_tcp_data uuid d fw) fw cs"
    by fastforce
  then show ?case using Cons.prems
    by (intro exI [of _ "Data_frame \<lparr>data_type = TCP_DATA, data_connection_id = uuid,
        data_sequence_number = of_nat off, data_data = c\<rparr> # fs"])
      (simp add: data_frame_bytes [where e = e] TCPDataFrame_valid_def)
qed

lemma agent_reads_append:
  assumes "concat gs = map (tcp_frame_bytes e) fs" "list_all (tcp_frame_valid e) fs" "hs_forwarder s = Some fw"
  shows "agent_reads gs s = Inr (s\<lparr>hs_forwarder := Some (foldl (deliver e) fw fs)\<rparr>)"
  using assms
proof (induction gs arbitrary: fs s fw)
  case (Cons g gs)
  define f1 where "f1 = take (length g) fs"
  define f2 where "f2 = drop (length g) fs"
  have fs: "fs = f1 @ f2" by (simp add: f1_def f2_def)
  have g: "g = map (tcp_frame_bytes e) f1" "concat gs = map (tcp_frame_bytes e) f2"
    using Cons.prems(1) by (simp_all add: f1_def f2_def take_map [symmetric] drop_map [symmetric]
        flip: Cons.prems(1))
  have "process_tcp_frames (concat g) s = Inr (length (concat g), s\<lparr>hs_forwarder := Some (foldl (deliver e) fw f1)\<rparr>)"
    using process_frames_concat [of e f1 "[]" s fw] Cons.prems(2,3) by (simp add: g(1) fs is_tcp_frame_def)
  moreover have "agent_reads gs (s\<lparr>hs_forwarder := Some (foldl (deliver e) fw f1)\<rparr>)
      = Inr (s\<lparr>hs_forwarder := Some (foldl (deliver e) (foldl (deliver e) fw f1) f2)\<rparr>)"
    using Cons.IH [OF g(2), of "s\<lparr>hs_forwarder := Some (foldl (deliver e) fw f1)\<rparr>"] Cons.prems(2) by (simp add: fs)
  ultimately show ?case by (simp add: fs)
qed simp

lemma accepted_handle_data:
  assumes "fw_inv fw" "map_of (fw_connections fw) cid = Some k"
  shows "accepted k (foldl (\<lambda>fw d. handle_tcp_data cid d fw) fw ds) = accepted k fw @ ds"
  using assms
proof (induction ds arbitrary: fw)
  case (Cons d ds)
  have "map_of (fw_connections (handle_tcp_data cid d fw)) cid = Some k"
    using Cons.prems(2) by (simp add: handle_tcp_data_def)
  then show ?case
    using Cons.IH [of "handle_tcp_data cid d fw"] fw_inv_data [OF Cons.prems(1)] accepted_data [OF Cons.prems, of cid d]
    by simp
qed simp

lemma length_window_cut: "c \<in> set (window_cut n ds) \<Longrightarrow> length c \<le> n"
  by (induction n ds rule: window_cut.induct) (fastforce split: if_splits)+


section \<open>From the local service to the client\<close>

definition sent_frames :: "TCPForwarder \<Rightarrow> bytes list" where
  "sent_frames fw = concat (map (\<lambda>a. case a of Send_frame b \<Rightarrow> [b] | _ \<Rightarrow> []) (fw_actions fw))"

text \<open>The server reads each frame by itself and writes its data out before it reads the next one.\<close>

fun relay :: "int \<Rightarrow> nat \<Rightarrow> bytes list \<Rightarrow> TCPProxy \<Rightarrow> TCPProxy result" where
  "relay now h [] p = Inr p"
| "relay now h (fr # frs) p = bind_result (handle_agent_tcp_frame now fr p) (\<lambda>p1.
     bind_result (on_client_written h (Some (length (px_recv_buffer (px_objects p1 ! h)))) p1) (relay now h frs))"

lemma relay_data:
  assumes "linked uuid h a p" "px_recv_buffer (px_objects p ! h) = []"
    and "\<forall>(i, d) \<in> set xs. d \<noteq> [] \<and> length d \<le> 65536"
  shows "\<exists>q. relay now h (map (\<lambda>(i, d). data_frame uuid (g i) d) xs) p = Inr q
    \<and> client_writes h q = client_writes h p @ map snd xs"
  using assms
proof (induction xs arbitrary: p)
  case (Cons x xs)
  obtain i d where x: "x = (i, d)" by (cases x)
  obtain p1 where p1: "handle_agent_tcp_frame now (data_frame uuid (g i) d) p = Inr p1" "linked uuid h a p1"
    "px_recv_buffer (px_objects p1 ! h) = d" "client_writes h p1 = client_writes h p @ [d]"
    using data_frame_received [OF Cons.prems(1), of d now "g i" "[]"] Cons.prems(2,3) x by auto
  obtain p2 where p2: "on_client_written h (Some (length d)) p1 = Inr p2" "linked uuid h a p2"
    "px_recv_buffer (px_objects p2 ! h) = []" "client_writes h p2 = client_writes h p1"
    using client_write_done [OF p1(2), of d "[]"] p1(3) by auto
  show ?case using Cons.IH [OF p2(2,3)] Cons.prems(3) p1 p2 x by auto
qed simp

lemma sent_frames_reads:
  assumes "fw_alive fw k" "k < length (fw_objects fw)" "fw_send_callback fw"
    "tc_socket_open (fw_objects fw ! k)" "tc_connection_id (fw_objects fw ! k) = uuid"
  shows "\<exists>xs. sent_frames (foldl (\<lambda>s d. on_local_read e k (Some d) s) fw ds)
      = sent_frames fw @ map (\<lambda>(i, d). data_frame uuid i d) xs \<and> map snd xs = ds"
  using assms
proof (induction ds arbitrary: fw)
  case (Cons d ds)
  let ?t = "on_local_read e k (Some d) fw"
  note t = local_read_step [OF Cons.prems(1-4), of e d]
  have "fw_alive ?t k" "k < length (fw_objects ?t)" "fw_send_callback ?t"
    "tc_socket_open (fw_objects ?t ! k)" "tc_connection_id (fw_objects ?t ! k) = uuid"
    using Cons.prems by (simp_all add: t fw_alive_def fw_set_object_def)
  then obtain xs where xs: "sent_frames (foldl (\<lambda>s d. on_local_read e k (Some d) s) ?t ds)
      = sent_frames ?t @ map (\<lambda>(i, d). data_frame uuid i d) xs" "map snd xs = ds"
    using Cons.IH by blast
  have "sent_frames ?t = sent_frames fw @ [data_frame uuid (unat (tc_sequence_number (fw_objects fw ! k))) d]"
    using Cons.prems(5) by (simp add: t sent_frames_def data_frame_def agent_data_frame_def)
  then show ?case using xs
    by (intro exI [of _ "(unat (tc_sequence_number (fw_objects fw ! k)), d) # xs"]) simp
qed simp


section \<open>Closing\<close>

lemma close_text_frame: "length cid \<ge> 16 \<Longrightarrow> tcp_close_text_frame cid = tcp_frame_bytes e (Close_frame
    \<lparr>close_type = TCP_CLOSE, close_connection_id = map (\<lambda>c. word_of_nat (of_char c)) (take 16 cid), close_reason = 0\<rparr>)"
  by (cases e) (simp_all add: tcp_close_text_frame_def TCPCloseFrame_serialize_def TCP_CLOSE_def htons_def put_be16_def
      bswap16_def get_be16_def)

lemma text_id_differs:
  assumes "length uuid = 16" "uuid ! 0 \<noteq> 0x33"
  shows "map (\<lambda>c. word_of_nat (of_char c)) (take 16 (connection_id_to_string uuid)) \<noteq> uuid"
proof
  assume eq: "map (\<lambda>c. word_of_nat (of_char c)) (take 16 (connection_id_to_string uuid)) = uuid"
  define b where "b = unat (uuid ! 0)"
  have b: "b < 256" using unat_u8_less [of "uuid ! 0"] by (simp add: b_def)
  have u: "[0..<16] = 0 # [1..<16]" by (simp add: upt_rec)
  have "connection_id_to_string uuid ! 0 = digit_char (b div 16)"
    by (simp add: connection_id_to_string_def u hex2_def b_def del: upt_Suc)
  moreover define m where "m = (of_char (digit_char (b div 16)) :: nat)"
  ultimately have m: "uuid ! 0 = word_of_nat m"
    using arg_cong [OF eq, of "\<lambda>x. x ! 0"] length_connection_id_to_string [of uuid] by simp
  have "m < 256" by (simp add: m_def)
  then have "b = m" using arg_cong [OF m, of unat] by (simp add: b_def unat_of_nat take_bit_nat_eq_self)
  moreover have "m = (if b div 16 < 10 then 48 + b div 16 else 87 + b div 16)"
    unfolding m_def using b by (intro of_char_digit_char) simp
  ultimately have "b = (if b div 16 < 10 then 48 + b div 16 else 87 + b div 16)" by simp
  then have "b = 0x33" using b by (simp split: if_splits)
  then have "unat (uuid ! 0) = unat (0x33 :: u8)" by (simp add: b_def)
  then have "uuid ! 0 = 0x33" by (rule word_unat_eq_iff [THEN iffD2])
  then show False using assms(2) by simp
qed

text \<open>
  When the server closes a connection it tells the agent, but under a wrong id: the first 16
  characters of the printed id instead of its 16 bytes. The agent consumes the frame and keeps the
  connection, and its socket to the local service, open (unless the id starts with the byte 0x33,
  as one id of 256 does).
\<close>

theorem close_never_reaches_connection:
  assumes "linked uuid h a p" "uuid ! 0 \<noteq> 0x33" "px_close_connection (connection_id_to_string uuid) graceful p = q"
    and "hs_forwarder s = Some fw" "fw_inv fw" "map_of (fw_connections fw) uuid = Some k"
  shows "\<exists>fr n s' fw'. agent_frames a q = agent_frames a p @ [fr] \<and> process_tcp_frames fr s = Inr (n, s') \<and> n = length fr
    \<and> hs_forwarder s' = Some fw' \<and> map_of (fw_connections fw') uuid = Some k
    \<and> tc_socket_open (fw_objects fw' ! k) = tc_socket_open (fw_objects fw ! k)"
proof -
  let ?txt = "connection_id_to_string uuid"
  let ?id = "map (\<lambda>c. word_of_nat (of_char c)) (take 16 ?txt) :: bytes"
  let ?f = "Close_frame \<lparr>close_type = TCP_CLOSE, close_connection_id = ?id, close_reason = 0\<rparr>"
  have fr: "tcp_close_text_frame ?txt = tcp_frame_bytes LittleEndian ?f"
    by (rule close_text_frame) (simp add: length_connection_id_to_string)
  have "agent_frames a q = agent_frames a p @ [tcp_close_text_frame ?txt]"
    using assms(1,3) by (auto simp: px_close_connection_def linked_def agent_frames_def send_tcp_close_def
        ac_act_def px_set_def cleanup_connection_def Let_def)
  moreover have "process_tcp_frames (tcp_close_text_frame ?txt) s
      = Inr (length (tcp_close_text_frame ?txt), s\<lparr>hs_forwarder := Some (close_connection ?id fw)\<rparr>)"
    using process_frames_concat [of LittleEndian "[?f]" "[]" s fw] assms(4)
    by (simp add: fr is_tcp_frame_def TCPCloseFrame_valid_def length_connection_id_to_string)
  moreover have "?id \<noteq> uuid" using text_id_differs assms(1,2) by (simp add: linked_def)
  then have "map_of (fw_connections fw) ?id \<noteq> Some k"
    using fw_inv_lookup [OF assms(5), of ?id k] fw_inv_lookup [OF assms(5,6)] by auto
  then have "map_of (fw_connections (close_connection ?id fw)) uuid = Some k
      \<and> tc_socket_open (fw_objects (close_connection ?id fw) ! k) = tc_socket_open (fw_objects fw ! k)"
    using assms(5,6) fw_inv_lookup [OF assms(5)] \<open>?id \<noteq> uuid\<close>
    by (auto simp: close_connection_def Let_def map_simps fw_objects_set_object split: option.splits)
  ultimately show ?thesis by auto
qed

section \<open>The handshake\<close>

lemma connect_request_headers:
  assumes "CHR 0x0A \<notin> set tok" "CHR 0x0A \<notin> set tid"
  shows "auth_headers (connect_request_text tid tok) = (''Bearer '' @ tok, tid, ''9100'')"
proof -
  let ?ls = "[''CONNECT tunnel-agent HTTP/1.1'', ''Host: tunnel-agent'', ''Authorization: Bearer '' @ tok,
    ''X-Tunnel-ID: '' @ tid, ''X-Agent-Version: 1.0.0'', ''X-TCP-Ports: 9100'']"
  have "connect_request_text tid tok = concat (map (\<lambda>l. l @ CRLF) ?ls) @ CRLF @ []"
    by (simp add: connect_request_text_def)
  moreover have "header_lines (concat (map (\<lambda>l. l @ CRLF) ?ls) @ CRLF @ []) = (?ls, [])"
    using assms by (intro header_lines_concat) simp
  ultimately show ?thesis
    by (simp add: auth_headers_def auth_header_def starts_with_def)
qed

lemma auth_accepted_responses:
  "auth_accepted (response_line 200 ''Connection established'')"
  "\<not> auth_accepted (response_line 401 ''Token not found or expired'')"
  "\<not> auth_accepted (response_line 401 (''Authorization header must be '' @ [CHR 0x27] @ ''Bearer tnl_...'' @ [CHR 0x27]))"
  "\<not> auth_accepted (response_line 409 ''Tunnel already connected'')"
  by code_simp+

lemma validate_message:
  "\<not> vr_valid (validate sha steady now ord c header) \<Longrightarrow> vr_error_message (validate sha steady now ord c header)
     \<in> {''Token not found or expired'', ''Authorization header must be '' @ [CHR 0x27] @ ''Bearer tnl_...'' @ [CHR 0x27]}"
  by (cases "extract_token header = ''''")
    (auto simp: validate_def validate_token_def vr_success_def vr_failure_def Let_def split: prod.splits if_splits)

text \<open>The only port of the agent's request, 9100, is a number.\<close>

lemma ports_9100: "\<exists>c'. ports_outcome steady now tid ''9100'' c = (None, c')"
proof -
  have "trim blanks ''9100'' = ''9100''" "stoi 10 ''9100'' = Inr 9100" by code_simp+
  then show ?thesis
    using register_ports_single [of "''9100''" steady now tid]
    by (auto simp: ports_outcome_def split: option.splits)
qed

text \<open>
  C4. The two ends of the handshake agree: whatever token and tunnel id the agent is configured with,
  the server answers its request, and the agent takes the answer for a success exactly when the
  server has taken the agent in, which it does exactly when the token is valid and its tunnel (the
  token's, not the one the agent names) has no connected agent.
\<close>

theorem handshake_agreement:
  assumes "CHR 0x0A \<notin> set tok" "CHR 0x0A \<notin> set tid" "k < length (as_handshakes s)"
    and "length (as_owner s) = length (as_conns s)"
    and "r = validate sha steady now ord (as_tokens s) (''Bearer '' @ tok)"
    and "authenticate sha steady now ord 0 k (connect_request_text tid tok) s = (ex, t)"
    and "ok \<longleftrightarrow> vr_valid r \<and> \<not> is_connected (as_conns s) (vr_tunnel_id r) (as_registry s)"
  shows "ex = None
    \<and> (\<exists>resp. hk_actions (as_handshakes t ! k) = hk_actions (as_handshakes s ! k) @ [Hk_response resp]
         \<and> (auth_accepted resp \<longleftrightarrow> ok))
    \<and> as_conns t = as_conns s @ (if ok then [started_connection steady now (vr_tunnel_id r)] else [])"
proof -
  note h = connect_request_headers [OF assms(1,2)]
  consider "\<not> vr_valid r" | "vr_valid r" "is_connected (as_conns s) (vr_tunnel_id r) (as_registry s)"
    | "vr_valid r" "\<not> is_connected (as_conns s) (vr_tunnel_id r) (as_registry s)" by blast
  then show ?thesis
  proof cases
    case 1
    then have "(ex, t) = (None, hk_send_response k 401 (vr_error_message r) s)"
      using authenticate_rejects(1) [OF h assms(5)] assms(6) by simp
    moreover have "\<not> auth_accepted (response_line 401 (vr_error_message r))"
      using validate_message [of sha steady now ord "as_tokens s" "''Bearer '' @ tok"] 1 auth_accepted_responses(2,3)
      unfolding assms(5) by auto
    ultimately show ?thesis using 1 assms(3,7) by (simp add: hk_send_response_def hk_act_def)
  next
    case 2
    then show ?thesis
      using authenticate_rejects(2) [OF h assms(5)] assms(3,6,7) auth_accepted_responses(4)
      by (auto simp: hk_send_response_def hk_act_def)
  next
    case 3
    obtain tunnels where p: "ports_outcome steady now (vr_tunnel_id r) ''9100'' (as_tunnels s) = (None, tunnels)"
      using ports_9100 by blast
    show ?thesis
      using authenticate_accepts [OF h assms(3,5) 3(1) refl 3(2) p assms(4)] 3 assms(3,6,7) auth_accepted_responses(1)
      by (auto simp: hk_send_response_def hk_act_def)
  qed
qed

text \<open>
  After the handshake the port the agent asked for leads to its tunnel: the server of raw TCP
  finds the tunnel of the token under that port, unless it remembers another one or another live
  entry claims the port.
\<close>

theorem registered_port_routes:
  assumes "Cache_wf tunnels" "CHR '':'' \<notin> set tid" "tid \<noteq> ''''"
    and "register_ports steady now tid existing (nat_string (unat port)) tunnels = (ex, c)"
    and "px_tunnels (ts_proxy v) = c" "map_of (ts_port_to_tunnel v) port = None"
    and "walk_of ord c" "steady \<le> later" "later < steady + seconds (24 * 3600)"
    and "\<forall>key t. key_port key = Some port \<longrightarrow> Cache_get later key c = Some t \<longrightarrow> tunnel_id t = tid"
  shows "ex = None \<and> fst (find_tunnel_for_port later ord port v) = tid"
proof -
  let ?k = "tcp_tunnel_key tid port"
  have "CHR '','' \<notin> set (nat_string (unat port))"
    using nat_string_chars [of "CHR '',''" "unat port"] by (auto simp: is_digit_def digit_val_def)
  moreover have tr: "trim blanks (nat_string (unat port)) = nat_string (unat port)"
    using nat_string_chars [of "hd (nat_string (unat port))" "unat port"]
      nat_string_chars [of "last (nat_string (unat port))" "unat port"]
    by (intro trim_id) (auto simp: is_space_def)
  moreover have "stoi 10 (nat_string (unat port)) = Inr (int (unat port))"
    using unsigned_less [of port, where 'a = nat] by (intro stoi_nat_string) simp
  ultimately have c: "ex = None" "c = Cache_put_ttl steady ?k (tcp_tunnel now tid existing) (24 * 3600) tunnels"
    using register_ports_single [of "nat_string (unat port)" steady now tid existing tunnels] assms(4) by simp_all
  have g: "Cache_get later ?k c = Some (tcp_tunnel now tid existing)"
    using assms(1,9) by (simp add: c(2) cache_store.get_put)
  have kp: "key_port ?k = Some port" using key_port_tcp_tunnel [OF assms(2)] by (simp add: tcp_tunnel_key_def)
  define P :: "string \<times> Tunnel \<Rightarrow> bool" where "P = (\<lambda>(key, t). key_port key = Some port \<and> protocol t = TCP)"
  have fold: "foldl (\<lambda>m (k, t). if P (k, t) then tunnel_id t else m) m0 xs
      = (case filter P xs of [] \<Rightarrow> m0 | ys \<Rightarrow> tunnel_id (snd (last ys)))" for m0 xs
    by (induction xs rule: rev_induct) (auto split: list.splits prod.splits)
  have "(?k, tcp_tunnel now tid existing) \<in> set (Cache_live later ord c)"
    using g Cache_live_get [OF assms(7)] by simp
  moreover have "P (?k, tcp_tunnel now tid existing)"
    using kp by (simp add: P_def tcp_tunnel_def)
  ultimately have ne: "filter P (Cache_live later ord c) \<noteq> []"
    by (metis filter_empty_conv)
  obtain key t where kt: "last (filter P (Cache_live later ord c)) = (key, t)" by fastforce
  then have "(key, t) \<in> set (filter P (Cache_live later ord c))"
    using last_in_set [OF ne] by simp
  then have "tunnel_id (snd (last (filter P (Cache_live later ord c)))) = tid"
    using assms(10) Cache_live_get [OF assms(7), of key t later] by (simp add: kt) (auto simp: P_def)
  then have "foldl (\<lambda>m (k, t). if P (k, t) then tunnel_id t else m) '''' (Cache_live later ord c) = tid"
    using fold [of "''''" "Cache_live later ord c"] ne by (cases "filter P (Cache_live later ord c)") simp_all
  then have "Cache_for_each later ord (\<lambda>matched key t. if key_port key = Some port \<and> protocol t = TCP then tunnel_id t
      else matched) c '''' = tid"
    by (simp add: Cache_for_each_def P_def)
  then show ?thesis
    using assms(3,5,6) c(1) by (simp add: find_tunnel_for_port_def Let_def)
qed

section \<open>Witnesses\<close>

definition sample_open_forwarder :: TCPForwarder where
  "sample_open_forwarder = (TCPForwarder_new ''localhost'' 80)\<lparr>fw_connections := [(sample_id, 0)], fw_send_callback := True,
     fw_objects := [\<lparr>tc_connection_id = sample_id, tc_socket_open = True, tc_sequence_number = 0, tc_closing = False,
       tc_connected = True, tc_pending_data = []\<rparr>]\<rparr>"

lemma sample_open_forwarder_ok:
  "fw_inv sample_open_forwarder" "map_of (fw_connections sample_open_forwarder) sample_id = Some 0"
  "fw_alive sample_open_forwarder 0" "fw_send_callback sample_open_forwarder" "length (fw_objects sample_open_forwarder) = 1"
  "tc_socket_open (fw_objects sample_open_forwarder ! 0)"
  "tc_connection_id (fw_objects sample_open_forwarder ! 0) = sample_id"
  "accepted 0 sample_open_forwarder = []"
  by (simp_all add: sample_open_forwarder_def TCPForwarder_new_def fw_inv_def umap_wf_def fw_alive_def accepted_def
      local_writes_def)

definition sample_open_session :: HTTP2Session where
  "sample_open_session = sample_session\<lparr>hs_forwarder := Some sample_open_forwarder\<rparr>"

lemma sample_client_frames: "agent_frames 0 (foldl (\<lambda>p (now, d). on_client_read now full_write 0 (Client_data d) p) sample_linked
      [(1, [1, 2]), (2, [3])]) = agent_frames 0 sample_linked @ concat [data_frames sample_id 0 [[1, 2], [3]]]"
  using client_stream_window [OF sample_linked_ok(1,3), of 0 _ "[(1, [1, 2]), (2, [3])]"] sample_linked_ok(4) by simp



lemma close_never_reaches_connection_witness:
  "\<exists>fr s' fw'. agent_frames 0 (px_close_connection (connection_id_to_string sample_id) True sample_linked)
       = agent_frames 0 sample_linked @ [fr]
     \<and> process_tcp_frames fr sample_open_session = Inr (length fr, s') \<and> hs_forwarder s' = Some fw'
     \<and> map_of (fw_connections fw') sample_id = Some 0"
proof -
  have "hs_forwarder sample_open_session = Some sample_open_forwarder" "sample_id ! 0 \<noteq> 0x33"
    by (simp_all add: sample_open_session_def sample_id_def)
  then show ?thesis
    using close_never_reaches_connection [OF sample_linked_ok(1) _ refl _ sample_open_forwarder_ok(1,2),
        where graceful = True and s = sample_open_session] by blast
qed

lemma handshake_agreement_witness:
  "\<exists>ex t. authenticate sample_sha 5 5 [''t1''] 0 0 (connect_request_text ''x'' ''tnl_a'') sample_server = (ex, t)
     \<and> as_conns t = [started_connection 5 5 ''t1'']"
proof -
  obtain ex t where t: "authenticate sample_sha 5 5 [''t1''] 0 0 (connect_request_text ''x'' ''tnl_a'') sample_server = (ex, t)"
    by fastforce
  show ?thesis
    using handshake_agreement [OF _ _ _ _ refl t refl] t sample_server_simps
    by (simp add: sample_valid vr_success_def)
qed

lemma port_9100_text: "nat_string (unat (9100 :: u16)) = ''9100''" "trim blanks ''9100'' = ''9100''" "stoi 10 ''9100'' = Inr 9100"
  by (simp add: nat_string.simps digit_char_def) code_simp+

definition sample_ports :: "(string, Tunnel) Cache" where
  "sample_ports = Cache_put_ttl 0 ''t1:tcp:9100'' (tcp_tunnel 0 ''t1'' sample_tunnel) 86400 (Cache_new 60)"

lemma sample_ports_registered:
  "register_ports 0 0 ''t1'' sample_tunnel (nat_string (unat (9100 :: u16))) (Cache_new 60) = (None, sample_ports)"
proof -
  have "tcp_tunnel_key ''t1'' 9100 = ''t1:tcp:9100''"
    unfolding tcp_tunnel_key_def port_9100_text(1) by simp
  then show ?thesis
    unfolding port_9100_text(1)
    by (subst register_ports_single) (simp_all add: port_9100_text(2,3) sample_ports_def)
qed

lemma sample_ports_entry: "Cache_get t key sample_ports =
    (if key = ''t1:tcp:9100'' \<and> t < 86400000000000 then Some (tcp_tunnel 0 ''t1'' sample_tunnel) else None)"
  by (simp add: sample_ports_def cache_store.get_put seconds_def Cache_wf_def Cache_new_def) (simp add: Cache_get_def)

lemma registered_port_routes_witness:
  "fst (find_tunnel_for_port 5 [''t1:tcp:9100''] 9100 (TCPServer_new (TCPProxy_new sample_ports (AgentRegistry_new 1) []) [9100]))
   = ''t1''"
proof -
  let ?v = "TCPServer_new (TCPProxy_new sample_ports (AgentRegistry_new 1) []) [9100]"
  have "walk_of [''t1:tcp:9100''] sample_ports"
    by (simp add: sample_ports_def walk_of_def Cache_put_ttl_def Cache_new_def)
  moreover have "\<forall>key t. key_port key = Some 9100 \<longrightarrow> Cache_get 5 key sample_ports = Some t \<longrightarrow> tunnel_id t = ''t1''"
    by (auto simp: sample_ports_entry tcp_tunnel_def split: if_splits)
  moreover have "Cache_wf (Cache_new 60 :: (string, Tunnel) Cache)"
    by (simp add: Cache_wf_def Cache_new_def)
  moreover have "px_tunnels (ts_proxy ?v) = sample_ports" "map_of (ts_port_to_tunnel ?v) 9100 = None"
    by (simp_all add: TCPServer_new_def TCPProxy_new_def)
  ultimately show ?thesis
    using registered_port_routes [OF _ _ _ sample_ports_registered, of ?v "[''t1:tcp:9100'']" 5]
    by (simp only: seconds_def) simp
qed

end
